(* ===== verification/Prelude.thy ===== *)
theory Prelude
  imports Main
begin

text \<open>
  Shared vocabulary of the development: Go error values with the chain that
  \<open>errors.Is\<close> and \<open>errors.As\<close> walk, results of fallible functions, functions
  that can panic, and 64-bit integers.  The collection \<open>err_simps\<close> gathers the
  facts that evaluate error chains.
\<close>

named_theorems err_simps \<open>evaluation of error chains\<close>

section \<open>Error values\<close>

text \<open>
  \<open>Sentinel m\<close> is a package-level \<open>errors.New(m)\<close>, compared by identity (the texts
  of the modelled packages are distinct, so the text is the identity).
  \<open>Wrapped m es\<close> is the result of \<open>fmt.Errorf\<close>: its message and the errors given
  to \<open>%w\<close>.  \<open>Typed t m es\<close> is a value of the error struct type \<open>t\<close>, with its
  \<open>Error()\<close> text and what \<open>Unwrap()\<close> returns.
\<close>

datatype err =
    Sentinel string
  | Wrapped string "err list"
  | Typed string string "err list"

text \<open>The pieces of a \<open>fmt.Errorf\<close> call: literal text, and an error printed by \<open>%w\<close>.\<close>

datatype epart = L string | W err

fun err_text :: "err \<Rightarrow> string" where
  "err_text (Sentinel m) = m"
| "err_text (Wrapped m _) = m"
| "err_text (Typed _ m _) = m"

fun part_text :: "epart \<Rightarrow> string" where
  "part_text (L s) = s"
| "part_text (W e) = err_text e"

fun part_errs :: "epart \<Rightarrow> err list" where
  "part_errs (L s) = []"
| "part_errs (W e) = [e]"

definition errorf :: "epart list \<Rightarrow> err" where
  "errorf ps = Wrapped (concat (map part_text ps)) (concat (map part_errs ps))"

text \<open>\<open>errors.Is\<close> against a sentinel: somewhere in the chain is that very value.\<close>

fun errors_is :: "string \<Rightarrow> err \<Rightarrow> bool" where
  "errors_is t (Sentinel m) = (m = t)"
| "errors_is t (Wrapped _ es) = list_ex (errors_is t) es"
| "errors_is t (Typed _ _ es) = list_ex (errors_is t) es"

text \<open>\<open>errors.As\<close> for a struct type: somewhere in the chain is a value of that type.\<close>

fun errors_as :: "string \<Rightarrow> err \<Rightarrow> bool" where
  "errors_as t (Sentinel m) = False"
| "errors_as t (Wrapped _ es) = list_ex (errors_as t) es"
| "errors_as t (Typed u _ es) = (u = t \<or> list_ex (errors_as t) es)"

lemma errors_is_errorf [simp, err_simps]:
  "errors_is t (errorf ps) = list_ex (\<lambda>p. list_ex (errors_is t) (part_errs p)) ps"
  by (induction ps) (auto simp: errorf_def)

lemma errors_as_errorf [simp, err_simps]:
  "errors_as t (errorf ps) = list_ex (\<lambda>p. list_ex (errors_as t) (part_errs p)) ps"
  by (induction ps) (auto simp: errorf_def)

text \<open>A fallible Go function returns a value or a non-nil error.\<close>

type_synonym 'a res = "err + 'a"

text \<open>A function that can also dereference a nil pointer or close a closed channel.\<close>

datatype 'a outcome = Ret 'a | Panic string

fun bind_res :: "'a res \<Rightarrow> ('a \<Rightarrow> 'b res) \<Rightarrow> 'b res" where
  "bind_res (Inl e) f = Inl e"
| "bind_res (Inr x) f = f x"

lemma bind_res_Inr_iff [simp]:
  "bind_res r f = Inr y \<longleftrightarrow> (\<exists>x. r = Inr x \<and> f x = Inr y)"
  by (cases r) auto

definition is_ok :: "'a res \<Rightarrow> bool" where
  "is_ok r \<longleftrightarrow> (case r of Inr _ \<Rightarrow> True | Inl _ \<Rightarrow> False)"

lemma is_ok_simps [simp]: "is_ok (Inr x)" "\<not> is_ok (Inl e)"
  by (simp_all add: is_ok_def)

section \<open>Integers of fixed width\<close>

text \<open>The value of an \<open>int64\<close> (and of \<open>time.Duration\<close>) after wrap-around.\<close>

definition i64 :: "int \<Rightarrow> int" where
  "i64 x = (x + 2 ^ 63) mod 2 ^ 64 - 2 ^ 63"

definition is_i64 :: "int \<Rightarrow> bool" where
  "is_i64 x \<longleftrightarrow> - (2 ^ 63) \<le> x \<and> x < 2 ^ 63"

lemma i64_id [simp]: "is_i64 x \<Longrightarrow> i64 x = x"
  by (simp add: is_i64_def i64_def)

lemma is_i64_i64 [simp]: "is_i64 (i64 x)"
  using pos_mod_bound [of "2 ^ 64" "x + 2 ^ 63"] pos_mod_sign [of "2 ^ 64" "x + 2 ^ 63"]
  by (simp add: is_i64_def i64_def)

lemma i64_between: "0 \<le> x \<Longrightarrow> x < 2 ^ 63 \<Longrightarrow> i64 x = x"
  by (simp add: is_i64_def)

definition i32 :: "int \<Rightarrow> int" where
  "i32 x = (x + 2 ^ 31) mod 2 ^ 32 - 2 ^ 31"

lemma i32_between: "- (2 ^ 31) \<le> x \<Longrightarrow> x < 2 ^ 31 \<Longrightarrow> i32 x = x"
  by (simp add: i32_def)

end
