(* ===== verification/GoStrings.thy ===== *)
theory GoStrings
  imports Prelude "HOL-Library.Sublist"
begin

text \<open>
  The functions of Go's \<open>strings\<close>, \<open>strconv\<close> and \<open>path\<close> packages that the modelled
  code calls, over strings as lists of bytes (one \<open>char\<close> per byte), with the facts
  about them that the components share.
\<close>

section \<open>Characters and letter case\<close>

definition ord :: "char \<Rightarrow> nat" where
  "ord c = of_char c"

definition is_upper :: "char \<Rightarrow> bool" where
  "is_upper c \<longleftrightarrow> 65 \<le> ord c \<and> ord c \<le> 90"

definition is_lower :: "char \<Rightarrow> bool" where
  "is_lower c \<longleftrightarrow> 97 \<le> ord c \<and> ord c \<le> 122"

definition is_digit :: "char \<Rightarrow> bool" where
  "is_digit c \<longleftrightarrow> 48 \<le> ord c \<and> ord c \<le> 57"

definition is_ascii :: "char \<Rightarrow> bool" where
  "is_ascii c \<longleftrightarrow> ord c < 128"

definition is_hex :: "char \<Rightarrow> bool" where
  "is_hex c \<longleftrightarrow> is_digit c \<or> (97 \<le> ord c \<and> ord c \<le> 102) \<or> (65 \<le> ord c \<and> ord c \<le> 70)"

text \<open>Lower-casing an ASCII letter sets bit 5; upper-casing clears it.\<close>

fun set_bit5 :: "bool \<Rightarrow> char \<Rightarrow> char" where
  "set_bit5 b (Char b0 b1 b2 b3 b4 b5 b6 b7) = Char b0 b1 b2 b3 b4 b b6 b7"

definition lower_char :: "char \<Rightarrow> char" where
  "lower_char c = (if is_upper c then set_bit5 True c else c)"

definition upper_char :: "char \<Rightarrow> char" where
  "upper_char c = (if is_lower c then set_bit5 False c else c)"

text \<open>
  \<open>strings.ToLower\<close>.  Two non-ASCII letters have an ASCII lower case: U+0130 (bytes
  C4 B0) becomes \<open>i\<close> and U+212A (bytes E2 84 AA) becomes \<open>k\<close>.  Other non-ASCII
  bytes are left as they are: their lower case is again non-ASCII, so every
  comparison with an ASCII text has the outcome of the full Unicode mapping.
\<close>

fun to_lower :: "string \<Rightarrow> string" where
  "to_lower [] = []"
| "to_lower (c # cs) =
     (if c = CHR 0xC4 \<and> prefix [CHR 0xB0] cs then CHR ''i'' # to_lower (drop 1 cs)
      else if c = CHR 0xE2 \<and> prefix [CHR 0x84, CHR 0xAA] cs
           then CHR ''k'' # to_lower (drop 2 cs)
      else lower_char c # to_lower cs)"

definition to_upper_ascii :: "string \<Rightarrow> string" where
  "to_upper_ascii s = map upper_char s"

lemma ord_Char: "ord (Char b0 b1 b2 b3 b4 b5 b6 b7) =
   of_bool b0 + 2 * of_bool b1 + 4 * of_bool b2 + 8 * of_bool b3 +
   16 * of_bool b4 + 32 * of_bool b5 + 64 * of_bool b6 + 128 * of_bool b7"
  by (simp add: ord_def)

lemma ord_set_bit5_upper: "is_upper c \<Longrightarrow> ord (set_bit5 True c) = ord c + 32"
  by (cases c) (auto simp: is_upper_def ord_Char of_bool_def split: if_splits)

lemma lower_char_not_upper [simp]: "\<not> is_upper (lower_char c)"
  by (auto simp: lower_char_def is_upper_def ord_set_bit5_upper)

lemma lower_char_idem [simp]: "lower_char (lower_char c) = lower_char c"
  using lower_char_not_upper [of c] by (simp add: lower_char_def split: if_splits)

lemma is_hex_ascii: "is_hex c \<Longrightarrow> is_ascii c"
  by (auto simp: is_hex_def is_ascii_def is_digit_def)

lemma is_hex_lower [simp]: "is_hex (lower_char c) = is_hex c"
proof (cases "is_upper c")
  case True
  then show ?thesis
    by (auto simp: lower_char_def is_hex_def is_digit_def is_upper_def ord_set_bit5_upper)
qed (simp add: lower_char_def)

lemma is_ascii_lower [simp]: "is_ascii (lower_char c) = is_ascii c"
proof (cases "is_upper c")
  case True
  then show ?thesis
    by (auto simp: lower_char_def is_ascii_def is_upper_def ord_set_bit5_upper)
qed (simp add: lower_char_def)

lemma non_ascii_lead [simp]: "\<not> is_ascii CHR 0xC4" "\<not> is_ascii CHR 0xE2"
  by (simp_all add: is_ascii_def ord_def)

lemma to_lower_ascii: "list_all is_ascii s \<Longrightarrow> to_lower s = map lower_char s"
  by (induction s) auto

lemma to_lower_ascii_idem: "list_all is_ascii s \<Longrightarrow> to_lower (to_lower s) = to_lower s"
  by (simp add: to_lower_ascii list_all_iff o_def)

section \<open>Splitting and joining\<close>

text \<open>\<open>strings.Join\<close>, and \<open>strings.Split\<close> at a one-byte separator.\<close>

fun join :: "string \<Rightarrow> string list \<Rightarrow> string" where
  "join sep [] = []"
| "join sep [x] = x"
| "join sep (x # y # zs) = x @ sep @ join sep (y # zs)"

fun split_on :: "char \<Rightarrow> string \<Rightarrow> string list" where
  "split_on c [] = [[]]"
| "split_on c (x # xs) =
     (if x = c then [] # split_on c xs
      else case split_on c xs of [] \<Rightarrow> [[x]] | p # ps \<Rightarrow> (x # p) # ps)"

text \<open>\<open>strings.Cut\<close> at a one-byte separator: the text before, after, and whether it was found.\<close>

fun cut :: "char \<Rightarrow> string \<Rightarrow> string \<times> string \<times> bool" where
  "cut c [] = ([], [], False)"
| "cut c (x # xs) =
     (if x = c then ([], xs, True)
      else case cut c xs of (b, a, f) \<Rightarrow> (x # b, a, f))"

text \<open>\<open>strings.SplitN(s, sep, n)\<close> for a positive \<open>n\<close>: at most \<open>n\<close> pieces.\<close>

fun split_n :: "char \<Rightarrow> nat \<Rightarrow> string \<Rightarrow> string list" where
  "split_n c 0 s = []"
| "split_n c (Suc 0) s = [s]"
| "split_n c (Suc (Suc n)) s =
     (case cut c s of (b, a, f) \<Rightarrow> if f then b # split_n c (Suc n) a else [s])"

lemma split_on_neq_Nil [simp]: "split_on c s \<noteq> []"
  by (induction s) (auto split: list.splits)

lemma join_Cons: "xs \<noteq> [] \<Longrightarrow> join sep (x # xs) = x @ sep @ join sep xs"
  by (cases xs) auto

lemma join_hd_Cons: "join sep ((x # p) # ps) = x # join sep (p # ps)"
  by (cases ps) auto

lemma join_split_on [simp]: "join [c] (split_on c s) = s"
proof (induction s)
  case (Cons x xs)
  then show ?case
    by (cases "split_on c xs") (auto simp: join_Cons join_hd_Cons)
qed simp

lemma split_on_pieces: "p \<in> set (split_on c s) \<Longrightarrow> c \<notin> set p"
proof (induction s arbitrary: p)
  case (Cons x xs)
  then show ?case
    by (cases "split_on c xs") (auto split: if_splits)
qed simp

lemma split_on_no_sep: "c \<notin> set s \<Longrightarrow> split_on c s = [s]"
  by (induction s) auto

lemma split_on_append: "c \<notin> set p \<Longrightarrow> split_on c (p @ c # s) = p # split_on c s"
  by (induction p) auto

lemma split_on_join:
  "xs \<noteq> [] \<Longrightarrow> \<forall>p \<in> set xs. c \<notin> set p \<Longrightarrow> split_on c (join [c] xs) = xs"
proof (induction xs)
  case (Cons x xs)
  then show ?case by (cases xs) (simp_all add: split_on_append split_on_no_sep)
qed simp

lemma join_inject:
  "xs \<noteq> [] \<Longrightarrow> ys \<noteq> [] \<Longrightarrow> \<forall>p \<in> set xs. c \<notin> set p \<Longrightarrow> \<forall>p \<in> set ys. c \<notin> set p \<Longrightarrow>
     join [c] xs = join [c] ys \<Longrightarrow> xs = ys"
  by (metis split_on_join)

lemma cut_found: "cut c s = (b, a, True) \<longleftrightarrow> s = b @ c # a \<and> c \<notin> set b"
proof (induction s arbitrary: b)
  case (Cons x xs)
  show ?case
  proof (cases b)
    case Nil
    then show ?thesis by (auto split: prod.splits)
  next
    case (Cons y ys)
    then show ?thesis using Cons.IH [of ys] by (cases "cut c xs") auto
  qed
qed simp

lemma cut_not_found: "cut c s = (b, a, False) \<longleftrightarrow> c \<notin> set s \<and> b = s \<and> a = []"
proof (induction s arbitrary: b)
  case (Cons x xs)
  then show ?case by (cases "cut c xs") auto
qed auto

section \<open>Prefixes, suffixes and white space\<close>

definition trim_prefix :: "string \<Rightarrow> string \<Rightarrow> string" where
  "trim_prefix p s = (if prefix p s then drop (length p) s else s)"

definition trim_suffix :: "string \<Rightarrow> string \<Rightarrow> string" where
  "trim_suffix p s = (if suffix p s then take (length s - length p) s else s)"

text \<open>\<open>strings.TrimLeft\<close> and \<open>strings.TrimRight\<close> with a one-character cutset.\<close>

definition trim_left_char :: "char \<Rightarrow> string \<Rightarrow> string" where
  "trim_left_char c s = dropWhile ((=) c) s"

definition trim_right_char :: "char \<Rightarrow> string \<Rightarrow> string" where
  "trim_right_char c s = rev (dropWhile ((=) c) (rev s))"

text \<open>\<open>strings.ReplaceAll\<close> of one character by another, and by nothing.\<close>

definition replace_char :: "char \<Rightarrow> char \<Rightarrow> string \<Rightarrow> string" where
  "replace_char a b s = map (\<lambda>x. if x = a then b else x) s"

definition remove_char :: "char \<Rightarrow> string \<Rightarrow> string" where
  "remove_char a s = filter (\<lambda>x. x \<noteq> a) s"

text \<open>The UTF-8 encodings of the code points \<open>unicode.IsSpace\<close> accepts.\<close>

definition space_seqs :: "string list" where
  "space_seqs =
     [[CHR 0x20], [CHR 0x09], [CHR 0x0A], [CHR 0x0B], [CHR 0x0C], [CHR 0x0D],
      [CHR 0xC2, CHR 0x85], [CHR 0xC2, CHR 0xA0], [CHR 0xE1, CHR 0x9A, CHR 0x80],
      [CHR 0xE2, CHR 0x80, CHR 0x80], [CHR 0xE2, CHR 0x80, CHR 0x81],
      [CHR 0xE2, CHR 0x80, CHR 0x82], [CHR 0xE2, CHR 0x80, CHR 0x83],
      [CHR 0xE2, CHR 0x80, CHR 0x84], [CHR 0xE2, CHR 0x80, CHR 0x85],
      [CHR 0xE2, CHR 0x80, CHR 0x86], [CHR 0xE2, CHR 0x80, CHR 0x87],
      [CHR 0xE2, CHR 0x80, CHR 0x88], [CHR 0xE2, CHR 0x80, CHR 0x89],
      [CHR 0xE2, CHR 0x80, CHR 0x8A], [CHR 0xE2, CHR 0x80, CHR 0xA8],
      [CHR 0xE2, CHR 0x80, CHR 0xA9], [CHR 0xE2, CHR 0x80, CHR 0xAF],
      [CHR 0xE2, CHR 0x81, CHR 0x9F], [CHR 0xE3, CHR 0x80, CHR 0x80]]"

function strip_prefixes :: "string list \<Rightarrow> string \<Rightarrow> string" where
  "strip_prefixes ws s =
     (case find (\<lambda>w. w \<noteq> [] \<and> prefix w s) ws of
        None \<Rightarrow> s
      | Some w \<Rightarrow> strip_prefixes ws (drop (length w) s))"
  by pat_completeness auto
termination
proof (relation "measure (\<lambda>(ws, s). length s)")
  fix ws s w
  assume "find (\<lambda>w. w \<noteq> [] \<and> prefix w s) ws = Some w"
  then have "w \<noteq> [] \<and> prefix w s" by (auto simp: find_Some_iff)
  then show "((ws, drop (length w) s), ws, s) \<in> measure (\<lambda>(ws, s). length s)"
    by (cases s) auto
qed simp

declare strip_prefixes.simps [simp del]

text \<open>\<open>strings.TrimSpace\<close>.\<close>

definition trim_space :: "string \<Rightarrow> string" where
  "trim_space s =
     rev (strip_prefixes (map rev space_seqs) (rev (strip_prefixes space_seqs s)))"

lemma strip_prefixes_clean: "w \<in> set ws \<Longrightarrow> w \<noteq> [] \<Longrightarrow> \<not> prefix w (strip_prefixes ws s)"
proof (induction ws s rule: strip_prefixes.induct)
  case (1 ws s)
  show ?case
  proof (cases "find (\<lambda>w. w \<noteq> [] \<and> prefix w s) ws")
    case None
    then have "strip_prefixes ws s = s" by (simp add: strip_prefixes.simps [of ws s])
    with None "1.prems" show ?thesis by (auto simp: find_None_iff)
  next
    case (Some v)
    with "1" show ?thesis by (simp add: strip_prefixes.simps [of ws s])
  qed
qed

lemma strip_prefixes_suffix: "suffix (strip_prefixes ws s) s"
proof (induction ws s rule: strip_prefixes.induct)
  case (1 ws s)
  show ?case
  proof (cases "find (\<lambda>w. w \<noteq> [] \<and> prefix w s) ws")
    case (Some v)
    with "1" have "suffix (strip_prefixes ws (drop (length v) s)) (drop (length v) s)" by simp
    then have "suffix (strip_prefixes ws (drop (length v) s)) s"
      using suffix_drop suffix_order.trans by blast
    with Some show ?thesis by (simp add: strip_prefixes.simps [of ws s])
  qed (simp add: strip_prefixes.simps [of ws s])
qed

lemma strip_prefixes_id: "\<forall>w \<in> set ws. w \<noteq> [] \<longrightarrow> \<not> prefix w s \<Longrightarrow> strip_prefixes ws s = s"
proof -
  assume *: "\<forall>w \<in> set ws. w \<noteq> [] \<longrightarrow> \<not> prefix w s"
  then have "find (\<lambda>w. w \<noteq> [] \<and> prefix w s) ws = None" by (auto simp: find_None_iff)
  then show ?thesis by (simp add: strip_prefixes.simps [of ws s])
qed

lemma trim_space_no_prefix: "w \<in> set space_seqs \<Longrightarrow> w \<noteq> [] \<Longrightarrow> \<not> prefix w (trim_space s)"
proof
  assume w: "w \<in> set space_seqs" "w \<noteq> []" and p: "prefix w (trim_space s)"
  have "suffix (strip_prefixes (map rev space_seqs) (rev (strip_prefixes space_seqs s)))
          (rev (strip_prefixes space_seqs s))"
    by (rule strip_prefixes_suffix)
  then have "prefix (trim_space s) (strip_prefixes space_seqs s)"
    by (simp add: trim_space_def suffix_to_prefix)
  with p have "prefix w (strip_prefixes space_seqs s)" by (rule prefix_order.trans)
  with strip_prefixes_clean [OF w] show False by simp
qed

lemma trim_space_no_suffix: "w \<in> set space_seqs \<Longrightarrow> w \<noteq> [] \<Longrightarrow> \<not> suffix w (trim_space s)"
  using strip_prefixes_clean [of "rev w" "map rev space_seqs"]
  by (simp add: trim_space_def suffix_to_prefix)

lemma trim_space_idem [simp]: "trim_space (trim_space s) = trim_space s"
proof -
  have 1: "strip_prefixes space_seqs (trim_space s) = trim_space s"
    by (rule strip_prefixes_id) (simp add: trim_space_no_prefix)
  have 2: "strip_prefixes (map rev space_seqs) (rev (trim_space s)) = rev (trim_space s)"
    by (rule strip_prefixes_id) (auto simp: trim_space_no_suffix suffix_to_prefix [symmetric])
  show ?thesis by (simp add: trim_space_def [of "trim_space s"] 1 2)
qed

section \<open>Numbers as text\<close>

definition digit_char :: "nat \<Rightarrow> char" where
  "digit_char d = ''0123456789'' ! d"

fun itoa_nat :: "nat \<Rightarrow> string" where
  "itoa_nat n = (if n < 10 then [digit_char n] else itoa_nat (n div 10) @ [digit_char (n mod 10)])"

declare itoa_nat.simps [simp del]

text \<open>\<open>strconv.Itoa\<close> and \<open>%d\<close>.\<close>

definition itoa :: "int \<Rightarrow> string" where
  "itoa n = (if n < 0 then CHR ''-'' # itoa_nat (nat (- n)) else itoa_nat (nat n))"

text \<open>\<open>%0wd\<close> of a non-negative number.\<close>

definition pad0 :: "nat \<Rightarrow> string \<Rightarrow> string" where
  "pad0 w s = replicate (w - length s) CHR ''0'' @ s"

definition digit_val :: "char \<Rightarrow> nat" where
  "digit_val c = ord c - 48"

definition dec_val :: "string \<Rightarrow> nat" where
  "dec_val s = foldl (\<lambda>n c. 10 * n + digit_val c) 0 s"

definition all_digits :: "string \<Rightarrow> bool" where
  "all_digits s \<longleftrightarrow> s \<noteq> [] \<and> list_all is_digit s"

text \<open>
  \<open>strconv.Atoi\<close>: an optional sign and decimal digits; \<open>None\<close> is a syntax or range
  error (the value does not fit \<open>int64\<close>).
\<close>

definition atoi :: "string \<Rightarrow> int option" where
  "atoi s =
     (let neg = prefix ''-'' s;
          ds = (if prefix ''-'' s \<or> prefix ''+'' s then drop 1 s else s);
          v = (if neg then - int (dec_val ds) else int (dec_val ds))
      in if all_digits ds \<and> is_i64 v then Some v else None)"

text \<open>\<open>strconv.ParseBool\<close>.\<close>

definition parse_bool :: "string \<Rightarrow> bool option" where
  "parse_bool s =
     (if s \<in> set [''1'', ''t'', ''T'', ''TRUE'', ''true'', ''True''] then Some True
      else if s \<in> set [''0'', ''f'', ''F'', ''FALSE'', ''false'', ''False''] then Some False
      else None)"

lemma ord_digit_char [simp]: "d < 10 \<Longrightarrow> ord (digit_char d) = 48 + d"
proof -
  assume "d < 10"
  then have "d \<in> set [0, 1, 2, 3, 4, 5, 6, 7, 8, 9]" by (simp; presburger)
  then show ?thesis by (auto simp: ord_def digit_char_def)
qed

lemma ord_inject [simp]: "ord a = ord b \<longleftrightarrow> a = b"
  by (simp add: ord_def)

lemma is_digit_digit_char [simp]: "d < 10 \<Longrightarrow> is_digit (digit_char d)"
  by (simp add: is_digit_def)

lemma digit_val_digit_char [simp]: "d < 10 \<Longrightarrow> digit_val (digit_char d) = d"
  by (simp add: digit_val_def)

lemma digit_char_digit_val: "is_digit c \<Longrightarrow> digit_char (digit_val c) = c"
proof -
  assume "is_digit c"
  then have "digit_val c < 10" "48 + digit_val c = ord c" by (auto simp: is_digit_def digit_val_def)
  then have "ord (digit_char (digit_val c)) = ord c" by simp
  then show ?thesis by simp
qed

lemma itoa_nat_neq_Nil [simp]: "itoa_nat n \<noteq> []"
  by (subst itoa_nat.simps) simp

lemma itoa_nat_digits: "list_all is_digit (itoa_nat n)"
proof (induction n rule: itoa_nat.induct)
  case (1 n)
  then show ?case by (subst itoa_nat.simps) simp
qed

lemma dec_val_append: "dec_val (xs @ ys) = dec_val xs * 10 ^ length ys + dec_val ys"
proof (induction ys rule: rev_induct)
  case (snoc y ys)
  have "dec_val ((xs @ ys) @ [y]) = 10 * dec_val (xs @ ys) + digit_val y"
    by (simp add: dec_val_def)
  moreover have "dec_val (ys @ [y]) = 10 * dec_val ys + digit_val y" by (simp add: dec_val_def)
  ultimately show ?case using snoc by simp
qed (simp add: dec_val_def)

lemma dec_val_snoc: "dec_val (xs @ [x]) = 10 * dec_val xs + digit_val x"
  by (simp add: dec_val_def)

lemma dec_val_itoa_nat [simp]: "dec_val (itoa_nat n) = n"
proof (induction n rule: itoa_nat.induct)
  case (1 n)
  show ?case
  proof (cases "n < 10")
    case True
    then show ?thesis by (simp add: itoa_nat.simps [of n] dec_val_def)
  next
    case False
    with 1 have "dec_val (itoa_nat (n div 10)) = n div 10" by simp
    with False show ?thesis
      by (simp add: itoa_nat.simps [of n] dec_val_snoc)
  qed
qed

lemma dec_val_pad0 [simp]: "dec_val (pad0 w s) = dec_val s"
proof -
  have "dec_val (replicate k CHR ''0'') = 0" for k
  proof (induction k)
    case (Suc k)
    have "dec_val (replicate (Suc k) CHR ''0'') = dec_val (replicate k CHR ''0'' @ [CHR ''0''])"
      by (simp add: replicate_append_same)
    with Suc show ?case by (simp only: dec_val_snoc) (simp add: digit_val_def ord_def)
  qed (simp add: dec_val_def)
  then show ?thesis by (simp add: pad0_def dec_val_append)
qed

lemma pad0_digits: "list_all is_digit s \<Longrightarrow> list_all is_digit (pad0 w s)"
  by (auto simp: pad0_def list_all_iff is_digit_def ord_def)

lemma length_itoa_nat: "0 < w \<Longrightarrow> n < 10 ^ w \<Longrightarrow> length (itoa_nat n) \<le> w"
proof (induction n arbitrary: w rule: itoa_nat.induct)
  case (1 n)
  show ?case
  proof (cases "n < 10")
    case True
    with "1.prems" show ?thesis by (simp add: itoa_nat.simps [of n])
  next
    case False
    from "1.prems" obtain v where v: "w = Suc v" by (cases w) auto
    with False "1.prems" have v0: "0 < v" by (cases v) auto
    with v "1.prems" have "n div 10 < 10 ^ v" by (simp add: less_mult_imp_div_less mult.commute)
    with "1.IH" [of v] v v0 False show ?thesis by (simp add: itoa_nat.simps [of n])
  qed
qed

lemma length_pad0: "0 < w \<Longrightarrow> n < 10 ^ w \<Longrightarrow> length (pad0 w (itoa_nat n)) = w"
  using length_itoa_nat [of w n] by (simp add: pad0_def)

lemma itoa_nat_inject [simp]: "itoa_nat m = itoa_nat n \<longleftrightarrow> m = n"
  by (metis dec_val_itoa_nat)

lemma atoi_itoa: "is_i64 n \<Longrightarrow> atoi (itoa n) = Some n"
proof -
  assume n: "is_i64 n"
  have hd: "\<not> prefix ''-'' (itoa_nat m)" "\<not> prefix ''+'' (itoa_nat m)" for m
    using itoa_nat_digits [of m] by (auto simp: prefix_def is_digit_def ord_def)
  show ?thesis
    using n by (auto simp: atoi_def itoa_def Let_def all_digits_def itoa_nat_digits hd)
qed

section \<open>Quoted strings\<close>

definition hex_digit :: "nat \<Rightarrow> char" where
  "hex_digit d = ''0123456789abcdef'' ! d"

text \<open>
  \<open>strconv.Quote\<close> and \<open>%q\<close>; bytes of well-formed non-ASCII characters are kept.
\<close>

definition quote_char :: "char \<Rightarrow> string" where
  "quote_char c =
     (if c = CHR 0x22 then [CHR 0x5C, CHR 0x22]
      else if c = CHR 0x5C then [CHR 0x5C, CHR 0x5C]
      else if c = CHR 0x07 then [CHR 0x5C, CHR ''a'']
      else if c = CHR 0x08 then [CHR 0x5C, CHR ''b'']
      else if c = CHR 0x0C then [CHR 0x5C, CHR ''f'']
      else if c = CHR 0x0A then [CHR 0x5C, CHR ''n'']
      else if c = CHR 0x0D then [CHR 0x5C, CHR ''r'']
      else if c = CHR 0x09 then [CHR 0x5C, CHR ''t'']
      else if c = CHR 0x0B then [CHR 0x5C, CHR ''v'']
      else if ord c < 32 \<or> ord c = 127
           then [CHR 0x5C, CHR ''x'', hex_digit (ord c div 16), hex_digit (ord c mod 16)]
      else [c])"

definition quote :: "string \<Rightarrow> string" where
  "quote s = [CHR 0x22] @ concat (map quote_char s) @ [CHR 0x22]"

section \<open>Slash-separated paths\<close>

text \<open>
  \<open>path.Clean\<close> and \<open>filepath.Clean\<close> on a Unix host: empty and \<open>.\<close> elements go,
  \<open>..\<close> removes the element before it, or is kept at the start of a relative path and
  dropped at the start of a rooted one.  The stack holds the elements kept so far,
  last one first.
\<close>

definition clean_step :: "bool \<Rightarrow> string \<Rightarrow> string list \<Rightarrow> string list" where
  "clean_step rooted c st =
     (if c = [] \<or> c = ''.'' then st
      else if c = ''..'' then
        (case st of
           [] \<Rightarrow> if rooted then [] else [''..'']
         | t # ts \<Rightarrow> if t = ''..'' then ''..'' # st else ts)
      else c # st)"

definition path_clean :: "string \<Rightarrow> string" where
  "path_clean s =
     (let rooted = prefix ''/'' s;
          cs = rev (fold (clean_step rooted) (split_on CHR ''/'' s) [])
      in if rooted then ''/'' @ join ''/'' cs
         else if cs = [] then ''.'' else join ''/'' cs)"

text \<open>\<open>path.Join\<close> and \<open>filepath.Join\<close>.\<close>

definition path_join :: "string list \<Rightarrow> string" where
  "path_join ps =
     (case filter (\<lambda>p. p \<noteq> []) ps of [] \<Rightarrow> [] | q # qs \<Rightarrow> path_clean (join ''/'' (q # qs)))"

text \<open>An element that \<open>path.Clean\<close> leaves alone.\<close>

definition plain_elem :: "string \<Rightarrow> bool" where
  "plain_elem s \<longleftrightarrow> s \<noteq> [] \<and> s \<noteq> ''.'' \<and> s \<noteq> ''..'' \<and> CHR ''/'' \<notin> set s"

lemma fold_clean_plain:
  "\<forall>p \<in> set ps. plain_elem p \<Longrightarrow> fold (clean_step r) ps st = rev ps @ st"
  by (induction ps arbitrary: st) (auto simp: clean_step_def plain_elem_def)

lemma prefix_slash_join:
  "ps \<noteq> [] \<Longrightarrow> \<forall>p \<in> set ps. plain_elem p \<Longrightarrow> \<not> prefix ''/'' (join ''/'' ps)"
  by (cases ps; cases "tl ps"; cases "hd ps") (auto simp: plain_elem_def)

lemma path_clean_plain:
  assumes "ps \<noteq> []" "\<forall>p \<in> set ps. plain_elem p"
  shows "path_clean (join ''/'' ps) = join ''/'' ps"
proof -
  have "split_on CHR ''/'' (join [CHR ''/''] ps) = ps"
    by (rule split_on_join) (use assms in \<open>auto simp: plain_elem_def\<close>)
  with assms show ?thesis
    by (simp add: path_clean_def prefix_slash_join fold_clean_plain Let_def)
qed

lemma path_join_plain:
  assumes "ps \<noteq> []" "\<forall>p \<in> set ps. plain_elem p"
  shows "path_join ps = join ''/'' ps"
proof -
  have "filter (\<lambda>p. p \<noteq> []) ps = ps"
    by (rule filter_True) (use assms in \<open>auto simp: plain_elem_def\<close>)
  then show ?thesis
    using path_clean_plain [OF assms] assms(1) by (cases ps) (simp_all add: path_join_def)
qed

end
