(* ===== verification/GoTime.thy ===== *)
theory GoTime
  imports GoStrings "HOL-Library.List_Lexorder" "HOL-Library.Char_ord"
begin

text \<open>
  The part of Go's \<open>time\<close> package the modelled code uses: calendar times in UTC,
  instants and durations in nanoseconds, \<open>Time.Sub\<close> with its saturation,
  \<open>Format\<close> with the three fixed layouts of the repository and \<open>time.Parse\<close> with
  \<open>time.RFC3339\<close>.  Strings are ordered as Go orders them, byte by byte.
\<close>

section \<open>Calendar times\<close>

record civil =
  year :: nat
  month :: nat
  day :: nat
  hour :: nat
  minute :: nat
  second :: nat
  nanos :: nat

definition leap_year :: "nat \<Rightarrow> bool" where
  "leap_year y \<longleftrightarrow> y mod 4 = 0 \<and> (y mod 100 \<noteq> 0 \<or> y mod 400 = 0)"

definition days_in :: "nat \<Rightarrow> nat \<Rightarrow> nat" where
  "days_in m y =
     (if m = 2 then if leap_year y then 29 else 28
      else if m \<in> {4, 6, 9, 11} then 30 else 31)"

definition valid_civil :: "civil \<Rightarrow> bool" where
  "valid_civil c \<longleftrightarrow>
     year c < 10000 \<and> 1 \<le> month c \<and> month c \<le> 12 \<and>
     1 \<le> day c \<and> day c \<le> days_in (month c) (year c) \<and>
     hour c < 24 \<and> minute c < 60 \<and> second c < 60 \<and> nanos c < 10 ^ 9"

lemma days_in_le: "days_in m y \<le> 31"
  by (simp add: days_in_def)

text \<open>Days since 1970-01-01 in the proleptic Gregorian calendar.\<close>

definition days_from_civil :: "nat \<Rightarrow> nat \<Rightarrow> nat \<Rightarrow> int" where
  "days_from_civil y m d =
     (let y' = int y - (if m \<le> 2 then 1 else 0);
          yoe = y' mod 400;
          mp = (int m + 9) mod 12;
          doy = (153 * mp + 2) div 5 + int d - 1;
          doe = yoe * 365 + yoe div 4 - yoe div 100 + doy
      in (y' div 400) * 146097 + doe - 719468)"

type_synonym instant = int \<comment> \<open>nanoseconds since the Unix epoch\<close>
type_synonym duration = int \<comment> \<open>a \<open>time.Duration\<close>: nanoseconds in an \<open>int64\<close>\<close>

definition second_ns :: int where "second_ns = 1000000000"

definition millisecond_ns :: int where "millisecond_ns = 1000000"

definition minute_ns :: int where "minute_ns = 60 * second_ns"

definition hour_ns :: int where "hour_ns = 60 * minute_ns"

lemmas duration_units = second_ns_def millisecond_ns_def minute_ns_def hour_ns_def

definition instant_of :: "civil \<Rightarrow> instant" where
  "instant_of c =
     ((days_from_civil (year c) (month c) (day c) * 86400 +
       int (hour c) * 3600 + int (minute c) * 60 + int (second c)) * second_ns + int (nanos c))"

text \<open>\<open>t.Sub(u)\<close>: the difference, or the nearest \<open>int64\<close> where it does not fit.\<close>

definition time_sub :: "instant \<Rightarrow> instant \<Rightarrow> duration" where
  "time_sub t u = max (- (2 ^ 63)) (min (2 ^ 63 - 1) (t - u))"

lemma time_sub_le_iff: "d < 2 ^ 63 - 1 \<Longrightarrow> - (2 ^ 63) \<le> d \<Longrightarrow> time_sub t u \<le> d \<longleftrightarrow> t - u \<le> d"
  by (auto simp: time_sub_def)

section \<open>Formatting\<close>

definition fmt_year :: "civil \<Rightarrow> string" where
  "fmt_year c = pad0 4 (itoa_nat (year c))"

definition two :: "nat \<Rightarrow> string" where
  "two n = pad0 2 (itoa_nat n)"

text \<open>\<open>t.Format("2006-01-02")\<close>.\<close>

definition format_date :: "civil \<Rightarrow> string" where
  "format_date c = fmt_year c @ ''-'' @ two (month c) @ ''-'' @ two (day c)"

lemma length_two [simp]: "n < 100 \<Longrightarrow> length (two n) = 2"
  unfolding two_def by (rule length_pad0) auto

lemma dec_val_two [simp]: "dec_val (two n) = n"
  by (simp add: two_def)

lemma digits_two [simp]: "list_all is_digit (two n)"
  by (simp add: two_def pad0_digits itoa_nat_digits)

lemma length_fmt_year [simp]: "year c < 10000 \<Longrightarrow> length (fmt_year c) = 4"
  unfolding fmt_year_def by (rule length_pad0) auto

lemma dec_val_fmt_year [simp]: "dec_val (fmt_year c) = year c"
  by (simp add: fmt_year_def)

lemma digits_fmt_year [simp]: "list_all is_digit (fmt_year c)"
  by (simp add: fmt_year_def pad0_digits itoa_nat_digits)

section \<open>Parsing\<close>

text \<open>\<open>k\<close> digits exactly, and the literal text of a layout.\<close>

definition scan_digits :: "nat \<Rightarrow> string \<Rightarrow> (nat \<times> string) option" where
  "scan_digits k s =
     (if k \<le> length s \<and> list_all is_digit (take k s) then Some (dec_val (take k s), drop k s)
      else None)"

definition scan_lit :: "string \<Rightarrow> string \<Rightarrow> string option" where
  "scan_lit p s = (if prefix p s then Some (drop (length p) s) else None)"

lemma scan_digits_append [simp]:
  "list_all is_digit ds \<Longrightarrow> length ds = k \<Longrightarrow> scan_digits k (ds @ s) = Some (dec_val ds, s)"
  by (simp add: scan_digits_def)

lemma scan_lit_append [simp]: "scan_lit p (p @ s) = Some s"
  by (simp add: scan_lit_def)

lemma scan_lit_Cons [simp]: "scan_lit [c] (c # s) = Some s"
  by (simp add: scan_lit_def)

lemma scan_lit_Nil [simp]: "scan_lit (c # p) [] = None"
  by (simp add: scan_lit_def)

text \<open>The hour of a layout may have one digit: \<open>getnum(value, false)\<close>.\<close>

definition scan_hour :: "string \<Rightarrow> (nat \<times> string) option" where
  "scan_hour s =
     (case scan_digits 2 s of Some r \<Rightarrow> Some r | None \<Rightarrow> scan_digits 1 s)"

text \<open>An optional fraction of a second: at most nine digits count.\<close>

definition scan_fraction :: "string \<Rightarrow> nat \<times> string" where
  "scan_fraction s =
     (case s of
        [] \<Rightarrow> (0, [])
      | c # r \<Rightarrow>
          let ds = takeWhile is_digit r; k = min 9 (length ds)
          in if (c = CHR ''.'' \<or> c = CHR '','') \<and> ds \<noteq> []
             then (dec_val (take k ds) * 10 ^ (9 - k), drop (length ds) r)
             else (0, s))"

text \<open>The zone: \<open>Z\<close>, or a sign with hours and minutes; the offset in seconds.\<close>

definition scan_zone :: "string \<Rightarrow> (int \<times> string) option" where
  "scan_zone s =
     (case s of
        [] \<Rightarrow> None
      | c # r \<Rightarrow>
          if c = CHR ''Z'' then Some (0, r)
          else case scan_digits 2 r of
              None \<Rightarrow> None
            | Some (h, r1) \<Rightarrow>
                case scan_lit '':'' r1 of
                  None \<Rightarrow> None
                | Some r2 \<Rightarrow>
                    case scan_digits 2 r2 of
                      None \<Rightarrow> None
                    | Some (m, r3) \<Rightarrow>
                        if 24 < h \<or> 60 < m then None
                        else if c = CHR ''+'' then Some (int ((h * 60 + m) * 60), r3)
                        else if c = CHR ''-'' then Some (- int ((h * 60 + m) * 60), r3)
                        else None)"

text \<open>\<open>"2006-01-02"\<close>, the part of a layout both formats of the repository share.\<close>

definition scan_ymd :: "string \<Rightarrow> string \<Rightarrow> ((nat \<times> nat \<times> nat) \<times> string) option" where
  "scan_ymd sep s =
     (case scan_digits 4 s of None \<Rightarrow> None | Some (y, s1) \<Rightarrow>
      case scan_lit sep s1 of None \<Rightarrow> None | Some s2 \<Rightarrow>
      case scan_digits 2 s2 of None \<Rightarrow> None | Some (m, s3) \<Rightarrow>
      case scan_lit sep s3 of None \<Rightarrow> None | Some s4 \<Rightarrow>
      case scan_digits 2 s4 of None \<Rightarrow> None | Some (d, s5) \<Rightarrow>
        if 1 \<le> m \<and> m \<le> 12 \<and> 1 \<le> d \<and> d \<le> days_in m y then Some ((y, m, d), s5) else None)"

text \<open>\<open>time.Parse(time.RFC3339, s)\<close>; \<open>None\<close> is any parse error.\<close>

definition parse_rfc3339 :: "string \<Rightarrow> instant option" where
  "parse_rfc3339 s =
     (case scan_ymd ''-'' s of None \<Rightarrow> None | Some ((y, m, d), s1) \<Rightarrow>
      case scan_lit ''T'' s1 of None \<Rightarrow> None | Some s2 \<Rightarrow>
      case scan_hour s2 of None \<Rightarrow> None | Some (h, s3) \<Rightarrow>
      case scan_lit '':'' s3 of None \<Rightarrow> None | Some s4 \<Rightarrow>
      case scan_digits 2 s4 of None \<Rightarrow> None | Some (mi, s5) \<Rightarrow>
      case scan_lit '':'' s5 of None \<Rightarrow> None | Some s6 \<Rightarrow>
      case scan_digits 2 s6 of None \<Rightarrow> None | Some (sec, s7) \<Rightarrow>
      case scan_fraction s7 of (ns, s8) \<Rightarrow>
      case scan_zone s8 of None \<Rightarrow> None | Some (off, s9) \<Rightarrow>
        if h < 24 \<and> mi < 60 \<and> sec < 60 \<and> s9 = [] then
          Some (instant_of \<lparr>year = y, month = m, day = d, hour = h, minute = mi,
                            second = sec, nanos = ns\<rparr> - off * second_ns)
        else None)"

lemma scan_ymd_format:
  assumes "valid_civil c"
  shows "scan_ymd [sep] (fmt_year c @ [sep] @ two (month c) @ [sep] @ two (day c) @ s) =
           Some ((year c, month c, day c), s)"
proof -
  have "month c < 100" "day c < 100" "year c < 10000"
    using assms days_in_le [of "month c" "year c"] by (auto simp: valid_civil_def)
  with assms show ?thesis by (simp add: scan_ymd_def valid_civil_def)
qed

text \<open>A date without a time of day is not an RFC 3339 time.\<close>

lemma parse_rfc3339_date: "valid_civil c \<Longrightarrow> parse_rfc3339 (format_date c) = None"
  using scan_ymd_format [of c "CHR ''-''" "[]"]
  by (simp add: parse_rfc3339_def format_date_def)

section \<open>Fixed-width numbers in byte order\<close>

lemma char_less_ord: "c < d \<longleftrightarrow> ord c < ord d"
  by (simp add: less_char_def ord_def)

lemma digits_less_iff:
  "length xs = length ys \<Longrightarrow> list_all is_digit xs \<Longrightarrow> list_all is_digit ys \<Longrightarrow>
     xs < ys \<longleftrightarrow> dec_val xs < dec_val ys"
proof (induction xs ys rule: list_induct2)
  case (Cons x xs y ys)
  have bound: "list_all is_digit zs \<Longrightarrow> dec_val zs < 10 ^ length zs" for zs
  proof (induction zs rule: rev_induct)
    case (snoc z zs)
    then have "digit_val z < 10" "dec_val zs < 10 ^ length zs"
      by (auto simp: is_digit_def digit_val_def)
    then show ?case by (simp add: dec_val_snoc)
  qed (simp add: dec_val_def)
  have hd: "dec_val (z # zs) = digit_val z * 10 ^ length zs + dec_val zs" for z zs
    using dec_val_append [of "[z]" zs] by (simp add: dec_val_def)
  have b: "dec_val xs < 10 ^ length xs" "dec_val ys < 10 ^ length xs"
    using bound [of xs] bound [of ys] Cons by auto
  have dx: "digit_val x = ord x - 48" "48 \<le> ord x" "digit_val y = ord y - 48" "48 \<le> ord y"
    using Cons.prems by (auto simp: digit_val_def is_digit_def)
  show ?case
  proof (cases "ord x" "ord y" rule: linorder_cases)
    case less
    then have "digit_val x + 1 \<le> digit_val y" using dx by simp
    then have "(digit_val x + 1) * 10 ^ length xs \<le> digit_val y * 10 ^ length xs"
      by (rule mult_right_mono) simp
    with b Cons.hyps less show ?thesis by (auto simp: hd char_less_ord algebra_simps)
  next
    case equal
    then show ?thesis using Cons by (simp add: hd char_less_ord)
  next
    case greater
    then have "digit_val y + 1 \<le> digit_val x" using dx by simp
    then have "(digit_val y + 1) * 10 ^ length xs \<le> digit_val x * 10 ^ length xs"
      by (rule mult_right_mono) simp
    with b Cons.hyps greater show ?thesis by (auto simp: hd char_less_ord algebra_simps)
  qed
qed (simp add: dec_val_def)

lemma append_less_iff:
  "length xs = length ys \<Longrightarrow> (xs :: string) @ us < ys @ vs \<longleftrightarrow> xs < ys \<or> xs = ys \<and> us < vs"
  by (induction xs ys rule: list_induct2) auto

lemma two_less_iff: "m < 100 \<Longrightarrow> n < 100 \<Longrightarrow> two m < two n \<longleftrightarrow> m < n"
  by (subst digits_less_iff) auto

lemma two_inject [simp]: "two m = two n \<longleftrightarrow> m = n"
  by (metis dec_val_two)

end
