(* ===== verification/RepoRef.thy ===== *)
theory RepoRef
  imports GoTime Complex_Main
begin

text \<open>
  \<open>internal/model\<close>: repository references and commit hashes as parsed from a request
  (\<open>ref.go\<close>), the introspected part of a Scorecard JSON2 result (\<open>result.go\<close>) and
  the provenance that accompanies a served result (\<open>provenance.go\<close>).
\<close>

section \<open>Repository references\<close>

definition HostGitHub :: string where "HostGitHub = ''github.com''"
definition HostGitLab :: string where "HostGitLab = ''gitlab.com''"
definition DefaultHost :: string where "DefaultHost = HostGitHub"

lemmas host_defs = HostGitHub_def HostGitLab_def DefaultHost_def

definition errUnsupportedHost :: err where
  "errUnsupportedHost = Sentinel ''model: unsupported host''"

definition errInvalidSegment :: err where
  "errInvalidSegment = Sentinel ''model: invalid path segment''"

definition errInvalidCommit :: err where
  "errInvalidCommit = Sentinel ''model: commit must be a 40-character hex SHA''"

record repo_ref =
  rf_host :: string
  rf_org :: string
  rf_repo :: string

text \<open>
  \<open>validateSegment\<close>; \<open>None\<close> is a nil error.  The control-character test of the
  source is on runes; every byte of a multi-byte rune is at least 0x80, so the test
  on bytes has the same outcome.
\<close>

definition validate_segment :: "string \<Rightarrow> string \<Rightarrow> err option" where
  "validate_segment kind s =
     (if s = [] then
        Some (errorf [W errInvalidSegment, L '': '', L kind, L '' is empty''])
      else if s = ''.'' \<or> s = ''..'' then
        Some (errorf [W errInvalidSegment, L '': '', L kind, L '' must not be '', L (quote s)])
      else if list_ex (\<lambda>c. c \<in> set [CHR ''/'', CHR 0x5C]) s then
        Some (errorf [W errInvalidSegment, L '': '', L kind, L '' must not contain a path separator''])
      else if list_ex (\<lambda>r. ord r < 0x20 \<or> ord r = 0x7f) s then
        Some (errorf [W errInvalidSegment, L '': '', L kind, L '' must not contain control characters''])
      else None)"

definition parse_repo_ref :: "string \<Rightarrow> string \<Rightarrow> string \<Rightarrow> repo_ref res" where
  "parse_repo_ref hst org repo =
     (let host1 = (if hst = [] then DefaultHost else hst);
          host2 = to_lower host1
      in if host2 \<noteq> HostGitHub \<and> host2 \<noteq> HostGitLab then
           Inl (errorf [W errUnsupportedHost, L '': '', L (quote host2), L '' (supported: '',
                        L HostGitHub, L '', '', L HostGitLab, L '')''])
         else case validate_segment ''org'' org of
             Some e \<Rightarrow> Inl e
           | None \<Rightarrow>
               (case validate_segment ''repo'' repo of
                  Some e \<Rightarrow> Inl e
                | None \<Rightarrow> Inr \<lparr>rf_host = host2, rf_org = org, rf_repo = repo\<rparr>))"

definition ref_name :: "repo_ref \<Rightarrow> string" where
  "ref_name r = rf_host r @ ''/'' @ rf_org r @ ''/'' @ rf_repo r"

definition commit_re :: "string \<Rightarrow> bool" where
  "commit_re s \<longleftrightarrow> length s = 40 \<and> list_all is_hex s"

definition parse_commit :: "string \<Rightarrow> string res" where
  "parse_commit sha =
     (if sha = [] then Inr []
      else if \<not> commit_re sha then Inl (errorf [W errInvalidCommit, L '': got '', L (quote sha)])
      else Inr (to_lower sha))"

section \<open>What the parsers accept\<close>

definition safe_segment :: "string \<Rightarrow> bool" where
  "safe_segment s \<longleftrightarrow>
     plain_elem s \<and> CHR 0x5C \<notin> set s \<and> (\<forall>c \<in> set s. 0x20 \<le> ord c \<and> ord c \<noteq> 0x7f)"

text \<open>A reference as \<open>ParseRepoRef\<close> returns it, and a commit as \<open>ParseCommit\<close> does.\<close>

definition valid_ref :: "repo_ref \<Rightarrow> bool" where
  "valid_ref r \<longleftrightarrow>
     rf_host r \<in> {HostGitHub, HostGitLab} \<and> safe_segment (rf_org r) \<and> safe_segment (rf_repo r)"

definition valid_commit :: "string \<Rightarrow> bool" where
  "valid_commit c \<longleftrightarrow>
     c = [] \<or> length c = 40 \<and> (\<forall>x \<in> set c. is_hex x \<and> \<not> is_upper x)"

lemma validate_segment_None: "validate_segment k s = None \<longleftrightarrow> safe_segment s"
proof -
  have "ord c < 32 \<longleftrightarrow> \<not> 32 \<le> ord c" for c by auto
  then show ?thesis
    by (auto simp: validate_segment_def safe_segment_def plain_elem_def list_ex_iff)
qed

lemma validate_segment_Some:
  "validate_segment k s = Some e \<Longrightarrow> errors_is ''model: invalid path segment'' e"
  by (auto simp: validate_segment_def errInvalidSegment_def split: if_splits)

lemma to_lower_host [simp]: "to_lower HostGitHub = HostGitHub" "to_lower HostGitLab = HostGitLab"
  by (simp_all add: host_defs lower_char_def is_upper_def ord_def)

lemma validate_segment_cases:
  obtains "safe_segment s" "validate_segment k s = None"
        | e where "\<not> safe_segment s" "validate_segment k s = Some e"
  using validate_segment_None [of k s] by (cases "validate_segment k s") auto

lemma parse_repo_ref_Inr:
  "parse_repo_ref h org repo = Inr r \<longleftrightarrow>
     valid_ref r \<and> rf_org r = org \<and> rf_repo r = repo \<and>
     rf_host r = to_lower (if h = [] then DefaultHost else h)"
  by (cases r; rule validate_segment_cases [of org "''org''"];
      rule validate_segment_cases [of repo "''repo''"])
     (auto simp: parse_repo_ref_def valid_ref_def Let_def)

lemma commit_re_ascii: "commit_re s \<Longrightarrow> list_all is_ascii s"
  by (auto simp: commit_re_def list_all_iff is_hex_ascii)

lemma parse_commit_Inr:
  "parse_commit s = Inr c \<longleftrightarrow> (s = [] \<and> c = []) \<or> (commit_re s \<and> c = map lower_char s)"
  using to_lower_ascii [OF commit_re_ascii, of s]
  by (auto simp: parse_commit_def commit_re_def)

lemma parse_commit_valid: "parse_commit s = Inr c \<Longrightarrow> valid_commit c"
  by (auto simp: parse_commit_Inr valid_commit_def commit_re_def list_all_iff)

lemma lower_char_id: "\<not> is_upper c \<Longrightarrow> lower_char c = c"
  by (simp add: lower_char_def)

lemma parse_commit_valid_id: "valid_commit c \<Longrightarrow> parse_commit c = Inr c"
  by (auto simp: parse_commit_Inr valid_commit_def commit_re_def list_all_iff
      intro!: map_idI [symmetric] lower_char_id)

lemma host_plain: "plain_elem HostGitHub" "plain_elem HostGitLab"
  by (simp_all add: plain_elem_def host_defs)

lemma valid_ref_plain:
  "valid_ref r \<Longrightarrow> plain_elem (rf_host r) \<and> plain_elem (rf_org r) \<and> plain_elem (rf_repo r)"
  by (auto simp: valid_ref_def safe_segment_def host_plain)

lemma valid_commit_plain: "valid_commit c \<Longrightarrow> c \<noteq> [] \<Longrightarrow> plain_elem c"
proof -
  assume c: "valid_commit c" "c \<noteq> []"
  then have "length c = 40" "CHR ''/'' \<notin> set c"
    by (auto simp: valid_commit_def is_hex_def is_digit_def ord_def)
  then show ?thesis by (auto simp: plain_elem_def)
qed

text \<open>
  \<open>ParseRepoRef\<close> normalises: parsing the parts of a reference it returned gives
  that reference again, whatever the case of the host was, and an empty host is
  \<open>github.com\<close>.
\<close>

theorem parse_repo_ref_idem:
  assumes "parse_repo_ref h org repo = Inr r"
  shows "parse_repo_ref (rf_host r) (rf_org r) (rf_repo r) = Inr r"
proof -
  have "valid_ref r" using assms by (simp add: parse_repo_ref_Inr)
  then have "rf_host r \<noteq> []" "to_lower (rf_host r) = rf_host r"
    by (auto simp: valid_ref_def host_defs lower_char_def is_upper_def ord_def)
  with \<open>valid_ref r\<close> show ?thesis by (simp add: parse_repo_ref_Inr)
qed

theorem parse_repo_ref_idem_witness:
  "parse_repo_ref HostGitHub ''ossf'' ''scorecard'' =
     Inr \<lparr>rf_host = HostGitHub, rf_org = ''ossf'', rf_repo = ''scorecard''\<rparr>"
proof -
  have "parse_repo_ref ''GitHub.com'' ''ossf'' ''scorecard'' =
     Inr \<lparr>rf_host = HostGitHub, rf_org = ''ossf'', rf_repo = ''scorecard''\<rparr>"
    by code_simp
  from parse_repo_ref_idem [OF this] show ?thesis by simp
qed

section \<open>Results\<close>

record documentation =
  doc_url :: string
  doc_short :: string

record check =
  ck_details :: "string list"
  ck_score :: int
  ck_reason :: string
  ck_name :: string
  ck_documentation :: documentation
  ck_annotations :: "string list"

record repo_info =
  ri_name :: string
  ri_commit :: string

record scorecard_info =
  sc_version :: string
  sc_commit :: string

text \<open>\<open>Score\<close> is a \<open>float64\<close>; a finite one is a rational number.\<close>

record result =
  rs_date :: string
  rs_repo :: repo_info
  rs_scorecard :: scorecard_info
  rs_score :: rat
  rs_checks :: "check list"
  rs_metadata :: "string list"

text \<open>
  \<open>Parse\<close>.  The decoder \<open>json.Unmarshal\<close> into a \<open>Result\<close> is the parameter
  \<open>unmarshal\<close>.
\<close>

type_synonym unmarshal = "string \<Rightarrow> result res"

definition model_parse :: "unmarshal \<Rightarrow> string \<Rightarrow> result res" where
  "model_parse unmarshal data =
     (case unmarshal data of
        Inl e \<Rightarrow> Inl (errorf [L ''model: decoding JSON2 result: '', W e])
      | Inr r \<Rightarrow> Inr r)"

lemma model_parse_Inr [simp]: "model_parse u d = Inr r \<longleftrightarrow> u d = Inr r"
  by (auto simp: model_parse_def split: sum.splits)

section \<open>Provenance\<close>

datatype source = SourceCached | SourceLive | SourceUpstream

fun source_text :: "source \<Rightarrow> string" where
  "source_text SourceCached = ''cached''"
| "source_text SourceLive = ''live''"
| "source_text SourceUpstream = ''upstream''"

record provenance =
  pv_source :: source
  pv_commit :: string
  pv_date :: string
  pv_version :: string
  pv_complete :: bool

definition provenance_from :: "result \<Rightarrow> source \<Rightarrow> bool \<Rightarrow> provenance" where
  "provenance_from r src compl =
     \<lparr>pv_source = src, pv_commit = ri_commit (rs_repo r), pv_date = rs_date r,
      pv_version = sc_version (rs_scorecard r), pv_complete = compl\<rparr>"

end
