(* ===== verification/ResultStore.thy ===== *)
theory ResultStore
  imports RepoRef
begin

text \<open>
  \<open>internal/store/store.go\<close>: the result store over an object bucket.  The bucket of
  \<open>gocloud.dev/blob\<close> is a parameter: a record of its operations on an abstract
  bucket state, whose documented laws are the locale \<open>blob_api\<close>.
\<close>

section \<open>The bucket interface\<close>

record writer_options =
  wo_content_type :: string
  wo_metadata :: "string \<rightharpoonup> string"

record 'b blob =
  bl_read :: "'b \<Rightarrow> string \<Rightarrow> string res" \<comment> \<open>\<open>Bucket.ReadAll\<close>\<close>
  bl_attrs :: "'b \<Rightarrow> string \<Rightarrow> (string \<rightharpoonup> string) res" \<comment> \<open>\<open>Bucket.Attributes\<close>, its metadata\<close>
  bl_write :: "'b \<Rightarrow> string \<Rightarrow> string \<Rightarrow> writer_options \<Rightarrow> err option \<times> 'b" \<comment> \<open>\<open>Bucket.WriteAll\<close>\<close>
  bl_close :: "'b \<Rightarrow> err option"
  bl_not_found :: "err \<Rightarrow> bool" \<comment> \<open>\<open>gcerrors.Code(err) == gcerrors.NotFound\<close>\<close>

section \<open>Opening a store\<close>

definition resultsObject :: string where "resultsObject = ''results.json''"
definition contentTypeJSON :: string where "contentTypeJSON = ''application/json''"
definition metadataOrigin :: string where "metadataOrigin = ''origin''"

type_synonym origin = string

definition OriginLocal :: origin where "OriginLocal = ''local''"
definition OriginUpstream :: origin where "OriginUpstream = ''upstream''"

lemma origins_distinct [simp]:
  "OriginLocal \<noteq> OriginUpstream" "OriginUpstream \<noteq> OriginLocal"
  "OriginLocal \<noteq> []" "OriginUpstream \<noteq> []"
  by (simp_all add: OriginLocal_def OriginUpstream_def)

definition ErrNotFound :: err where "ErrNotFound = Sentinel ''store: result not found''"
definition errEmptyBucketURL :: err where "errEmptyBucketURL = Sentinel ''store: bucket URL is empty''"
definition errEmptyCommit :: err where "errEmptyCommit = Sentinel ''store: commit required''"

lemma errors_is_store [simp]:
  "errors_is t ErrNotFound \<longleftrightarrow> t = ''store: result not found''"
  "errors_is t errEmptyCommit \<longleftrightarrow> t = ''store: commit required''"
  by (auto simp: ErrNotFound_def errEmptyCommit_def)

text \<open>
  What \<open>defaultFileNoTempDir\<close> looks at in a \<open>net/url.URL\<close>: the scheme and the query
  parameters; \<open>'u\<close> is the rest.  \<open>url.Parse\<close> and \<open>URL.String\<close> are parameters.
\<close>

record 'u url =
  u_scheme :: string
  u_query :: "string \<rightharpoonup> string list"
  u_rest :: 'u

definition query_get :: "(string \<rightharpoonup> string list) \<Rightarrow> string \<Rightarrow> string" where
  "query_get q k = (case q k of Some (v # vs) \<Rightarrow> v | _ \<Rightarrow> [])"

definition default_file_no_temp_dir ::
  "(string \<Rightarrow> 'u url res) \<Rightarrow> ('u url \<Rightarrow> string) \<Rightarrow> string \<Rightarrow> string res" where
  "default_file_no_temp_dir url_parse url_string bucket_url =
     (case url_parse bucket_url of
        Inl e \<Rightarrow> Inl (errorf [L ''store: parsing bucket URL: '', W e])
      | Inr u \<Rightarrow>
          if u_scheme u \<noteq> ''file'' then Inr bucket_url
          else
            let q = u_query u;
                u' = (if query_get q ''no_tmp_dir'' = []
                      then u\<lparr>u_query := q(''no_tmp_dir'' \<mapsto> [''true''])\<rparr> else u)
            in Inr (url_string u'))"

definition store_open ::
  "(string \<Rightarrow> 'u url res) \<Rightarrow> ('u url \<Rightarrow> string) \<Rightarrow> (string \<Rightarrow> 'b res) \<Rightarrow> string \<Rightarrow> 'b res" where
  "store_open url_parse url_string open_bucket bucket_url =
     (if bucket_url = [] then Inl errEmptyBucketURL
      else case default_file_no_temp_dir url_parse url_string bucket_url of
          Inl e \<Rightarrow> Inl e
        | Inr bucket_url' \<Rightarrow>
            (case open_bucket bucket_url' of
               Inl e \<Rightarrow> Inl (errorf [L ''store: opening bucket: '', W e])
             | Inr bkt \<Rightarrow> Inr bkt))"

definition store_close :: "'b blob \<Rightarrow> 'b \<Rightarrow> err option" where
  "store_close B b = map_option (\<lambda>e. errorf [L ''store: closing bucket: '', W e]) (bl_close B b)"

section \<open>Reading and writing\<close>

definition key :: "repo_ref \<Rightarrow> string \<Rightarrow> string" where
  "key r commit =
     (if commit = [] then path_join [rf_host r, rf_org r, rf_repo r, resultsObject]
      else path_join [rf_host r, rf_org r, rf_repo r, commit, resultsObject])"

definition get_with_origin ::
  "'b blob \<Rightarrow> 'b \<Rightarrow> repo_ref \<Rightarrow> string \<Rightarrow> (string \<times> origin) res" where
  "get_with_origin B b r commit =
     (let k = key r commit
      in case bl_read B b k of
          Inl e \<Rightarrow>
            if bl_not_found B e then Inl ErrNotFound
            else Inl (errorf [L ''store: reading '', L (quote k), L '': '', W e])
        | Inr body \<Rightarrow>
            Inr (body,
              case bl_attrs B b k of
                Inl e \<Rightarrow> OriginLocal
              | Inr md \<Rightarrow>
                  (case md metadataOrigin of
                     Some v \<Rightarrow> if v \<noteq> [] then v else OriginLocal
                   | None \<Rightarrow> OriginLocal)))"

definition get :: "'b blob \<Rightarrow> 'b \<Rightarrow> repo_ref \<Rightarrow> string \<Rightarrow> string res" where
  "get B b r commit = map_sum id fst (get_with_origin B b r commit)"

definition store_write ::
  "'b blob \<Rightarrow> 'b \<Rightarrow> string \<Rightarrow> string \<Rightarrow> origin \<Rightarrow> err option \<times> 'b" where
  "store_write B b k body orig =
     (case bl_write B b k body
             \<lparr>wo_content_type = contentTypeJSON, wo_metadata = [metadataOrigin \<mapsto> orig]\<rparr> of
        (Some e, b') \<Rightarrow> (Some (errorf [L ''store: writing '', L (quote k), L '': '', W e]), b')
      | (None, b') \<Rightarrow> (None, b'))"

definition put_with_origin ::
  "'b blob \<Rightarrow> 'b \<Rightarrow> repo_ref \<Rightarrow> string \<Rightarrow> string \<Rightarrow> origin \<Rightarrow> err option \<times> 'b" where
  "put_with_origin B b r commit body orig = store_write B b (key r commit) body orig"

definition put :: "'b blob \<Rightarrow> 'b \<Rightarrow> repo_ref \<Rightarrow> string \<Rightarrow> string \<Rightarrow> err option \<times> 'b" where
  "put B b r commit body = put_with_origin B b r commit body OriginLocal"

definition put_latest_and_commit_with_origin ::
  "'b blob \<Rightarrow> 'b \<Rightarrow> repo_ref \<Rightarrow> string \<Rightarrow> string \<Rightarrow> origin \<Rightarrow> err option \<times> 'b" where
  "put_latest_and_commit_with_origin B b r commit body orig =
     (if commit = [] then (Some (errorf [W errEmptyCommit, L '': commit is empty'']), b)
      else case store_write B b (key r commit) body orig of
          (Some e, b1) \<Rightarrow> (Some e, b1)
        | (None, b1) \<Rightarrow> store_write B b1 (key r []) body orig)"

definition put_latest_and_commit ::
  "'b blob \<Rightarrow> 'b \<Rightarrow> repo_ref \<Rightarrow> string \<Rightarrow> string \<Rightarrow> err option \<times> 'b" where
  "put_latest_and_commit B b r commit body =
     put_latest_and_commit_with_origin B b r commit body OriginLocal"

section \<open>Keys\<close>

lemma results_object_plain [simp]: "plain_elem resultsObject"
  by (simp add: plain_elem_def resultsObject_def)

lemma key_join:
  assumes "valid_ref r" "valid_commit c"
  shows "key r c =
    join ''/'' ([rf_host r, rf_org r, rf_repo r] @ (if c = [] then [] else [c]) @ [resultsObject])"
proof -
  have "\<forall>p \<in> set ([rf_host r, rf_org r, rf_repo r] @ (if c = [] then [] else [c]) @ [resultsObject]).
          plain_elem p"
    using valid_ref_plain [OF assms(1)] valid_commit_plain [OF assms(2)] by auto
  from path_join_plain [OF _ this] show ?thesis by (auto simp: key_def)
qed

lemma key_inject:
  assumes "valid_ref r" "valid_commit c" "valid_ref r'" "valid_commit c'" "key r c = key r' c'"
  shows "r = r' \<and> c = c'"
proof -
  let ?ps = "\<lambda>r c. [rf_host r, rf_org r, rf_repo r] @ (if c = [] then [] else [c]) @ [resultsObject]"
  have no_slash: "\<forall>p \<in> set (?ps r c). CHR ''/'' \<notin> set p"
    if "valid_ref r" "valid_commit c" for r c
    using valid_ref_plain [OF that(1)] valid_commit_plain [OF that(2)] results_object_plain
    by (auto simp: plain_elem_def)
  have "?ps r c = ?ps r' c'"
    by (rule join_inject [OF _ _ no_slash no_slash]) (use assms in \<open>auto simp: key_join\<close>)
  then show ?thesis by (cases r; cases r') (auto split: if_splits)
qed

section \<open>The contract of the bucket, and what the store promises under it\<close>

locale blob_api =
  fixes B :: "'b blob"
  assumes read_written:
      "bl_write B b k body opts = (None, b') \<Longrightarrow> bl_read B b' k = Inr x \<Longrightarrow> x = body"
    and found_written:
      "bl_write B b k body opts = (None, b') \<Longrightarrow> bl_read B b' k = Inl e \<Longrightarrow> \<not> bl_not_found B e"
    and attrs_written:
      "bl_write B b k body opts = (None, b') \<Longrightarrow> bl_attrs B b' k = Inr md \<Longrightarrow> md = wo_metadata opts"
    and read_other:
      "bl_write B b k body opts = (er, b') \<Longrightarrow> k' \<noteq> k \<Longrightarrow> bl_read B b' k' = bl_read B b k'"
    and attrs_other:
      "bl_write B b k body opts = (er, b') \<Longrightarrow> k' \<noteq> k \<Longrightarrow> bl_attrs B b' k' = bl_attrs B b k'"
begin

lemma get_other:
  assumes "store_write B b k body orig = (e, b')" "key r c \<noteq> k"
  shows "get_with_origin B b' r c = get_with_origin B b r c"
proof -
  obtain opts er where "bl_write B b k body opts = (er, b')"
    using assms(1) by (auto simp: store_write_def split: prod.splits option.splits)
  note same = read_other [OF this assms(2)] attrs_other [OF this assms(2)]
  show ?thesis unfolding get_with_origin_def Let_def same ..
qed

lemma get_written:
  assumes "store_write B b (key r c) body orig = (None, b')"
    and "get_with_origin B b' r c = Inr (x, orig')" "orig \<noteq> []"
  shows "x = body \<and> orig' \<in> {orig, OriginLocal}"
proof -
  obtain opts where w: "bl_write B b (key r c) body opts = (None, b')"
    and md: "wo_metadata opts = [metadataOrigin \<mapsto> orig]"
    using assms(1) by (auto simp: store_write_def split: prod.splits option.splits)
  show ?thesis
    using assms(2,3) attrs_written [OF w] read_written [OF w] md
    by (auto simp: get_with_origin_def Let_def split: sum.splits option.splits if_splits)
qed

lemma get_written_found:
  assumes "store_write B b (key r c) body orig = (None, b')"
  shows "get_with_origin B b' r c \<noteq> Inl ErrNotFound"
proof -
  obtain opts where w: "bl_write B b (key r c) body opts = (None, b')"
    using assms by (auto simp: store_write_def split: prod.splits option.splits)
  show ?thesis
    using found_written [OF w]
    by (auto simp: get_with_origin_def Let_def errorf_def ErrNotFound_def split: sum.splits if_splits)
qed

lemma put_latest_other:
  assumes "put_latest_and_commit_with_origin B b r c body orig = (e, b')"
    and "key r' c' \<noteq> key r c" "key r' c' \<noteq> key r []"
  shows "get_with_origin B b' r' c' = get_with_origin B b r' c'"
  using assms
  by (auto simp: put_latest_and_commit_with_origin_def get_other split: if_splits prod.splits option.splits)

lemma put_latest_both:
  assumes "put_latest_and_commit_with_origin B b r c body orig = (None, b')"
    and "c' \<in> {[], c}" "key r c \<noteq> key r []"
    and "get_with_origin B b' r c' = Inr (x, orig')" "orig \<noteq> []"
  shows "x = body \<and> orig' \<in> {orig, OriginLocal}"
proof -
  obtain b1 where w1: "store_write B b (key r c) body orig = (None, b1)"
    and w2: "store_write B b1 (key r []) body orig = (None, b')"
    using assms(1)
    by (auto simp: put_latest_and_commit_with_origin_def split: if_splits prod.splits option.splits)
  show ?thesis
  proof (cases "c' = []")
    case True
    with get_written [OF w2] assms show ?thesis by auto
  next
    case False
    then have c': "c' = c" using assms(2) by auto
    have "get_with_origin B b' r c = get_with_origin B b1 r c"
      using get_other [OF w2] assms(3) by simp
    with get_written [OF w1] assms c' show ?thesis by auto
  qed
qed

lemma put_latest_found:
  assumes "put_latest_and_commit_with_origin B b r c body orig = (None, b')" "key r c \<noteq> key r []"
  shows "get_with_origin B b' r c \<noteq> Inl ErrNotFound" "get_with_origin B b' r [] \<noteq> Inl ErrNotFound"
proof -
  obtain b1 where w1: "store_write B b (key r c) body orig = (None, b1)"
    and w2: "store_write B b1 (key r []) body orig = (None, b')"
    using assms(1)
    by (auto simp: put_latest_and_commit_with_origin_def split: if_splits prod.splits option.splits)
  show "get_with_origin B b' r [] \<noteq> Inl ErrNotFound" by (rule get_written_found [OF w2])
  show "get_with_origin B b' r c \<noteq> Inl ErrNotFound"
    using get_other [OF w2 assms(2)] get_written_found [OF w1] by simp
qed

end

text \<open>
  A bucket held in memory that can refuse writes and fail to read some objects, as
  a concrete instance of the contract.
\<close>

record mem_bucket =
  mb_objects :: "string \<rightharpoonup> string \<times> (string \<rightharpoonup> string)"
  mb_unreadable :: "string list"
  mb_read_only :: bool

definition mem_blob :: "mem_bucket blob" where
  "mem_blob =
     \<lparr>bl_read = (\<lambda>b k. if k \<in> set (mb_unreadable b) then Inl (Sentinel ''read error'')
                    else case mb_objects b k of
                        None \<Rightarrow> Inl (Sentinel ''blob not found'')
                      | Some (body, md) \<Rightarrow> Inr body),
      bl_attrs = (\<lambda>b k. if k \<in> set (mb_unreadable b) then Inl (Sentinel ''read error'')
                    else case mb_objects b k of
                        None \<Rightarrow> Inl (Sentinel ''blob not found'')
                      | Some (body, md) \<Rightarrow> Inr md),
      bl_write = (\<lambda>b k body opts.
                    if mb_read_only b then (Some (Sentinel ''bucket is read-only''), b)
                    else (None, b\<lparr>mb_objects := (mb_objects b)(k \<mapsto> (body, wo_metadata opts))\<rparr>)),
      bl_close = (\<lambda>b. None),
      bl_not_found = (\<lambda>e. e = Sentinel ''blob not found'')\<rparr>"

definition empty_bucket :: mem_bucket where
  "empty_bucket = \<lparr>mb_objects = Map.empty, mb_unreadable = [], mb_read_only = False\<rparr>"

interpretation mem: blob_api mem_blob
  by unfold_locales (auto simp: mem_blob_def split: if_splits option.splits)

section \<open>Properties\<close>

text \<open>
  C12. \<open>Key\<close> is injective on parsed input: two references and commits accepted by
  \<open>ParseRepoRef\<close> and \<open>ParseCommit\<close> share an object key only when they are equal, so
  no repository can read or overwrite another one's results, and a pinned result
  never shares a key with a latest one.
\<close>

theorem key_injective:
  assumes "parse_repo_ref h org repo = Inr r" "parse_commit sha = Inr c"
    and "parse_repo_ref h' org' repo' = Inr r'" "parse_commit sha' = Inr c'"
  shows "key r c = key r' c' \<longleftrightarrow> r = r' \<and> c = c'"
proof -
  have "valid_ref r" "valid_ref r'" using assms(1,3) by (simp_all add: parse_repo_ref_Inr)
  then show ?thesis using key_inject assms(2,4) parse_commit_valid by blast
qed

theorem key_injective_witness:
  "key \<lparr>rf_host = HostGitHub, rf_org = ''ossf'', rf_repo = ''scorecard''\<rparr> []
     \<noteq> key \<lparr>rf_host = HostGitLab, rf_org = ''ossf'', rf_repo = ''scorecard''\<rparr> []"
proof -
  have 1: "parse_repo_ref [] ''ossf'' ''scorecard'' =
             Inr \<lparr>rf_host = HostGitHub, rf_org = ''ossf'', rf_repo = ''scorecard''\<rparr>"
    by code_simp
  have 2: "parse_repo_ref ''GitLab.com'' ''ossf'' ''scorecard'' =
             Inr \<lparr>rf_host = HostGitLab, rf_org = ''ossf'', rf_repo = ''scorecard''\<rparr>"
    by code_simp
  have 3: "parse_commit [] = Inr []" by code_simp
  show ?thesis using key_injective [OF 1 3 2 3] by (simp add: host_defs)
qed



text \<open>
  C13. Read-your-writes for a latest scan: after \<open>PutLatestAndCommit\<close> succeeded,
  reading the latest result or the pinned one does not miss, and a read that
  succeeds gives the body that was written, with the origin it was written with
  unless the attributes could not be read; every other parsed reference and commit
  reads as before.
\<close>

theorem put_latest_read_back:
  assumes "blob_api B" "valid_ref r" "valid_commit c" "orig \<noteq> []"
    and "put_latest_and_commit_with_origin B b r c body orig = (None, b')"
  shows "get_with_origin B b' r c \<noteq> Inl ErrNotFound \<and> get_with_origin B b' r [] \<noteq> Inl ErrNotFound \<and>
    (\<forall>c' x orig'. c' \<in> {[], c} \<longrightarrow> get_with_origin B b' r c' = Inr (x, orig') \<longrightarrow>
       x = body \<and> orig' \<in> {orig, OriginLocal}) \<and>
    (\<forall>r' c'. valid_ref r' \<longrightarrow> valid_commit c' \<longrightarrow> r' \<noteq> r \<or> c' \<notin> {[], c} \<longrightarrow>
       get_with_origin B b' r' c' = get_with_origin B b r' c')"
proof (intro conjI allI impI)
  have c: "c \<noteq> []" using assms(5) by (auto simp: put_latest_and_commit_with_origin_def)
  have nil: "valid_commit []" by (simp add: valid_commit_def)
  have ne: "key r c \<noteq> key r []" using key_inject [OF assms(2,3) assms(2) nil] c by auto
  show "get_with_origin B b' r c \<noteq> Inl ErrNotFound" "get_with_origin B b' r [] \<noteq> Inl ErrNotFound"
    using blob_api.put_latest_found [OF assms(1,5) ne] by auto
  show "x = body" "orig' \<in> {orig, OriginLocal}"
    if "c' \<in> {[], c}" "get_with_origin B b' r c' = Inr (x, orig')" for c' x orig'
    using blob_api.put_latest_both [OF assms(1,5) that(1) ne that(2) assms(4)] by auto
  show "get_with_origin B b' r' c' = get_with_origin B b r' c'"
    if v: "valid_ref r'" "valid_commit c'" and d: "r' \<noteq> r \<or> c' \<notin> {[], c}" for r' c'
  proof -
    have "key r' c' \<noteq> key r c" "key r' c' \<noteq> key r []"
      using key_inject [OF v assms(2,3)] key_inject [OF v assms(2) nil] d by auto
    then show ?thesis by (rule blob_api.put_latest_other [OF assms(1,5)])
  qed
qed

definition wref :: repo_ref where
  "wref = \<lparr>rf_host = HostGitHub, rf_org = ''ossf'', rf_repo = ''scorecard''\<rparr>"

definition wsha :: string where
  "wsha = ''2418d6d95e928102e1f3f8d6e7b92f4f3c78631f''"

lemma wref_valid: "valid_ref wref" "valid_commit wsha" "valid_commit []"
  by code_simp+

theorem put_latest_read_back_witness:
  "get_with_origin mem_blob
     (snd (put_latest_and_commit_with_origin mem_blob empty_bucket wref wsha ''{}'' OriginUpstream))
     wref [] = Inr (''{}'', OriginUpstream)"
proof -
  obtain b' where w: "put_latest_and_commit_with_origin mem_blob empty_bucket wref wsha ''{}'' OriginUpstream
      = (None, b')"
    by (simp add: put_latest_and_commit_with_origin_def store_write_def mem_blob_def
        empty_bucket_def wsha_def)
  obtain x where "get_with_origin mem_blob b' wref [] = Inr (x, OriginUpstream)"
    using w by (auto simp: put_latest_and_commit_with_origin_def store_write_def mem_blob_def
        empty_bucket_def wsha_def get_with_origin_def)
  with put_latest_read_back [OF mem.blob_api_axioms wref_valid(1,2) origins_distinct(4) w] w
  show ?thesis by auto
qed

end
