(* ===== verification/Tokens.thy ===== *)
theory Tokens
  imports ResultStore "HOL-Library.Multiset"
begin

text \<open>
  \<open>internal/tokens/tokens.go\<close>: the round-robin token pool, the per-host rate limiter
  and the retry loop with exponential backoff.  A mutex serialises each operation, so
  an operation is one step on the state it guards.
\<close>

section \<open>The token pool\<close>

record pat_pool =
  pp_tokens :: "string list"
  pp_next :: nat

fun clean_tokens :: "string list \<Rightarrow> string list" where
  "clean_tokens [] = []"
| "clean_tokens (t # ts) =
     (let trimmed = trim_space t
      in if trimmed \<noteq> [] then trimmed # clean_tokens ts else clean_tokens ts)"

definition new_pat_pool :: "string list \<Rightarrow> pat_pool" where
  "new_pat_pool ts = \<lparr>pp_tokens = clean_tokens ts, pp_next = 0\<rparr>"

definition pool_len :: "pat_pool \<Rightarrow> nat" where
  "pool_len p = length (pp_tokens p)"

definition pool_next :: "pat_pool \<Rightarrow> string \<times> pat_pool" where
  "pool_next p =
     (if pp_tokens p = [] then ([], p)
      else (pp_tokens p ! pp_next p, p\<lparr>pp_next := (pp_next p + 1) mod length (pp_tokens p)\<rparr>))"

definition pool_joined :: "pat_pool \<Rightarrow> string" where
  "pool_joined p = join '','' (pp_tokens p)"

text \<open>The tokens that \<open>n\<close> calls of \<open>Next\<close> hand out.\<close>

fun draw :: "nat \<Rightarrow> pat_pool \<Rightarrow> string list" where
  "draw 0 p = []"
| "draw (Suc n) p = (case pool_next p of (t, p') \<Rightarrow> t # draw n p')"

definition pool_ok :: "pat_pool \<Rightarrow> bool" where
  "pool_ok p \<longleftrightarrow> (pp_tokens p = [] \<and> pp_next p = 0) \<or> pp_next p < length (pp_tokens p)"

lemma new_pool_ok: "pool_ok (new_pat_pool ts)"
  by (auto simp: pool_ok_def new_pat_pool_def)

lemma pool_next_ok: "pool_ok p \<Longrightarrow> pool_ok (snd (pool_next p))"
  by (auto simp: pool_ok_def pool_next_def)

lemma clean_tokens_eq: "clean_tokens ts = filter (\<lambda>t. t \<noteq> []) (map trim_space ts)"
  by (induction ts) (auto simp: Let_def)

lemma draw_nth:
  "pool_ok p \<Longrightarrow> pp_tokens p \<noteq> [] \<Longrightarrow> i < n \<Longrightarrow>
     draw n p ! i = pp_tokens p ! ((pp_next p + i) mod length (pp_tokens p))"
proof (induction n arbitrary: p i)
  case (Suc n)
  let ?p = "snd (pool_next p)"
  have p: "pp_tokens ?p = pp_tokens p" "pp_next ?p = (pp_next p + 1) mod length (pp_tokens p)"
    using Suc.prems(2) by (simp_all add: pool_next_def)
  show ?case
  proof (cases i)
    case 0
    then show ?thesis using Suc.prems by (auto simp: pool_next_def pool_ok_def)
  next
    case (Suc j)
    have "draw n ?p ! j = pp_tokens p ! (((pp_next p + 1) mod length (pp_tokens p) + j) mod length (pp_tokens p))"
      using Suc.IH [of ?p j] Suc.prems pool_next_ok [of p] p Suc by simp
    also have "((pp_next p + 1) mod length (pp_tokens p) + j) mod length (pp_tokens p)
        = (pp_next p + i) mod length (pp_tokens p)"
      using Suc by (simp add: mod_simps)
    finally show ?thesis using Suc by (simp add: case_prod_beta)
  qed
qed simp

lemma length_draw [simp]: "length (draw n p) = n"
  by (induction n arbitrary: p) (auto split: prod.splits)

lemma rotate_nth_mod: "k < length xs \<Longrightarrow> rotate k xs = map (\<lambda>i. xs ! ((k + i) mod length xs)) [0..<length xs]"
  by (rule nth_equalityI) (auto simp: nth_rotate)

lemma draw_round:
  assumes "pool_ok p" "pp_tokens p \<noteq> []"
  shows "draw (length (pp_tokens p)) p = rotate (pp_next p) (pp_tokens p)"
proof -
  have "pp_next p < length (pp_tokens p)" using assms by (auto simp: pool_ok_def)
  then show ?thesis using draw_nth [OF assms] by (intro nth_equalityI) (auto simp: nth_rotate)
qed

section \<open>The per-host limiter\<close>

text \<open>
  \<open>rate.Limiter\<close> is a third-party type: \<open>'l\<close>, with its constructor and its \<open>Wait\<close> as
  parameters.  \<open>HostLimiter\<close> maps a host to a pointer to its limiter; as no one else
  holds the pointer, the map holds the limiter's state.
\<close>

datatype limit = Limit rat | Inf

record 'l host_limiter =
  hl_limiters :: "string \<rightharpoonup> 'l"
  hl_limit :: limit
  hl_burst :: int

definition new_host_limiter :: "rat \<Rightarrow> int \<Rightarrow> 'l host_limiter" where
  "new_host_limiter per_second burst =
     \<lparr>hl_limiters = Map.empty,
      hl_limit = (if per_second \<le> 0 then Inf else Limit per_second),
      hl_burst = (if burst < 1 then 1 else burst)\<rparr>"

definition limiter_for ::
  "(limit \<Rightarrow> int \<Rightarrow> 'l) \<Rightarrow> 'l host_limiter \<Rightarrow> string \<Rightarrow> 'l \<times> 'l host_limiter" where
  "limiter_for new_limiter h hst =
     (case hl_limiters h hst of
        Some l \<Rightarrow> (l, h)
      | None \<Rightarrow>
          (let l = new_limiter (hl_limit h) (hl_burst h)
           in (l, h\<lparr>hl_limiters := (hl_limiters h)(hst \<mapsto> l)\<rparr>)))"

definition limiter_wait ::
  "(limit \<Rightarrow> int \<Rightarrow> 'l) \<Rightarrow> ('l \<Rightarrow> err option \<times> 'l) \<Rightarrow> 'l host_limiter \<Rightarrow> string
     \<Rightarrow> err option \<times> 'l host_limiter" where
  "limiter_wait new_limiter wait h hst =
     (case limiter_for new_limiter h hst of
        (l, h1) \<Rightarrow>
          (case wait l of
             (r, l') \<Rightarrow>
               (let h2 = h1\<lparr>hl_limiters := (hl_limiters h1)(hst \<mapsto> l')\<rparr>
                in case r of
                    Some e \<Rightarrow> (Some (errorf [L ''tokens: rate-limit wait for '', L (quote hst),
                                            L '': '', W e]), h2)
                  | None \<Rightarrow> (None, h2))))"

text \<open>The state of a host's limiter, or the one it will start with.\<close>

definition host_state :: "(limit \<Rightarrow> int \<Rightarrow> 'l) \<Rightarrow> 'l host_limiter \<Rightarrow> string \<Rightarrow> 'l" where
  "host_state nl h hst =
     (case hl_limiters h hst of Some l \<Rightarrow> l | None \<Rightarrow> nl (hl_limit h) (hl_burst h))"

fun run_waits ::
  "(limit \<Rightarrow> int \<Rightarrow> 'l) \<Rightarrow> ('l \<Rightarrow> err option \<times> 'l) \<Rightarrow> 'l host_limiter \<Rightarrow> string list \<Rightarrow> 'l host_limiter"
where
  "run_waits nl w h [] = h"
| "run_waits nl w h (x # xs) = run_waits nl w (snd (limiter_wait nl w h x)) xs"

lemma limiter_wait_state:
  "host_state nl (snd (limiter_wait nl w h x)) y =
     (if y = x then snd (w (host_state nl h x)) else host_state nl h y)"
  "hl_limit (snd (limiter_wait nl w h x)) = hl_limit h"
  "hl_burst (snd (limiter_wait nl w h x)) = hl_burst h"
  by (auto simp: limiter_wait_def limiter_for_def host_state_def Let_def
      split: option.splits prod.splits)

lemma run_waits_state:
  "host_state nl (run_waits nl w h xs) y =
     ((snd \<circ> w) ^^ length (filter (\<lambda>x. x = y) xs)) (host_state nl h y)"
  by (induction xs arbitrary: h) (auto simp: limiter_wait_state funpow_swap1)

section \<open>Retrying with backoff\<close>

record backoff_config =
  bc_max_attempts :: int
  bc_base :: duration
  bc_max :: duration

definition default_backoff :: backoff_config where
  "default_backoff = \<lparr>bc_max_attempts = 4, bc_base = 500 * millisecond_ns, bc_max = 30 * second_ns\<rparr>"

definition errNoAttempts :: err where
  "errNoAttempts = Sentinel ''tokens: MaxAttempts must be >= 1''"

text \<open>The error type \<open>*permanent\<close>, and the first one \<open>errors.As\<close> finds in a chain.\<close>

definition permanent :: "err option \<Rightarrow> err option" where
  "permanent e = map_option (\<lambda>e. Typed ''permanent'' (err_text e) [e]) e"

fun find_permanent :: "err \<Rightarrow> err option" and find_permanents :: "err list \<Rightarrow> err option" where
  "find_permanent (Sentinel m) = None"
| "find_permanent (Wrapped m es) = find_permanents es"
| "find_permanent (Typed t m es) =
     (if t = ''permanent'' then (case es of e # _ \<Rightarrow> Some e | [] \<Rightarrow> None) else find_permanents es)"
| "find_permanents [] = None"
| "find_permanents (e # es) =
     (case find_permanent e of Some p \<Rightarrow> Some p | None \<Rightarrow> find_permanents es)"

text \<open>
  \<open>Retry\<close> calls \<open>fn\<close> and sleeps; the trace records both.  \<open>fn i\<close> is what the call
  numbered \<open>i\<close> returns, \<open>ctx i\<close> the error of the context when it ends before the
  timer of the sleep preceding that call.
\<close>

datatype retry_event = Slept duration | Called

definition sleep_for :: "(int \<Rightarrow> err option) \<Rightarrow> int \<Rightarrow> err option" where
  "sleep_for ctx i = map_option (\<lambda>e. errorf [L ''tokens: retry aborted: '', W e]) (ctx i)"

definition next_delay :: "backoff_config \<Rightarrow> duration \<Rightarrow> duration" where
  "next_delay cfg delay =
     (let d = i64 (delay * 2) in if 0 < bc_max cfg \<and> bc_max cfg < d then bc_max cfg else d)"

function retry_loop ::
  "backoff_config \<Rightarrow> (int \<Rightarrow> err option) \<Rightarrow> (int \<Rightarrow> err option) \<Rightarrow> int \<Rightarrow> duration \<Rightarrow> err option
     \<Rightarrow> err option \<times> retry_event list" where
  "retry_loop cfg ctx fn attempt delay last_err =
     (if bc_max_attempts cfg \<le> attempt then (last_err, [])
      else
        let call = (\<lambda>delay'.
              case fn attempt of
                None \<Rightarrow> (None, [Called])
              | Some e \<Rightarrow>
                  (case find_permanent e of
                     Some p \<Rightarrow> (Some p, [Called])
                   | None \<Rightarrow>
                       (case retry_loop cfg ctx fn (attempt + 1) delay' (Some e) of
                          (r, tr) \<Rightarrow> (r, Called # tr))))
        in if 0 < attempt then
             (case sleep_for ctx attempt of
                Some e \<Rightarrow> (Some e, [Slept delay])
              | None \<Rightarrow> (case call (next_delay cfg delay) of (r, tr) \<Rightarrow> (r, Slept delay # tr)))
           else call delay)"
  by pat_completeness auto
termination by (relation "measure (\<lambda>(cfg, d, f, a, _, _). nat (bc_max_attempts cfg - a))") auto

declare retry_loop.simps [simp del]

definition retry ::
  "backoff_config \<Rightarrow> (int \<Rightarrow> err option) \<Rightarrow> (int \<Rightarrow> err option) \<Rightarrow> err option \<times> retry_event list" where
  "retry cfg ctx fn =
     (if bc_max_attempts cfg < 1 then (Some errNoAttempts, [])
      else retry_loop cfg ctx fn 0 (bc_base cfg) None)"

text \<open>
  The delay before the call numbered \<open>n\<close> (counting from 0, which has none), and the
  trace of \<open>n\<close> calls that each were followed by another or were the last.
\<close>

definition delay_before :: "backoff_config \<Rightarrow> nat \<Rightarrow> duration" where
  "delay_before cfg n = (next_delay cfg ^^ (n - 1)) (bc_base cfg)"

fun call_trace :: "backoff_config \<Rightarrow> nat \<Rightarrow> retry_event list" where
  "call_trace cfg 0 = []"
| "call_trace cfg (Suc n) =
     call_trace cfg n @ (if n = 0 then [Called] else [Slept (delay_before cfg n), Called])"

text \<open>The first \<open>n\<close> calls fail with errors that may be retried, and no sleep between them is cut short.\<close>

definition fails_until :: "(int \<Rightarrow> err option) \<Rightarrow> (int \<Rightarrow> err option) \<Rightarrow> nat \<Rightarrow> bool" where
  "fails_until ctx fn n \<longleftrightarrow>
     (\<forall>i < n. (\<exists>e. fn (int i) = Some e \<and> find_permanent e = None) \<and>
              (0 < i \<longrightarrow> ctx (int i) = None))"

definition after_calls :: "retry_event list \<Rightarrow> 'a \<times> retry_event list \<Rightarrow> 'a \<times> retry_event list" where
  "after_calls tr x = (fst x, tr @ snd x)"

lemma retry_loop_prefix:
  assumes "fails_until ctx fn n" "int n \<le> bc_max_attempts cfg"
  shows "retry_loop cfg ctx fn 0 (bc_base cfg) None =
    after_calls (call_trace cfg n)
      (retry_loop cfg ctx fn (int n) (delay_before cfg n) (if n = 0 then None else fn (int n - 1)))"
  using assms
proof (induction n)
  case 0
  then show ?case by (simp add: delay_before_def after_calls_def)
next
  case (Suc n)
  then obtain e where e: "fn (int n) = Some e" "find_permanent e = None" "0 < n \<longrightarrow> ctx (int n) = None"
    by (auto simp: fails_until_def)
  have IH: "retry_loop cfg ctx fn 0 (bc_base cfg) None =
    after_calls (call_trace cfg n)
      (retry_loop cfg ctx fn (int n) (delay_before cfg n) (if n = 0 then None else fn (int n - 1)))"
    using Suc by (auto simp: fails_until_def)
  have step: "delay_before cfg (Suc n) = (if n = 0 then delay_before cfg n else next_delay cfg (delay_before cfg n))"
    by (cases n) (simp_all add: delay_before_def)
  show ?case
    unfolding IH using e Suc.prems(2) step
    by (subst retry_loop.simps)
       (auto simp: sleep_for_def Let_def e add.commute after_calls_def split: prod.splits)
qed

text \<open>The four ways the call numbered \<open>n\<close> can end it.\<close>

lemma retry_success:
  "fails_until ctx fn n \<Longrightarrow> int n < bc_max_attempts cfg \<Longrightarrow> n = 0 \<or> ctx n = None \<Longrightarrow> fn n = None \<Longrightarrow>
     retry cfg ctx fn = (None, call_trace cfg (Suc n))"
  by (auto simp: retry_def retry_loop_prefix retry_loop.simps [of _ _ _ "int n"] sleep_for_def
      after_calls_def)

lemma retry_permanent:
  "fails_until ctx fn n \<Longrightarrow> int n < bc_max_attempts cfg \<Longrightarrow> n = 0 \<or> ctx n = None \<Longrightarrow> fn n = Some e \<Longrightarrow>
     find_permanent e = Some p \<Longrightarrow> retry cfg ctx fn = (Some p, call_trace cfg (Suc n))"
  by (auto simp: retry_def retry_loop_prefix retry_loop.simps [of _ _ _ "int n"] sleep_for_def
      after_calls_def)

lemma retry_aborted:
  "fails_until ctx fn n \<Longrightarrow> int n < bc_max_attempts cfg \<Longrightarrow> 0 < n \<Longrightarrow> ctx n = Some ce \<Longrightarrow>
     retry cfg ctx fn = (Some (errorf [L ''tokens: retry aborted: '', W ce]),
                         call_trace cfg n @ [Slept (delay_before cfg n)])"
  by (auto simp: retry_def retry_loop_prefix retry_loop.simps [of _ _ _ "int n"] sleep_for_def
      after_calls_def)

lemma retry_exhausted:
  "fails_until ctx fn n \<Longrightarrow> 1 \<le> bc_max_attempts cfg \<Longrightarrow> int n = bc_max_attempts cfg \<Longrightarrow>
     retry cfg ctx fn = (fn (int n - 1), call_trace cfg n)"
  by (auto simp: retry_def retry_loop_prefix retry_loop.simps [of _ _ _ "bc_max_attempts cfg"]
      after_calls_def)

lemma next_delay_capped:
  assumes "0 \<le> d" "d \<le> bc_max cfg" "0 < bc_max cfg" "bc_max cfg < 2 ^ 62"
  shows "next_delay cfg d = min (bc_max cfg) (d * 2)"
proof -
  have "i64 (d * 2) = d * 2" using assms by (intro i64_between) auto
  then show ?thesis using assms by (simp add: next_delay_def min_def Let_def)
qed

lemma delay_before_capped:
  assumes "0 \<le> bc_base cfg" "bc_base cfg \<le> bc_max cfg" "0 < bc_max cfg" "bc_max cfg < 2 ^ 62"
  shows "(next_delay cfg ^^ n) (bc_base cfg) = min (bc_max cfg) (bc_base cfg * 2 ^ n)"
proof (induction n)
  case (Suc n)
  then show ?case using assms by (simp add: next_delay_capped min_def)
qed (use assms in simp)

lemma i64_periodic: "i64 (x + 2 ^ 64 * k) = i64 x"
proof -
  have "x + 2 ^ 64 * k + 2 ^ 63 = (x + 2 ^ 63) + 2 ^ 64 * k" by simp
  then show ?thesis unfolding i64_def by (metis mod_mult_self2)
qed

lemma i64_mult2: "i64 (i64 x * 2) = i64 (x * 2)"
proof -
  have "i64 x = x + 2 ^ 64 * (- ((x + 2 ^ 63) div 2 ^ 64))"
    by (simp add: i64_def minus_div_mult_eq_mod [symmetric])
  then have "i64 x * 2 = x * 2 + 2 ^ 64 * (- ((x + 2 ^ 63) div 2 ^ 64) * 2)" by (simp add: algebra_simps)
  then show ?thesis by (simp only: i64_periodic)
qed

lemma delay_before_uncapped:
  "bc_max cfg = 0 \<Longrightarrow> is_i64 (bc_base cfg) \<Longrightarrow>
     (next_delay cfg ^^ n) (bc_base cfg) = i64 (bc_base cfg * 2 ^ n)"
proof (induction n)
  case (Suc n)
  then show ?case by (simp add: next_delay_def i64_mult2) (simp add: algebra_simps)
qed simp

section \<open>Properties\<close>

text \<open>
  \<open>Retry\<close> in full, after \<open>n\<close> calls that failed with errors that may be retried:
  a call that then succeeds ends it with success, one that fails with a permanent
  error ends it with that error unwrapped, a context that ends during the sleep ends
  it without another call, and after \<open>MaxAttempts\<close> calls the last error is returned.
  Between two calls it sleeps once, and nothing else happens.
\<close>

theorem retry_outcomes:
  assumes "fails_until ctx fn n" "1 \<le> bc_max_attempts cfg"
  shows "(int n < bc_max_attempts cfg \<and> (n = 0 \<or> ctx n = None) \<and> fn n = None \<longrightarrow>
           retry cfg ctx fn = (None, call_trace cfg (Suc n))) \<and>
    (\<forall>e p. int n < bc_max_attempts cfg \<and> (n = 0 \<or> ctx n = None) \<and> fn n = Some e \<and>
           find_permanent e = Some p \<longrightarrow> retry cfg ctx fn = (Some p, call_trace cfg (Suc n))) \<and>
    (\<forall>ce. int n < bc_max_attempts cfg \<and> 0 < n \<and> ctx n = Some ce \<longrightarrow>
           retry cfg ctx fn = (Some (errorf [L ''tokens: retry aborted: '', W ce]),
                                call_trace cfg n @ [Slept (delay_before cfg n)])) \<and>
    (int n = bc_max_attempts cfg \<longrightarrow> retry cfg ctx fn = (fn (int n - 1), call_trace cfg n))"
  using retry_success [OF assms(1)] retry_permanent [OF assms(1)] retry_aborted [OF assms(1)]
    retry_exhausted [OF assms(1)] assms(2) by auto

theorem retry_outcomes_witness:
  "retry default_backoff (\<lambda>_. None) (\<lambda>i. if i = 2 then None else Some (Sentinel ''rate limited'')) =
     (None, [Called, Slept 500000000, Called, Slept 1000000000, Called])"
proof -
  have f: "fails_until (\<lambda>_. None) (\<lambda>i. if i = 2 then None else Some (Sentinel ''rate limited'')) 2"
    by (auto simp: fails_until_def)
  have m: "bc_max_attempts default_backoff = 4" by (simp add: default_backoff_def)
  have t: "call_trace default_backoff (Suc 2) =
             [Called, Slept 500000000, Called, Slept 1000000000, Called]"
    by (simp add: numeral_2_eq_2 delay_before_def next_delay_def default_backoff_def i64_def
        duration_units Let_def)
  have "retry default_backoff (\<lambda>_. None) (\<lambda>i. if i = 2 then None else Some (Sentinel ''rate limited''))
          = (None, call_trace default_backoff (Suc 2))"
    using retry_outcomes [OF f] m by simp
  then show ?thesis by (simp only: t)
qed



lemma draw_as_map:
  assumes "pool_ok p" "pp_tokens p \<noteq> []"
  shows "draw n p = map (\<lambda>i. pp_tokens p ! ((pp_next p + i) mod length (pp_tokens p))) [0..<n]"
  by (rule nth_equalityI) (auto simp: draw_nth [OF assms])

lemma mset_rotate_eq [simp]: "mset (rotate n xs) = mset xs"
proof (induction n)
  case (Suc n)
  have "mset (rotate1 ys) = mset ys" for ys :: "'a list" by (cases ys) auto
  with Suc show ?case by simp
qed simp

lemma mset_draw_rounds:
  assumes "pool_ok p" "pp_tokens p \<noteq> []"
  shows "mset (draw (k * length (pp_tokens p)) p) = repeat_mset k (mset (pp_tokens p))"
proof (induction k)
  case (Suc k)
  let ?L = "length (pp_tokens p)" and ?f = "\<lambda>i. pp_tokens p ! ((pp_next p + i) mod length (pp_tokens p))"
  have "[0..<Suc k * ?L] = [0..<k * ?L] @ [k * ?L..<k * ?L + ?L]"
    using upt_add_eq_append [of 0 "k * ?L" ?L] by (simp add: add.commute)
  also have "[k * ?L..<k * ?L + ?L] = map ((+) (k * ?L)) [0..<?L]"
    by (rule nth_equalityI) auto
  finally have "[0..<Suc k * ?L] = [0..<k * ?L] @ map ((+) (k * ?L)) [0..<?L]" .
  moreover have "map ?f (map ((+) (k * ?L)) [0..<?L]) = map ?f [0..<?L]"
    by (simp add: add.left_commute [of _ "k * ?L"])
  ultimately have "draw (Suc k * ?L) p = draw (k * ?L) p @ draw ?L p"
    by (simp add: draw_as_map [OF assms])
  with Suc draw_round [OF assms] show ?case by simp
qed simp

text \<open>
  The token pool is fair: from any state the pool can be in, each run of \<open>Len\<close>
  consecutive calls of \<open>Next\<close> hands out every token of the pool exactly once, so
  \<open>k\<close> rounds hand out each token \<open>k\<close> times; the tokens are the given ones, trimmed,
  in order and without the blank ones.
\<close>

theorem pool_round_robin:
  assumes "pool_ok p" "pp_tokens p = pp_tokens (new_pat_pool ts)"
  shows "mset (draw (k * pool_len p) p) =
           repeat_mset k (mset (filter (\<lambda>t. t \<noteq> []) (map trim_space ts)))"
proof (cases "pp_tokens p = []")
  case True
  with assms(2) show ?thesis by (simp add: new_pat_pool_def clean_tokens_eq pool_len_def)
next
  case False
  from mset_draw_rounds [OF assms(1) this] assms(2) show ?thesis
    by (simp add: new_pat_pool_def clean_tokens_eq pool_len_def)
qed

theorem pool_round_robin_witness:
  "mset (draw 4 \<lparr>pp_tokens = [''a'', ''b''], pp_next = 1\<rparr>) = mset [''a'', ''b'', ''a'', ''b'']"
proof -
  let ?p = "\<lparr>pp_tokens = [''a'', ''b''], pp_next = 1\<rparr>"
  have p: "pool_ok ?p" by (simp add: pool_ok_def)
  have t: "pp_tokens ?p = pp_tokens (new_pat_pool ['' a'', ''  '', ''b''])" by code_simp
  have f: "filter (\<lambda>t. t \<noteq> []) (map trim_space ['' a'', ''  '', ''b'']) = [''a'', ''b'']" by code_simp
  have l: "2 * pool_len ?p = 4" by (simp add: pool_len_def)
  have "mset (draw 4 ?p) = repeat_mset 2 (mset [''a'', ''b''])"
    using pool_round_robin [OF p t, of 2] unfolding f l .
  then show ?thesis by (simp add: numeral_2_eq_2)
qed

text \<open>
  Hosts are paced independently: after any sequence of \<open>Wait\<close> calls the limiter of
  a host is in the state that the calls for that host alone lead to, starting from one
  limiter made with the configured limit and burst; a burst below one is raised to one
  and a non-positive rate is no limit.
\<close>

theorem host_limiter_independent:
  "host_state new_limiter (run_waits new_limiter wait (new_host_limiter per_second burst) hosts) h =
     ((snd \<circ> wait) ^^ length (filter (\<lambda>x. x = h) hosts))
       (new_limiter (if per_second \<le> 0 then Inf else Limit per_second) (max 1 burst))"
  by (simp add: run_waits_state) (simp add: host_state_def new_host_limiter_def max_def)

end
