(* ===== verification/ScanEngine.thy ===== *)
theory ScanEngine
  imports Tokens
begin

text \<open>
  \<open>internal/scan\<close>: the completeness rule and the \<open>Scanner\<close> interface (\<open>scan.go\<close>), the
  bounded pool (\<open>pool.go\<close>), the live engine around \<open>scorecard.Run\<close> (\<open>engine.go\<close>) and
  the configurable test scanner (\<open>fake.go\<close>).
\<close>

section \<open>Results and completeness\<close>

definition ErrSkipped :: err where
  "ErrSkipped = Sentinel ''scan: repository skipped (unreachable or blocked)''"

abbreviation is_skipped :: "err \<Rightarrow> bool" where
  "is_skipped \<equiv> errors_is ''scan: repository skipped (unreachable or blocked)''"

record scan_result =
  sr_resolved :: string
  sr_json2 :: string
  sr_complete :: bool

fun scan_complete :: "check list \<Rightarrow> bool" where
  "scan_complete [] = True"
| "scan_complete (c # cs) = (if ck_score c < 0 then False else scan_complete cs)"

lemma scan_complete_iff [simp]: "scan_complete cs \<longleftrightarrow> (\<forall>c \<in> set cs. 0 \<le> ck_score c)"
  by (induction cs) auto

text \<open>
  What the users of a \<open>Scanner\<close> rely on: the body of a produced result is a JSON2
  document, the resolved commit is the one it names, and it is marked complete by the
  one rule of \<open>Complete\<close>.
\<close>

locale scanner =
  fixes parse :: "string \<Rightarrow> result res" and scan :: "repo_ref \<Rightarrow> string \<Rightarrow> scan_result res"
  assumes scan_coherent: "scan r c = Inr s \<Longrightarrow>
    \<exists>p. parse (sr_json2 s) = Inr p \<and> sr_resolved s = ri_commit (rs_repo p) \<and>
        sr_complete s = scan_complete (rs_checks p)"
begin

lemma scan_complete_iff_conclusive:
  "scan r c = Inr s \<Longrightarrow> parse (sr_json2 s) = Inr p \<Longrightarrow>
     sr_complete s \<longleftrightarrow> (\<forall>k \<in> set (rs_checks p). 0 \<le> ck_score k)"
  using scan_coherent by fastforce

end

section \<open>The bounded pool\<close>

text \<open>
  The semaphore channel: its capacity and how many slots are held.  \<open>Do\<close> takes a slot
  or gives up with the error of the context (\<open>ctx\<close>), and gives the slot back when
  \<open>fn\<close> returns.
\<close>

record bounded =
  bd_cap :: nat
  bd_held :: nat

definition new_bounded :: "int \<Rightarrow> bounded" where
  "new_bounded sz = \<lparr>bd_cap = nat (if sz < 1 then 1 else sz), bd_held = 0\<rparr>"

definition try_acquire :: "bounded \<Rightarrow> bounded option" where
  "try_acquire b = (if bd_held b < bd_cap b then Some (b\<lparr>bd_held := bd_held b + 1\<rparr>) else None)"

definition release :: "bounded \<Rightarrow> bounded" where
  "release b = b\<lparr>bd_held := bd_held b - 1\<rparr>"

definition slot_wait_error :: "err \<Rightarrow> err" where
  "slot_wait_error e = errorf [L ''scan: waiting for worker slot: '', W e]"

text \<open>
  \<open>Do\<close> as one caller sees it: \<open>slot = None\<close> when a slot was free in time, and the
  error of the context otherwise.
\<close>

definition bounded_do :: "err option \<Rightarrow> 'a res \<Rightarrow> 'a res" where
  "bounded_do slot fn = (case slot of Some e \<Rightarrow> Inl (slot_wait_error e) | None \<Rightarrow> fn)"

text \<open>
  All callers together.  A call waits for a slot, runs \<open>fn\<close> while it holds one, and
  returns; the steps of different calls interleave freely.
\<close>

datatype call_state = Waiting | Running | Returned | GaveUp

type_synonym pool_sys = "bounded \<times> call_state list"

inductive pool_step :: "pool_sys \<Rightarrow> pool_sys \<Rightarrow> bool" where
  arrive: "pool_step (b, cs) (b, cs @ [Waiting])"
| acquire: "i < length cs \<Longrightarrow> cs ! i = Waiting \<Longrightarrow> try_acquire b = Some b' \<Longrightarrow>
     pool_step (b, cs) (b', cs[i := Running])"
| give_up: "i < length cs \<Longrightarrow> cs ! i = Waiting \<Longrightarrow> pool_step (b, cs) (b, cs[i := GaveUp])"
| finish: "i < length cs \<Longrightarrow> cs ! i = Running \<Longrightarrow> pool_step (b, cs) (release b, cs[i := Returned])"

inductive_cases pool_stepE: "pool_step s s'"

definition running :: "call_state list \<Rightarrow> nat" where
  "running cs = length (filter (\<lambda>c. c = Running) cs)"

definition pool_inv :: "nat \<Rightarrow> pool_sys \<Rightarrow> bool" where
  "pool_inv n s \<longleftrightarrow> bd_cap (fst s) = n \<and> bd_held (fst s) = running (snd s) \<and> running (snd s) \<le> n"

lemma running_update:
  "i < length cs \<Longrightarrow>
     running (cs[i := c]) + (if cs ! i = Running then 1 else 0) =
     running cs + (if c = Running then 1 else 0)"
proof (induction cs arbitrary: i)
  case (Cons d cs)
  then show ?case
  proof (cases i)
    case (Suc j)
    then show ?thesis using Cons.IH [of j] Cons.prems by (auto simp: running_def)
  qed (auto simp: running_def)
qed simp

lemma pool_inv_step: "pool_step s s' \<Longrightarrow> pool_inv n s \<Longrightarrow> pool_inv n s'"
proof (induction rule: pool_step.induct)
  case (arrive b cs)
  then show ?case by (simp add: pool_inv_def running_def)
next
  case (acquire i cs b b')
  then show ?case using running_update [of i cs Running]
    by (auto simp: pool_inv_def try_acquire_def split: if_splits)
next
  case (give_up i cs b)
  then show ?case using running_update [of i cs GaveUp] by (auto simp: pool_inv_def)
next
  case (finish i cs b)
  then show ?case using running_update [of i cs Returned]
    by (auto simp: pool_inv_def release_def)
qed

lemma pool_inv_reachable:
  "pool_step\<^sup>*\<^sup>* (new_bounded sz, []) s \<Longrightarrow> pool_inv (nat (max 1 sz)) s"
proof (induction rule: rtranclp_induct)
  case base
  then show ?case by (simp add: pool_inv_def new_bounded_def running_def max_def)
next
  case (step s s')
  then show ?case using pool_inv_step by blast
qed

text \<open>
  C15. The pool bounds concurrency: whatever calls of \<open>Do\<close> arrive, are given up and
  finish in whatever order, at most \<open>max 1 size\<close> of the functions run at a time; and
  it does not deadlock: when a call waits, either it can take a slot at once or some
  running call can finish.
\<close>

theorem pool_bounds_concurrency:
  assumes "pool_step\<^sup>*\<^sup>* (new_bounded sz, []) (b, cs)"
  shows "int (running cs) \<le> max 1 sz \<and>
    (\<forall>i < length cs. cs ! i = Waiting \<longrightarrow>
       (\<exists>b'. pool_step (b, cs) (b', cs[i := Running])) \<or>
       (\<exists>j < length cs. cs ! j = Running \<and> pool_step (b, cs) (release b, cs[j := Returned])))"
proof -
  from pool_inv_reachable [OF assms] have inv: "pool_inv (nat (max 1 sz)) (b, cs)" .
  have "\<exists>j < length cs. cs ! j = Running" if "\<not> bd_held b < bd_cap b"
  proof -
    have "0 < running cs" using that inv by (auto simp: pool_inv_def)
    then have "filter (\<lambda>c. c = Running) cs \<noteq> []" unfolding running_def by auto
    then show ?thesis by (auto simp: filter_empty_conv in_set_conv_nth)
  qed
  moreover have "\<exists>b'. try_acquire b = Some b'" if "bd_held b < bd_cap b"
    using that by (simp add: try_acquire_def)
  moreover have "int (running cs) \<le> max 1 sz" using inv by (auto simp: pool_inv_def)
  ultimately show ?thesis by (blast intro: pool_step.intros)
qed

theorem pool_bounds_concurrency_witness:
  "\<exists>b. pool_step\<^sup>*\<^sup>* (new_bounded 0, []) (b, [Running, Waiting]) \<and> int (running [Running, Waiting]) \<le> 1"
proof -
  let ?b = "\<lparr>bd_cap = 1, bd_held = 1\<rparr>"
  have "pool_step (new_bounded 0, []) (new_bounded 0, [Waiting])"
    using pool_step.arrive [of "new_bounded 0" "[]"] by simp
  moreover have "pool_step (new_bounded 0, [Waiting]) (?b, [Running])"
    using pool_step.acquire [of 0 "[Waiting]" "new_bounded 0" ?b]
    by (simp add: try_acquire_def new_bounded_def)
  moreover have "pool_step (?b, [Running]) (?b, [Running, Waiting])"
    using pool_step.arrive [of ?b "[Running]"] by simp
  ultimately have r: "pool_step\<^sup>*\<^sup>* (new_bounded 0, []) (?b, [Running, Waiting])"
    by (meson converse_rtranclp_into_rtranclp rtranclp.rtrancl_refl)
  with pool_bounds_concurrency [OF r] show ?thesis by auto
qed

section \<open>The live engine\<close>

text \<open>
  The Scorecard library is a third-party package; what the engine calls of it is the
  record \<open>engine_deps\<close>.  \<open>'p\<close> is a repository of an SCM client, \<open>'k\<close> the value of one
  check of a raw result, keyed by its name, \<open>'t\<close> the rest of a raw result.
\<close>

record ('k, 't) raw_result =
  rr_checks :: "(string \<times> 'k) list"
  rr_rest :: 't

record ('p, 'k, 't) engine_deps =
  ed_make_gitlab :: "string \<Rightarrow> 'p res"
  ed_gitlab_client :: "string \<Rightarrow> err option"
  ed_make_github :: "string \<Rightarrow> 'p res"
  ed_head_sha :: string \<comment> \<open>\<open>clients.HeadSHA\<close>\<close>
  ed_get_enabled :: "string list \<Rightarrow> bool \<Rightarrow> 'p \<Rightarrow> string list res" \<comment> \<open>keys of \<open>policy.GetEnabled\<close>\<close>
  ed_run :: "nat \<Rightarrow> 'p \<Rightarrow> string \<Rightarrow> string list \<Rightarrow> ('k, 't) raw_result res" \<comment> \<open>the call numbered \<open>n\<close>\<close>
  ed_as_json2 :: "('k, 't) raw_result \<Rightarrow> string res"
  ed_unreachable :: "err \<Rightarrow> bool" \<comment> \<open>\<open>errors.Is(err, sce.ErrRepoUnreachable)\<close>\<close>
  ed_unmarshal :: unmarshal

record 'l engine_scanner =
  es_limiter :: "'l host_limiter"
  es_checks :: "string list"
  es_backoff :: backoff_config

definition ipAllowListMarker :: string where
  "ipAllowListMarker = ''organization has an IP allow list''"

text \<open>\<open>NewEngineScanner\<close>: its defaults; \<open>docs_read\<close> is the error of \<open>docs.Read\<close>.\<close>

record 'l engine_config =
  ec_limiter :: "'l host_limiter option"
  ec_checks :: "string list"
  ec_backoff :: backoff_config

definition new_engine_scanner :: "err option \<Rightarrow> 'l engine_config \<Rightarrow> 'l engine_scanner res" where
  "new_engine_scanner docs_read cfg =
     (case docs_read of
        Some e \<Rightarrow> Inl (errorf [L ''scan: reading check docs: '', W e])
      | None \<Rightarrow>
          Inr \<lparr>es_limiter = (case ec_limiter cfg of None \<Rightarrow> new_host_limiter 0 0 | Some l \<Rightarrow> l),
               es_checks = ec_checks cfg,
               es_backoff = (if bc_max_attempts (ec_backoff cfg) < 1 then default_backoff
                             else ec_backoff cfg)\<rparr>)"

definition is_skip :: "('p, 'k, 't) engine_deps \<Rightarrow> err \<Rightarrow> bool" where
  "is_skip D e \<longleftrightarrow> ed_unreachable D e \<or> sublist ipAllowListMarker (err_text e)"

definition repo_client :: "('p, 'k, 't) engine_deps \<Rightarrow> repo_ref \<Rightarrow> 'p res" where
  "repo_client D r =
     (if rf_host r = HostGitLab then
        (case ed_make_gitlab D (ref_name r) of
           Inl e \<Rightarrow> Inl (errorf [L ''scan: making GitLab repo '', L (quote (ref_name r)), L '': '', W e])
         | Inr repo \<Rightarrow>
             (case ed_gitlab_client D (rf_host r) of
                Some e \<Rightarrow> Inl (errorf [L ''scan: creating GitLab client: '', W e])
              | None \<Rightarrow> Inr repo))
      else
        (case ed_make_github D (ref_name r) of
           Inl e \<Rightarrow> Inl (errorf [L ''scan: making GitHub repo '', L (quote (ref_name r)), L '': '', W e])
         | Inr repo \<Rightarrow> Inr repo))"

text \<open>What the closure given to \<open>Retry\<close> returns for one outcome of \<open>scorecard.Run\<close>.\<close>

definition run_attempt :: "('p, 'k, 't) engine_deps \<Rightarrow> ('k, 't) raw_result res \<Rightarrow> err option" where
  "run_attempt D x =
     (case x of
        Inr res \<Rightarrow> None
      | Inl e \<Rightarrow>
          if is_skip D e then permanent (Some ErrSkipped)
          else Some (errorf [L ''scan: scorecard.Run: '', W e]))"

definition calls_made :: "retry_event list \<Rightarrow> nat" where
  "calls_made tr = length (filter (\<lambda>ev. ev = Called) tr)"

text \<open>
  \<open>run\<close>: the result is the one the last call assigned, which matters only when it
  succeeded.  \<open>ctx\<close> gives the error of the context when it ends during a sleep.
\<close>

definition engine_run ::
  "('p, 'k, 't) engine_deps \<Rightarrow> (int \<Rightarrow> err option) \<Rightarrow> 'l engine_scanner \<Rightarrow> 'p \<Rightarrow> string \<Rightarrow> string list
     \<Rightarrow> ('k, 't) raw_result res \<times> nat" where
  "engine_run D ctx s repo commit_sha checks =
     (let outcome = (\<lambda>i. ed_run D (nat i) repo commit_sha checks)
      in case retry (es_backoff s) ctx (\<lambda>i. run_attempt D (outcome i)) of
          (Some e, tr) \<Rightarrow> (Inl e, calls_made tr)
        | (None, tr) \<Rightarrow> (outcome (int (calls_made tr) - 1), calls_made tr))"

text \<open>The rest of \<open>Scan\<close>, from the outcome of \<open>run\<close> to the result.\<close>

definition scan_report ::
  "('p, 'k, 't) engine_deps \<Rightarrow> ('k, 't) raw_result res \<Rightarrow> scan_result res" where
  "scan_report D outcome =
     (case outcome of
        Inl e \<Rightarrow> if is_skipped e then Inl ErrSkipped else Inl e
      | Inr res \<Rightarrow>
      case ed_as_json2 D (res\<lparr>rr_checks := sort_key fst (rr_checks res)\<rparr>) of
        Inl e \<Rightarrow> Inl (errorf [L ''scan: formatting JSON2: '', W e])
      | Inr buf \<Rightarrow>
      case model_parse (ed_unmarshal D) buf of
        Inl e \<Rightarrow> Inl (errorf [L ''scan: parsing produced JSON2: '', W e])
      | Inr parsed \<Rightarrow>
          Inr \<lparr>sr_resolved = ri_commit (rs_repo parsed), sr_json2 = buf,
               sr_complete = scan_complete (rs_checks parsed)\<rparr>)"

definition engine_scan ::
  "('p, 'k, 't) engine_deps \<Rightarrow> (limit \<Rightarrow> int \<Rightarrow> 'l) \<Rightarrow> ('l \<Rightarrow> err option \<times> 'l) \<Rightarrow> (int \<Rightarrow> err option)
     \<Rightarrow> 'l engine_scanner \<Rightarrow> repo_ref \<Rightarrow> string \<Rightarrow> scan_result res \<times> 'l engine_scanner" where
  "engine_scan D nl wait ctx s0 r commit =
     (case limiter_wait nl wait (es_limiter s0) (rf_host r) of
        (werr, lmt) \<Rightarrow>
        let s = s0\<lparr>es_limiter := lmt\<rparr>
        in (case werr of
              Some e \<Rightarrow> Inl e
            | None \<Rightarrow>
            case repo_client D r of
              Inl e \<Rightarrow> Inl e
            | Inr repo \<Rightarrow>
            let commit_sha = (if commit \<noteq> [] then commit else ed_head_sha D);
                commit_based = (commit \<noteq> [])
            in case ed_get_enabled D (es_checks s) commit_based repo of
              Inl e \<Rightarrow> Inl (errorf [L ''scan: policy.GetEnabled: '', W e])
            | Inr checks \<Rightarrow>
            scan_report D (fst (engine_run D ctx s repo commit_sha checks)),
            s))"

lemma engine_scan_coherent:
  "fst (engine_scan D nl w ctx s0 r c) = Inr x \<Longrightarrow>
     \<exists>p. model_parse (ed_unmarshal D) (sr_json2 x) = Inr p \<and> sr_resolved x = ri_commit (rs_repo p) \<and>
         sr_complete x = scan_complete (rs_checks p)"
  by (auto simp: engine_scan_def scan_report_def Let_def split: prod.splits option.splits sum.splits if_splits)

interpretation engine: scanner "model_parse (ed_unmarshal D)"
  "\<lambda>r c. fst (engine_scan D nl w ctx s0 r c)" for D nl w ctx s0
  by unfold_locales (rule engine_scan_coherent)

lemma calls_made_trace [simp]: "calls_made (call_trace cfg n) = n"
  by (induction n) (auto simp: calls_made_def)

lemma calls_made_snoc [simp]: "calls_made (tr @ [Slept d]) = calls_made tr"
  by (simp add: calls_made_def)

lemma find_permanent_errorf [simp]:
  "find_permanent (errorf [L s, W e]) = find_permanent e"
  by (auto simp: errorf_def split: option.splits)

section \<open>The test scanner\<close>

record fake_scanner =
  fk_scan :: "(repo_ref \<Rightarrow> string \<Rightarrow> scan_result res) option"
  fk_calls :: nat

definition fake_scan :: "fake_scanner \<Rightarrow> repo_ref \<Rightarrow> string \<Rightarrow> scan_result res \<times> fake_scanner" where
  "fake_scan f r commit =
     (let f' = f\<lparr>fk_calls := fk_calls f + 1\<rparr>
      in case fk_scan f' of
          Some g \<Rightarrow> (g r commit, f')
        | None \<Rightarrow> (Inr \<lparr>sr_resolved = commit, sr_json2 = [CHR ''{'', CHR 0x22] @ ''score'' @
                          [CHR 0x22] @ '':0.0}'', sr_complete = True\<rparr>, f'))"

section \<open>Properties of the engine\<close>

text \<open>
  The steps of \<open>Scan\<close> before \<open>scorecard.Run\<close> succeed, with this repository and these
  checks; and its first \<open>n\<close> runs fail with errors that may be retried.
\<close>

definition scan_prepared ::
  "('p, 'k, 't) engine_deps \<Rightarrow> (limit \<Rightarrow> int \<Rightarrow> 'l) \<Rightarrow> ('l \<Rightarrow> err option \<times> 'l) \<Rightarrow> 'l engine_scanner
     \<Rightarrow> repo_ref \<Rightarrow> string \<Rightarrow> 'p \<Rightarrow> string list \<Rightarrow> bool" where
  "scan_prepared D nl w s0 r c repo checks \<longleftrightarrow>
     fst (limiter_wait nl w (es_limiter s0) (rf_host r)) = None \<and> repo_client D r = Inr repo \<and>
     ed_get_enabled D (es_checks s0) (c \<noteq> []) repo = Inr checks"

definition runs_fail ::
  "('p, 'k, 't) engine_deps \<Rightarrow> (int \<Rightarrow> err option) \<Rightarrow> 'p \<Rightarrow> string \<Rightarrow> string list \<Rightarrow> nat \<Rightarrow> bool" where
  "runs_fail D ctx repo c checks n \<longleftrightarrow>
     (\<forall>i < n. (\<exists>e. ed_run D i repo (if c \<noteq> [] then c else ed_head_sha D) checks = Inl e \<and>
                   \<not> is_skip D e \<and> find_permanent e = None) \<and> (0 < i \<longrightarrow> ctx (int i) = None))"

lemma engine_run_at:
  assumes "runs_fail D ctx repo c checks n" "int n < bc_max_attempts (es_backoff s)"
    "n = 0 \<or> ctx (int n) = None"
  shows "ed_run D n repo (if c \<noteq> [] then c else ed_head_sha D) checks = Inr res \<Longrightarrow>
           engine_run D ctx s repo (if c \<noteq> [] then c else ed_head_sha D) checks = (Inr res, n + 1)"
    and "ed_run D n repo (if c \<noteq> [] then c else ed_head_sha D) checks = Inl e \<Longrightarrow> is_skip D e \<Longrightarrow>
           engine_run D ctx s repo (if c \<noteq> [] then c else ed_head_sha D) checks = (Inl ErrSkipped, n + 1)"
proof -
  let ?sha = "if c \<noteq> [] then c else ed_head_sha D"
  let ?fn = "\<lambda>i. run_attempt D (ed_run D (nat i) repo ?sha checks)"
  have f: "fails_until ctx ?fn n"
    using assms(1) unfolding runs_fail_def fails_until_def run_attempt_def by fastforce
  show "engine_run D ctx s repo ?sha checks = (Inr res, n + 1)"
    if "ed_run D n repo ?sha checks = Inr res"
    using retry_success [OF f assms(2,3)] that
    by (auto simp: engine_run_def run_attempt_def Let_def simp del: call_trace.simps)
  show "engine_run D ctx s repo ?sha checks = (Inl ErrSkipped, n + 1)"
    if "ed_run D n repo ?sha checks = Inl e" "is_skip D e"
    using retry_permanent [OF f assms(2,3)] that
    by (auto simp: engine_run_def run_attempt_def permanent_def Let_def simp del: call_trace.simps)
qed

lemma engine_scan_prepared:
  assumes "scan_prepared D nl w s0 r c repo checks"
  shows "fst (engine_scan D nl w ctx s0 r c) =
    scan_report D (fst (engine_run D ctx s0 repo (if c \<noteq> [] then c else ed_head_sha D) checks))"
proof -
  obtain lmt where "limiter_wait nl w (es_limiter s0) (rf_host r) = (None, lmt)"
    using assms by (cases "limiter_wait nl w (es_limiter s0) (rf_host r)") (auto simp: scan_prepared_def)
  then show ?thesis
    using assms by (simp add: engine_scan_def scan_prepared_def engine_run_def Let_def)
qed

text \<open>
  A live scan retries transient failures and nothing else: after \<open>n\<close> failed runs, a
  run that skips the repository ends the scan with \<open>ErrSkipped\<close> and without another
  run, and a run that succeeds gives the JSON2 document of its result with the checks
  sorted by name, the commit that document names, and the completeness its own scores
  have.
\<close>

theorem engine_scan_attempts:
  assumes "scan_prepared D nl w s0 r c repo checks" "runs_fail D ctx repo c checks n"
    and "int n < bc_max_attempts (es_backoff s0)" "n = 0 \<or> ctx (int n) = None"
  shows "(\<forall>e. ed_run D n repo (if c \<noteq> [] then c else ed_head_sha D) checks = Inl e \<and> is_skip D e \<longrightarrow>
            fst (engine_scan D nl w ctx s0 r c) = Inl ErrSkipped) \<and>
    (\<forall>res buf p. ed_run D n repo (if c \<noteq> [] then c else ed_head_sha D) checks = Inr res \<and>
        ed_as_json2 D (res\<lparr>rr_checks := sort_key fst (rr_checks res)\<rparr>) = Inr buf \<and>
        ed_unmarshal D buf = Inr p \<longrightarrow>
       fst (engine_scan D nl w ctx s0 r c) =
         Inr \<lparr>sr_resolved = ri_commit (rs_repo p), sr_json2 = buf,
              sr_complete = (\<forall>k \<in> set (rs_checks p). 0 \<le> ck_score k)\<rparr>)"
proof -
  note run = engine_run_at [OF assms(2-4)]
  show ?thesis
  proof (intro conjI allI impI)
    show "fst (engine_scan D nl w ctx s0 r c) = Inl ErrSkipped"
      if "ed_run D n repo (if c \<noteq> [] then c else ed_head_sha D) checks = Inl e \<and> is_skip D e" for e
      unfolding engine_scan_prepared [OF assms(1)]
      using run(2) that by (simp add: scan_report_def ErrSkipped_def)
    show "fst (engine_scan D nl w ctx s0 r c) =
         Inr \<lparr>sr_resolved = ri_commit (rs_repo p), sr_json2 = buf,
              sr_complete = (\<forall>k \<in> set (rs_checks p). 0 \<le> ck_score k)\<rparr>"
      if "ed_run D n repo (if c \<noteq> [] then c else ed_head_sha D) checks = Inr res \<and>
        ed_as_json2 D (res\<lparr>rr_checks := sort_key fst (rr_checks res)\<rparr>) = Inr buf \<and>
        ed_unmarshal D buf = Inr p" for res buf p
      unfolding engine_scan_prepared [OF assms(1)]
      using run(1) that by (simp add: scan_report_def model_parse_def)
  qed
qed

definition wdeps :: "(string, unit, unit) engine_deps" where
  "wdeps =
     \<lparr>ed_make_gitlab = Inr, ed_gitlab_client = (\<lambda>_. None), ed_make_github = Inr,
      ed_head_sha = ''HEAD'', ed_get_enabled = (\<lambda>cs b repo. Inr [''License'', ''Binary'']),
      ed_run = (\<lambda>n repo sha cs. if n = 0 then Inl (Sentinel ''bad gateway'')
                 else Inl (Sentinel ''repo unreachable'')),
      ed_as_json2 = (\<lambda>r. Inl (Sentinel ''unused'')),
      ed_unreachable = errors_is ''repo unreachable'',
      ed_unmarshal = (\<lambda>s. Inl (Sentinel ''unused''))\<rparr>"

definition wengine :: "unit engine_scanner" where
  "wengine = \<lparr>es_limiter = new_host_limiter 0 0, es_checks = [], es_backoff = default_backoff\<rparr>"

theorem engine_scan_attempts_witness:
  "fst (engine_scan wdeps (\<lambda>_ _. ()) (\<lambda>l. (None, l)) (\<lambda>_. None) wengine wref []) = Inl ErrSkipped"
proof -
  have p: "scan_prepared wdeps (\<lambda>_ _. ()) (\<lambda>l. (None, l)) wengine wref []
             ''github.com/ossf/scorecard'' [''License'', ''Binary'']"
    by (simp add: scan_prepared_def limiter_wait_def limiter_for_def wengine_def new_host_limiter_def
        repo_client_def wdeps_def wref_def host_defs ref_name_def Let_def)
  have f: "runs_fail wdeps (\<lambda>_. None) ''github.com/ossf/scorecard'' [] [''License'', ''Binary''] 1"
    by (simp add: runs_fail_def wdeps_def is_skip_def ipAllowListMarker_def sublist_code)
  have sk: "ed_run wdeps 1 ''github.com/ossf/scorecard'' (ed_head_sha wdeps) [''License'', ''Binary''] =
              Inl (Sentinel ''repo unreachable'')" "is_skip wdeps (Sentinel ''repo unreachable'')"
    by (simp_all add: wdeps_def is_skip_def)
  show ?thesis
    using engine_scan_attempts [OF p f] sk by (simp add: wengine_def default_backoff_def)
qed

end
