(* ===== verification/Fallback.thy ===== *)
theory Fallback
  imports ScanEngine
begin

text \<open>
  \<open>internal/fallback/fallback.go\<close>: fetching the latest result of a repository from an
  upstream Scorecard API.  The HTTP transport is a parameter.
\<close>

section \<open>HTTP\<close>

record http_request =
  rq_method :: string
  rq_url :: string
  rq_accept :: string

text \<open>
  A response: its status code and what its body yields, the bytes read before the
  end of the stream or before a read error.
\<close>

record http_response =
  rp_status :: int
  rp_body :: string
  rp_body_error :: "err option"

text \<open>\<open>io.ReadAll(io.LimitReader(body, n))\<close>: an error after the limit is never reached.\<close>

definition read_limited :: "nat \<Rightarrow> http_response \<Rightarrow> string res" where
  "read_limited n resp =
     (if n \<le> length (rp_body resp) then Inr (take n (rp_body resp))
      else case rp_body_error resp of Some e \<Rightarrow> Inl e | None \<Rightarrow> Inr (rp_body resp))"

section \<open>The client\<close>

definition ErrFallbackMiss :: err where
  "ErrFallbackMiss = Sentinel ''fallback: no usable upstream result''"

abbreviation is_fallback_miss :: "err \<Rightarrow> bool" where
  "is_fallback_miss \<equiv> errors_is ''fallback: no usable upstream result''"

definition errUpstreamStatus :: err where
  "errUpstreamStatus = Sentinel ''fallback: unexpected upstream status''"

definition maxResponseBytes :: nat where "maxResponseBytes = 8 * 2 ^ 20"

record fallback_client =
  fb_base_url :: string
  fb_timeout :: duration
  fb_max_age :: duration

definition new_fallback_client :: "string \<Rightarrow> duration \<Rightarrow> duration \<Rightarrow> fallback_client" where
  "new_fallback_client base_url timeout max_age =
     \<lparr>fb_base_url = trim_right_char CHR ''/'' base_url, fb_timeout = timeout, fb_max_age = max_age\<rparr>"

definition stale :: "fallback_client \<Rightarrow> instant \<Rightarrow> string \<Rightarrow> bool" where
  "stale c now date =
     (case parse_rfc3339 date of
        None \<Rightarrow> True
      | Some t \<Rightarrow> fb_max_age c < time_sub now t)"

definition projects_request :: "fallback_client \<Rightarrow> repo_ref \<Rightarrow> http_request" where
  "projects_request c r =
     \<lparr>rq_method = ''GET'',
      rq_url = fb_base_url c @ ''/projects/'' @ rf_host r @ ''/'' @ rf_org r @ ''/'' @ rf_repo r,
      rq_accept = ''application/json''\<rparr>"

text \<open>What \<open>Fetch\<close> makes of a response.\<close>

definition fetch_response ::
  "unmarshal \<Rightarrow> fallback_client \<Rightarrow> instant \<Rightarrow> repo_ref \<Rightarrow> http_response \<Rightarrow> scan_result res" where
  "fetch_response unmarshal c now r resp =
     (if rp_status resp = 404 then Inl ErrFallbackMiss
      else if rp_status resp \<noteq> 200 then
        Inl (errorf [W errUpstreamStatus, L '' '', L (itoa (rp_status resp)), L '' for '', L (ref_name r)])
      else
        (case read_limited maxResponseBytes resp of
           Inl e \<Rightarrow> Inl (errorf [L ''fallback: reading response for '', L (ref_name r), L '': '', W e])
         | Inr body \<Rightarrow>
         case model_parse unmarshal body of
           Inl e \<Rightarrow> Inl (errorf [L ''fallback: parsing upstream result for '', L (ref_name r), L '': '', W e])
         | Inr parsed \<Rightarrow>
           if stale c now (rs_date parsed) then Inl ErrFallbackMiss
           else Inr \<lparr>sr_resolved = ri_commit (rs_repo parsed), sr_json2 = body,
                     sr_complete = scan_complete (rs_checks parsed)\<rparr>))"

text \<open>
  \<open>Fetch\<close>; \<open>new_request\<close> is the error of \<open>http.NewRequestWithContext\<close> for a URL and
  \<open>http_do\<close> the outcome of sending the request.
\<close>

definition fetch ::
  "(string \<Rightarrow> err option) \<Rightarrow> (http_request \<Rightarrow> http_response res) \<Rightarrow> unmarshal \<Rightarrow> fallback_client
     \<Rightarrow> instant \<Rightarrow> repo_ref \<Rightarrow> scan_result res" where
  "fetch new_request http_do unmarshal c now r =
     (case new_request (rq_url (projects_request c r)) of
        Some e \<Rightarrow> Inl (errorf [L ''fallback: building request: '', W e])
      | None \<Rightarrow>
      case http_do (projects_request c r) of
        Inl e \<Rightarrow> Inl (errorf [L ''fallback: requesting '', L (ref_name r), L '': '', W e])
      | Inr resp \<Rightarrow> fetch_response unmarshal c now r resp)"

lemma fetch_response_Inr:
  assumes "fetch_response u c now r resp = Inr s"
  shows "rp_status resp = 200 \<and> prefix (sr_json2 s) (rp_body resp) \<and>
    length (sr_json2 s) \<le> maxResponseBytes \<and>
    (\<exists>p t. u (sr_json2 s) = Inr p \<and> sr_resolved s = ri_commit (rs_repo p) \<and>
      sr_complete s = scan_complete (rs_checks p) \<and>
      parse_rfc3339 (rs_date p) = Some t \<and> time_sub now t \<le> fb_max_age c)"
  using assms
  by (auto simp: fetch_response_def stale_def read_limited_def take_is_prefix
      split: option.splits sum.splits if_splits)

lemma fetch_Inr:
  "fetch nr http u c now r = Inr s \<Longrightarrow> \<exists>resp. fetch_response u c now r resp = Inr s"
  by (auto simp: fetch_def split: option.splits sum.splits)

lemma fetch_coherent:
  assumes "fetch nr http u c now r = Inr s"
  shows "\<exists>p. model_parse u (sr_json2 s) = Inr p \<and> sr_resolved s = ri_commit (rs_repo p) \<and>
    sr_complete s = scan_complete (rs_checks p)"
proof -
  from fetch_Inr [OF assms] obtain resp where "fetch_response u c now r resp = Inr s" ..
  from fetch_response_Inr [OF this] show ?thesis unfolding model_parse_Inr by blast
qed

text \<open>The upstream is a producer of results with the same contract as a scanner.\<close>

interpretation upstream: scanner "model_parse u" "\<lambda>r c. fetch nr http u cl now r"
  for u nr http cl now
  by unfold_locales (rule fetch_coherent)

section \<open>Properties\<close>

text \<open>
  Only usable upstream results are used: a fetched result was answered with status
  200 by the \<open>/projects\<close> endpoint of the repository, is a JSON2 document of at most
  8 MiB dated at most the maximum age before now, and carries that document's commit and
  completeness; a 404 and a document that is too old, or without an RFC 3339 date, are
  the miss that lets the caller scan.
\<close>

theorem fetch_usable:
  assumes "new_request (rq_url (projects_request c r)) = None"
    and "http_do (projects_request c r) = Inr resp"
  shows "(\<forall>s. fetch new_request http_do u c now r = Inr s \<longrightarrow>
            rp_status resp = 200 \<and> length (sr_json2 s) \<le> maxResponseBytes \<and>
            prefix (sr_json2 s) (rp_body resp) \<and>
            (\<exists>p t. u (sr_json2 s) = Inr p \<and> sr_resolved s = ri_commit (rs_repo p) \<and>
               (sr_complete s \<longleftrightarrow> (\<forall>k \<in> set (rs_checks p). 0 \<le> ck_score k)) \<and>
               parse_rfc3339 (rs_date p) = Some t \<and> time_sub now t \<le> fb_max_age c)) \<and>
    (rp_status resp = 404 \<longrightarrow> fetch new_request http_do u c now r = Inl ErrFallbackMiss) \<and>
    (\<forall>body p. rp_status resp = 200 \<and> read_limited maxResponseBytes resp = Inr body \<and> u body = Inr p \<and>
       (\<forall>t. parse_rfc3339 (rs_date p) = Some t \<longrightarrow> fb_max_age c < time_sub now t) \<longrightarrow>
       fetch new_request http_do u c now r = Inl ErrFallbackMiss)"
proof -
  have eq: "fetch new_request http_do u c now r = fetch_response u c now r resp"
    by (simp add: fetch_def assms)
  have "fetch_response u c now r resp = Inl ErrFallbackMiss"
    if "rp_status resp = 200" "read_limited maxResponseBytes resp = Inr body" "u body = Inr p"
      "\<forall>t. parse_rfc3339 (rs_date p) = Some t \<longrightarrow> fb_max_age c < time_sub now t" for body p
    using that by (auto simp: fetch_response_def model_parse_def stale_def split: option.splits)
  moreover have "fetch_response u c now r resp = Inl ErrFallbackMiss" if "rp_status resp = 404"
    using that by (simp add: fetch_response_def)
  moreover note fetch_response_Inr [of u c now r resp]
  ultimately show ?thesis unfolding eq scan_complete_iff by blast
qed

definition wresult :: "string \<Rightarrow> string \<Rightarrow> result" where
  "wresult date commit =
     \<lparr>rs_date = date, rs_repo = \<lparr>ri_name = ''github.com/ossf/scorecard'', ri_commit = commit\<rparr>,
      rs_scorecard = \<lparr>sc_version = ''v5'', sc_commit = []\<rparr>, rs_score = 9, rs_checks = [],
      rs_metadata = []\<rparr>"

theorem fetch_usable_witness:
  "fetch (\<lambda>_. None) (\<lambda>_. Inr \<lparr>rp_status = 200, rp_body = ''{}'', rp_body_error = None\<rparr>)
     (\<lambda>_. Inr (wresult ''2026-03-01'' wsha)) (new_fallback_client ''https://api.scorecard.dev/'' 0 hour_ns)
     0 wref = Inl ErrFallbackMiss"
proof -
  let ?resp = "\<lparr>rp_status = 200, rp_body = ''{}'', rp_body_error = None\<rparr>"
  have d: "parse_rfc3339 ''2026-03-01'' = None" by code_simp
  have r: "read_limited maxResponseBytes ?resp = Inr ''{}''"
    by (simp add: read_limited_def maxResponseBytes_def)
  show ?thesis
    using fetch_usable [of "\<lambda>_. None" "new_fallback_client ''https://api.scorecard.dev/'' 0 hour_ns" wref
        "\<lambda>_. Inr ?resp" ?resp "\<lambda>_. Inr (wresult ''2026-03-01'' wsha)" 0] d r
    by (auto simp: wresult_def)
qed

text \<open>
  A result as the cron job publishes it is never used: its date is a calendar day
  (\<open>2006-01-02\<close>), which is not an RFC 3339 time, so every fetch of one is a miss
  whatever its age.
\<close>

theorem date_only_results_are_stale:
  assumes "valid_civil d" "\<forall>body p. u body = Inr p \<longrightarrow> rs_date p = format_date d"
  shows "\<not> is_ok (fetch new_request http_do u c now r)"
proof
  assume "is_ok (fetch new_request http_do u c now r)"
  then obtain s where "fetch new_request http_do u c now r = Inr s"
    by (cases "fetch new_request http_do u c now r") auto
  then obtain resp where "fetch_response u c now r resp = Inr s" using fetch_Inr by blast
  with fetch_response_Inr [OF this] assms show False by (auto simp: parse_rfc3339_date)
qed

theorem date_only_results_are_stale_witness:
  "\<not> is_ok (fetch (\<lambda>_. None) (\<lambda>_. Inr \<lparr>rp_status = 200, rp_body = ''{}'', rp_body_error = None\<rparr>)
     (\<lambda>_. Inr (wresult ''2026-03-01'' wsha)) (new_fallback_client ''https://api.scorecard.dev/'' 0 hour_ns)
     0 wref)"
proof -
  let ?d = "\<lparr>year = 2026, month = 3, day = 1, hour = 0, minute = 0, second = 0, nanos = 0\<rparr>"
  have v: "valid_civil ?d" by (simp add: valid_civil_def days_in_def)
  have f: "format_date ?d = ''2026-03-01''"
    by (simp add: format_date_def fmt_year_def two_def pad0_def itoa_nat.simps digit_char_def)
  have "rs_date (wresult ''2026-03-01'' wsha) = format_date ?d" unfolding f by (simp add: wresult_def)
  then show ?thesis by (intro date_only_results_are_stale [OF v]) simp
qed

end
