(* ===== verification/Flags.thy ===== *)
theory Flags
  imports ResultStore
begin

text \<open>
  \<open>internal/flags/flags.go\<close>: runtime feature flags seeded from the environment.  The
  OpenFeature SDK is a parameter: the outcome of setting the provider, and the
  evaluation of a flag by a client of the in-memory provider.
\<close>

section \<open>Definitions of flags\<close>

text \<open>A value of the Go type \<open>any\<close>, as far as the type assertions tell it apart.\<close>

datatype any = AnyBool bool | AnyString string | AnyOther

definition ProviderStatic :: string where "ProviderStatic = ''static''"
definition defaultDomain :: string where "defaultDomain = ''scorecard-api''"
definition envPrefix :: string where "envPrefix = ''SCORECARD_FLAG_''"

definition errUnknownProvider :: err where "errUnknownProvider = Sentinel ''flags: unknown provider''"
definition errInvalidValue :: err where "errInvalidValue = Sentinel ''flags: invalid flag value''"
definition errUnknownKind :: err where "errUnknownKind = Sentinel ''flags: unknown flag kind''"

definition KindBool :: int where "KindBool = 0"
definition KindString :: int where "KindString = 1"

record flag_definition =
  fd_default :: any
  fd_key :: string
  fd_env :: string
  fd_allowed :: "string list"
  fd_kind :: int

record flags_config =
  fc_provider :: string
  fc_domain :: string

text \<open>The one variant an in-memory flag is seeded with, by key.\<close>

type_synonym seeded = "string \<rightharpoonup> any"

section \<open>Seeding\<close>

definition env_name :: "flag_definition \<Rightarrow> string" where
  "env_name d =
     (if fd_env d \<noteq> [] then fd_env d
      else envPrefix @ to_upper_ascii (replace_char CHR ''-'' CHR ''_''
             (replace_char CHR ''.'' CHR ''_'' (fd_key d))))"

fun allowed_loop :: "string \<Rightarrow> string list \<Rightarrow> bool" where
  "allowed_loop v [] = False"
| "allowed_loop v (a # as) = (if v = a then True else allowed_loop v as)"

definition validate_allowed :: "flag_definition \<Rightarrow> string \<Rightarrow> err option" where
  "validate_allowed d v =
     (if fd_allowed d = [] then None
      else if allowed_loop v (fd_allowed d) then None
      else Some (errorf [W errInvalidValue, L '': '', L (env_name d), L ''='', L (quote v),
                         L '' is not one of ['', L (join '' '' (fd_allowed d)), L '']'']))"

definition resolve :: "(string \<Rightarrow> string) \<Rightarrow> flag_definition \<Rightarrow> any res" where
  "resolve getenv d =
     (let raw = getenv (env_name d)
      in if fd_kind d = KindBool then
           (if raw = [] then
              (case fd_default d of
                 AnyBool b \<Rightarrow> Inr (AnyBool b)
               | _ \<Rightarrow> Inl (errorf [W errInvalidValue, L '': default for '', L (quote (fd_key d)),
                                L '' is not a bool'']))
            else case parse_bool raw of
                None \<Rightarrow> Inl (errorf [W errInvalidValue, L '': '', L (env_name d), L ''='',
                                   L (quote raw), L '' is not a boolean''])
              | Some v \<Rightarrow> Inr (AnyBool v))
         else if fd_kind d = KindString then
           (case fd_default d of
              AnyString v0 \<Rightarrow>
                (let v = (if raw \<noteq> [] then raw else v0)
                 in case validate_allowed d v of
                     Some e \<Rightarrow> Inl e
                   | None \<Rightarrow> Inr (AnyString v))
            | _ \<Rightarrow> Inl (errorf [W errInvalidValue, L '': default for '', L (quote (fd_key d)),
                             L '' is not a string'']))
         else Inl (errorf [W errUnknownKind, L '': '', L (itoa (fd_kind d)), L '' for '',
                           L (quote (fd_key d))]))"

fun seed_loop :: "(string \<Rightarrow> string) \<Rightarrow> flag_definition list \<Rightarrow> seeded \<Rightarrow> seeded res" where
  "seed_loop getenv [] out = Inr out"
| "seed_loop getenv (d # ds) out =
     (case resolve getenv d of
        Inl e \<Rightarrow> Inl e
      | Inr v \<Rightarrow> seed_loop getenv ds (out(fd_key d \<mapsto> v)))"

definition seed :: "(string \<Rightarrow> string) \<Rightarrow> flag_definition list \<Rightarrow> seeded res" where
  "seed getenv defs = seed_loop getenv defs Map.empty"

text \<open>
  \<open>New\<close>; \<open>set_provider domain seeded\<close> is the error, if any, of
  \<open>SetNamedProviderAndWait\<close>.  The result names the domain and what it was seeded with.
\<close>

definition flags_new ::
  "(string \<Rightarrow> seeded \<Rightarrow> err option) \<Rightarrow> (string \<Rightarrow> string) \<Rightarrow> flags_config \<Rightarrow> flag_definition list
     \<Rightarrow> (string \<times> seeded) res" where
  "flags_new set_provider getenv cfg defs =
     (let provider = (if fc_provider cfg = [] then ProviderStatic else fc_provider cfg)
      in if provider \<noteq> ProviderStatic then
           Inl (errorf [W errUnknownProvider, L '': '', L (quote provider), L '' (only '',
                        L (quote ProviderStatic), L '' is supported)''])
         else case seed getenv defs of
             Inl e \<Rightarrow> Inl e
           | Inr seeded \<Rightarrow>
               (let domain = (if fc_domain cfg = [] then defaultDomain else fc_domain cfg)
                in case set_provider domain seeded of
                    Some e \<Rightarrow> Inl (errorf [L ''flags: setting provider: '', W e])
                  | None \<Rightarrow> Inr (domain, seeded)))"

section \<open>Evaluation\<close>

text \<open>\<open>BooleanValue\<close> and \<open>StringValue\<close> of the client, and the two evaluators of \<open>Flags\<close>.\<close>

definition flags_bool :: "(string \<Rightarrow> bool \<Rightarrow> bool res) \<Rightarrow> string \<Rightarrow> bool \<Rightarrow> bool" where
  "flags_bool boolean_value k def =
     (case boolean_value k def of Inl e \<Rightarrow> def | Inr v \<Rightarrow> v)"

definition flags_string :: "(string \<Rightarrow> string \<Rightarrow> string res) \<Rightarrow> string \<Rightarrow> string \<Rightarrow> string" where
  "flags_string string_value k def =
     (case string_value k def of Inl e \<Rightarrow> def | Inr v \<Rightarrow> v)"

text \<open>The interface \<open>FlagSource\<close> through which the orchestrator sees the flags.\<close>

record flag_source =
  fs_bool :: "string \<Rightarrow> bool \<Rightarrow> bool"
  fs_string :: "string \<Rightarrow> string \<Rightarrow> string"

definition flags_source ::
  "(seeded \<Rightarrow> string \<Rightarrow> bool \<Rightarrow> bool res) \<Rightarrow> (seeded \<Rightarrow> string \<Rightarrow> string \<Rightarrow> string res) \<Rightarrow>
     seeded \<Rightarrow> flag_source" where
  "flags_source boolean_value string_value seeded =
     \<lparr>fs_bool = flags_bool (boolean_value seeded), fs_string = flags_string (string_value seeded)\<rparr>"

section \<open>What seeding gives\<close>

lemma allowed_loop_iff [simp]: "allowed_loop v as \<longleftrightarrow> v \<in> set as"
  by (induction as) auto

lemma validate_allowed_None:
  "validate_allowed d v = None \<longleftrightarrow> fd_allowed d = [] \<or> v \<in> set (fd_allowed d)"
  by (simp add: validate_allowed_def)

lemma seed_loop_lookup:
  assumes "seed_loop getenv ds out = Inr m" "d \<in> set ds" "distinct (map fd_key ds)"
  shows "\<exists>v. resolve getenv d = Inr v \<and> m (fd_key d) = Some v"
proof -
  have keep: "seed_loop getenv ds out = Inr m \<Longrightarrow> k \<notin> fd_key ` set ds \<Longrightarrow> m k = out k" for ds out k
    by (induction ds arbitrary: out) (auto split: sum.splits)
  from assms show ?thesis
  proof (induction ds arbitrary: out)
    case (Cons a ds)
    then obtain v where v: "resolve getenv a = Inr v"
      and rest: "seed_loop getenv ds (out(fd_key a \<mapsto> v)) = Inr m"
      by (auto split: sum.splits)
    show ?case
    proof (cases "d = a")
      case True
      then show ?thesis using keep [OF rest, of "fd_key a"] Cons.prems(3) v by auto
    next
      case False
      then show ?thesis using Cons.IH [OF rest] Cons.prems by auto
    qed
  qed simp
qed

lemma flags_new_Inr:
  "flags_new sp getenv cfg defs = Inr (dmn, m) \<Longrightarrow> seed getenv defs = Inr m"
  by (auto simp: flags_new_def Let_def split: if_splits sum.splits option.splits)

lemma flags_new_lookup:
  assumes "flags_new sp getenv cfg defs = Inr (dmn, m)" "d \<in> set defs" "distinct (map fd_key defs)"
  obtains v where "resolve getenv d = Inr v" "m (fd_key d) = Some v"
  using seed_loop_lookup [OF flags_new_Inr [OF assms(1), unfolded seed_def] assms(2,3)] by blast

text \<open>What a client of the in-memory provider documents.\<close>

locale flag_client =
  fixes boolean_value :: "seeded \<Rightarrow> string \<Rightarrow> bool \<Rightarrow> bool res"
    and string_value :: "seeded \<Rightarrow> string \<Rightarrow> string \<Rightarrow> string res"
  assumes bool_seeded: "m k = Some (AnyBool b) \<Longrightarrow> boolean_value m k d = Inr b"
    and string_seeded: "m k = Some (AnyString s) \<Longrightarrow> string_value m k d' = Inr s"
    and bool_mismatch: "(\<And>b. m k \<noteq> Some (AnyBool b)) \<Longrightarrow> \<not> is_ok (boolean_value m k d)"
    and string_mismatch: "(\<And>s. m k \<noteq> Some (AnyString s)) \<Longrightarrow> \<not> is_ok (string_value m k d')"
begin

lemma bool_eval:
  "fs_bool (flags_source boolean_value string_value m) k d =
     (case m k of Some (AnyBool b) \<Rightarrow> b | _ \<Rightarrow> d)"
proof (cases "\<exists>b. m k = Some (AnyBool b)")
  case True
  then show ?thesis by (auto simp: flags_source_def flags_bool_def bool_seeded)
next
  case False
  then have "\<not> is_ok (boolean_value m k d)" by (intro bool_mismatch) auto
  with False show ?thesis
    by (auto simp: flags_source_def flags_bool_def split: sum.splits option.splits any.splits)
qed

lemma string_eval:
  "fs_string (flags_source boolean_value string_value m) k d =
     (case m k of Some (AnyString s) \<Rightarrow> s | _ \<Rightarrow> d)"
proof (cases "\<exists>s. m k = Some (AnyString s)")
  case True
  then show ?thesis by (auto simp: flags_source_def flags_string_def string_seeded)
next
  case False
  then have "\<not> is_ok (string_value m k d)" by (intro string_mismatch) auto
  with False show ?thesis
    by (auto simp: flags_source_def flags_string_def split: sum.splits option.splits any.splits)
qed

lemma bool_override:
  assumes "flags_new sp getenv cfg defs = Inr (dmn, m)"
    and "d \<in> set defs" "distinct (map fd_key defs)" "fd_kind d = KindBool"
  shows "fs_bool (flags_source boolean_value string_value m) (fd_key d) def =
    (if getenv (env_name d) = [] then fd_default d = AnyBool True
     else parse_bool (getenv (env_name d)) = Some True)"
proof -
  obtain v where "resolve getenv d = Inr v" "m (fd_key d) = Some v"
    by (rule flags_new_lookup [OF assms(1-3)])
  then show ?thesis
    using assms(4)
    by (auto simp: bool_eval resolve_def Let_def split: if_splits any.splits option.splits)
qed

lemma string_allowed:
  assumes "flags_new sp getenv cfg defs = Inr (dmn, m)"
    and "d \<in> set defs" "distinct (map fd_key defs)" "fd_kind d = KindString" "fd_allowed d \<noteq> []"
  shows "fs_string (flags_source boolean_value string_value m) (fd_key d) def \<in> set (fd_allowed d)"
proof -
  obtain v where "resolve getenv d = Inr v" "m (fd_key d) = Some v"
    by (rule flags_new_lookup [OF assms(1-3)])
  then show ?thesis
    using assms(4,5)
    by (auto simp: string_eval resolve_def Let_def KindBool_def KindString_def validate_allowed_None
        split: if_splits any.splits option.splits)
qed

end

text \<open>The provider as its documentation describes it.\<close>

definition mem_boolean_value :: "seeded \<Rightarrow> string \<Rightarrow> bool \<Rightarrow> bool res" where
  "mem_boolean_value m k d =
     (case m k of
        Some (AnyBool b) \<Rightarrow> Inr b
      | Some _ \<Rightarrow> Inl (Sentinel ''TYPE_MISMATCH'')
      | None \<Rightarrow> Inl (Sentinel ''FLAG_NOT_FOUND''))"

definition mem_string_value :: "seeded \<Rightarrow> string \<Rightarrow> string \<Rightarrow> string res" where
  "mem_string_value m k d =
     (case m k of
        Some (AnyString s) \<Rightarrow> Inr s
      | Some _ \<Rightarrow> Inl (Sentinel ''TYPE_MISMATCH'')
      | None \<Rightarrow> Inl (Sentinel ''FLAG_NOT_FOUND''))"

interpretation memflags: flag_client mem_boolean_value mem_string_value
  by unfold_locales
    (auto simp: mem_boolean_value_def mem_string_value_def split: option.splits any.splits)

section \<open>Properties\<close>

text \<open>
  Startup validation of flags: once \<open>New\<close> has returned flags, a boolean flag
  evaluates to its parsed environment override, or to its declared default when the
  variable is unset, whatever default the caller passes; and a string flag with an
  allowed set only ever evaluates to a member of that set.
\<close>

theorem flags_new_evaluates:
  assumes "flag_client bv sv" "flags_new sp getenv cfg defs = Inr (dmn, m)"
    and "d \<in> set defs" "distinct (map fd_key defs)"
  shows "(fd_kind d = KindBool \<longrightarrow>
            fs_bool (flags_source bv sv m) (fd_key d) def =
              (if getenv (env_name d) = [] then fd_default d = AnyBool True
               else parse_bool (getenv (env_name d)) = Some True)) \<and>
         (fd_kind d = KindString \<longrightarrow> fd_allowed d \<noteq> [] \<longrightarrow>
            fs_string (flags_source bv sv m) (fd_key d) def' \<in> set (fd_allowed d))"
  using flag_client.bool_override [OF assms] flag_client.string_allowed [OF assms] by blast

definition wflag :: flag_definition where
  "wflag = \<lparr>fd_default = AnyBool True, fd_key = ''fallback.enabled'', fd_env = [],
            fd_allowed = [], fd_kind = KindBool\<rparr>"

theorem flags_new_evaluates_witness:
  "\<exists>m. flags_new (\<lambda>_ _. None) (\<lambda>v. if v = ''SCORECARD_FLAG_FALLBACK_ENABLED'' then ''false'' else [])
         \<lparr>fc_provider = [], fc_domain = []\<rparr> [wflag] = Inr (defaultDomain, m) \<and>
       \<not> fs_bool (flags_source mem_boolean_value mem_string_value m) ''fallback.enabled'' True"
proof -
  let ?g = "\<lambda>v. if v = ''SCORECARD_FLAG_FALLBACK_ENABLED'' then ''false'' else []"
  have en: "env_name wflag = ''SCORECARD_FLAG_FALLBACK_ENABLED''" by code_simp
  have pb: "parse_bool ''false'' = Some False" by code_simp
  have n: "flags_new (\<lambda>_ _. None) ?g \<lparr>fc_provider = [], fc_domain = []\<rparr> [wflag] =
        Inr (defaultDomain, [''fallback.enabled'' \<mapsto> AnyBool False])"
    by (simp add: flags_new_def seed_def resolve_def en pb Let_def)
       (simp add: wflag_def)
  have "fd_key wflag = ''fallback.enabled''" "fd_kind wflag = KindBool" by (simp_all add: wflag_def)
  with flags_new_evaluates [OF memflags.flag_client_axioms n, of wflag True] n en pb
  show ?thesis by auto
qed

end
