(* ===== verification/Orchestrator.thy ===== *)
theory Orchestrator
  imports Fallback Flags
begin

text \<open>
  \<open>internal/orchestrator/orchestrator.go\<close>: the read-through cache that decides between
  serving a stored result, an upstream one and a live scan.  The first part models one
  request; the second the interleaving of requests that share scans through the
  single-flight group.
\<close>

section \<open>Configuration\<close>

definition FlagEnabled :: string where "FlagEnabled = ''fallback.enabled''"
definition FlagMode :: string where "FlagMode = ''fallback.mode''"
definition ModeFetchFirst :: string where "ModeFetchFirst = ''fetch-first''"
definition ModeSafetyNet :: string where "ModeSafetyNet = ''safety-net''"

lemma modes_distinct [simp]: "ModeFetchFirst \<noteq> ModeSafetyNet" "ModeSafetyNet \<noteq> ModeFetchFirst"
  by (simp_all add: ModeFetchFirst_def ModeSafetyNet_def)

record orch_config =
  oc_ttl :: duration
  oc_sync_timeout :: duration
  oc_scan_timeout :: duration
  oc_retry_after :: duration
  oc_fallback_max_age :: duration
  oc_concurrency :: int

text \<open>
  The orchestrator: the operations of the store's bucket, the scanner, the optional
  fallback and flag source, the clock, the decoder, and the policy.  Loggers only
  print and are left out.
\<close>

record 'b orchestrator =
  or_blob :: "'b blob"
  or_unmarshal :: unmarshal
  or_scan :: "repo_ref \<Rightarrow> string \<Rightarrow> scan_result res"
  or_fallback :: "(repo_ref \<Rightarrow> scan_result res) option"
  or_flags :: "flag_source option"
  or_pool :: bounded
  or_now :: instant
  or_ttl :: duration
  or_sync_timeout :: duration
  or_scan_timeout :: duration
  or_retry_after :: duration
  or_fallback_max_age :: duration

definition new_orchestrator ::
  "'b blob \<Rightarrow> unmarshal \<Rightarrow> (repo_ref \<Rightarrow> string \<Rightarrow> scan_result res) \<Rightarrow> instant \<Rightarrow> orch_config \<Rightarrow>
     ('b orchestrator \<Rightarrow> 'b orchestrator) list \<Rightarrow> 'b orchestrator" where
  "new_orchestrator st u sc now cfg opts =
     fold (\<lambda>opt O1. opt O1) opts
       \<lparr>or_blob = st, or_unmarshal = u, or_scan = sc, or_fallback = None, or_flags = None,
        or_pool = new_bounded (oc_concurrency cfg), or_now = now, or_ttl = oc_ttl cfg,
        or_sync_timeout = (if oc_sync_timeout cfg \<le> 0 then 20 * second_ns else oc_sync_timeout cfg),
        or_scan_timeout = (if oc_scan_timeout cfg \<le> 0 then 5 * minute_ns else oc_scan_timeout cfg),
        or_retry_after = (if oc_retry_after cfg \<le> 0 then 10 * second_ns else oc_retry_after cfg),
        or_fallback_max_age =
          (if oc_fallback_max_age cfg \<le> 0 then 7 * 24 * hour_ns else oc_fallback_max_age cfg)\<rparr>"

definition with_clock :: "instant \<Rightarrow> 'b orchestrator \<Rightarrow> 'b orchestrator" where
  "with_clock now O1 = O1\<lparr>or_now := now\<rparr>"

definition with_fallback ::
  "(repo_ref \<Rightarrow> scan_result res) option \<Rightarrow> 'b orchestrator \<Rightarrow> 'b orchestrator" where
  "with_fallback f O1 = O1\<lparr>or_fallback := f\<rparr>"

definition with_flags :: "flag_source option \<Rightarrow> 'b orchestrator \<Rightarrow> 'b orchestrator" where
  "with_flags f O1 = O1\<lparr>or_flags := f\<rparr>"

text \<open>An \<open>Outcome\<close>: ready with its provenance and body, or to be retried.\<close>

datatype orch_outcome = Ready provenance string | NotReady duration

section \<open>Freshness and the cached outcome\<close>

definition fresh :: "'b orchestrator \<Rightarrow> string \<Rightarrow> origin \<Rightarrow> bool" where
  "fresh O1 body orig =
     (case model_parse (or_unmarshal O1) body of
        Inl e \<Rightarrow> False
      | Inr parsed \<Rightarrow>
          (case parse_rfc3339 (rs_date parsed) of
             None \<Rightarrow> False
           | Some date \<Rightarrow>
               (let window = (if orig = OriginUpstream then or_fallback_max_age O1 else or_ttl O1)
                in time_sub (or_now O1) date \<le> window)))"

definition cached_outcome :: "'b orchestrator \<Rightarrow> string \<Rightarrow> origin \<Rightarrow> orch_outcome res" where
  "cached_outcome O1 body orig =
     (case model_parse (or_unmarshal O1) body of
        Inl e \<Rightarrow> Inl (errorf [L ''orchestrator: parsing cached result: '', W e])
      | Inr parsed \<Rightarrow>
          (let src = (if orig = OriginUpstream then SourceUpstream else SourceCached)
           in Inr (Ready (provenance_from parsed src (scan_complete (rs_checks parsed))) body)))"

section \<open>The upstream fallback\<close>

definition fallback_decision :: "'b orchestrator \<Rightarrow> string \<Rightarrow> string \<times> bool" where
  "fallback_decision O1 commit =
     (if or_fallback O1 = None \<or> commit \<noteq> [] then ([], False)
      else case or_flags O1 of
          None \<Rightarrow> (ModeFetchFirst, True)
        | Some fs \<Rightarrow>
            if \<not> fs_bool fs FlagEnabled True then ([], False)
            else (fs_string fs FlagMode ModeFetchFirst, True))"

definition backfill :: "'b orchestrator \<Rightarrow> 'b \<Rightarrow> repo_ref \<Rightarrow> scan_result \<Rightarrow> 'b" where
  "backfill O1 b r s =
     (if sr_resolved s = [] then
        snd (put_with_origin (or_blob O1) b r [] (sr_json2 s) OriginUpstream)
      else snd (put_latest_and_commit_with_origin (or_blob O1) b r (sr_resolved s) (sr_json2 s)
                  OriginUpstream))"

definition try_fallback :: "'b orchestrator \<Rightarrow> 'b \<Rightarrow> repo_ref \<Rightarrow> orch_outcome option \<times> 'b" where
  "try_fallback O1 b r =
     (case or_fallback O1 of
        None \<Rightarrow> (None, b)
      | Some f \<Rightarrow>
          (case f r of
             Inl e \<Rightarrow> (None, b)
           | Inr s \<Rightarrow>
               (let b' = backfill O1 b r s
                in case model_parse (or_unmarshal O1) (sr_json2 s) of
                    Inl e \<Rightarrow> (None, b')
                  | Inr parsed \<Rightarrow>
                      (Some (Ready (provenance_from parsed SourceUpstream (sr_complete s)) (sr_json2 s)),
                       b'))))"

section \<open>Scanning\<close>

definition persist :: "'b orchestrator \<Rightarrow> 'b \<Rightarrow> repo_ref \<Rightarrow> string \<Rightarrow> scan_result \<Rightarrow> 'b" where
  "persist O1 b r commit s =
     (if commit = [] then snd (put_latest_and_commit (or_blob O1) b r (sr_resolved s) (sr_json2 s))
      else snd (put (or_blob O1) b r commit (sr_json2 s)))"

text \<open>\<open>slot\<close> is the error of the scan's context when it ends before the pool has a slot.\<close>

definition scan_and_store ::
  "'b orchestrator \<Rightarrow> err option \<Rightarrow> 'b \<Rightarrow> repo_ref \<Rightarrow> string \<Rightarrow> orch_outcome res \<times> 'b" where
  "scan_and_store O1 slot b r commit =
     (case bounded_do slot (or_scan O1 r commit) of
        Inl e \<Rightarrow> (Inl e, b)
      | Inr s \<Rightarrow>
          (let b' = persist O1 b r commit s
           in case model_parse (or_unmarshal O1) (sr_json2 s) of
               Inl e \<Rightarrow> (Inl (errorf [L ''orchestrator: parsing produced result: '', W e]), b')
             | Inr parsed \<Rightarrow>
                 (Inr (Ready (provenance_from parsed SourceLive (sr_complete s)) (sr_json2 s)), b')))"

text \<open>
  What the \<open>select\<close> of \<open>scanOutcome\<close> sees first: the shared scan's end, the timer, or
  the end of the request.  In the last two cases the scan goes on in the background.
\<close>

datatype wait_event = ScanDone | TimerFired | RequestDone err

definition await :: "'b orchestrator \<Rightarrow> wait_event \<Rightarrow> orch_outcome res \<Rightarrow> orch_outcome res" where
  "await O1 ev shared =
     (case ev of
        ScanDone \<Rightarrow> shared
      | TimerFired \<Rightarrow> Inr (NotReady (or_retry_after O1))
      | RequestDone e \<Rightarrow> Inl (errorf [L ''orchestrator: request cancelled: '', W e]))"

text \<open>
  \<open>scanOutcome\<close> for a request that starts the scan itself.  The bucket is the one at
  the time the request returns: the scan has written to it if its end was awaited, and
  otherwise \<open>scan_and_store\<close> is still to come (third component).
\<close>

definition scan_outcome ::
  "'b orchestrator \<Rightarrow> wait_event \<Rightarrow> err option \<Rightarrow> 'b \<Rightarrow> repo_ref \<Rightarrow> string
     \<Rightarrow> orch_outcome res \<times> 'b \<times> bool" where
  "scan_outcome O1 ev slot b r commit =
     (case scan_and_store O1 slot b r commit of
        (shared, b') \<Rightarrow>
          (await O1 ev shared, if ev = ScanDone then b' else b, ev \<noteq> ScanDone))"

section \<open>Serving a request\<close>

definition produce ::
  "'b orchestrator \<Rightarrow> wait_event \<Rightarrow> err option \<Rightarrow> 'b \<Rightarrow> repo_ref \<Rightarrow> string
     \<Rightarrow> orch_outcome res \<times> 'b \<times> bool" where
  "produce O1 ev slot b0 r commit =
     (case fallback_decision O1 commit of
        (mode, active) \<Rightarrow>
        case (if active \<and> mode = ModeFetchFirst then try_fallback O1 b0 r else (None, b0)) of
          (Some out, b) \<Rightarrow> (Inr out, b, False)
        | (None, b) \<Rightarrow>
          (case scan_outcome O1 ev slot b r commit of
             (Inr out, b', bg) \<Rightarrow> (Inr out, b', bg)
           | (Inl e, b', bg) \<Rightarrow>
               if active \<and> mode = ModeSafetyNet then
                 (case try_fallback O1 b' r of
                    (Some out, b'') \<Rightarrow> (Inr out, b'', bg)
                  | (None, b'') \<Rightarrow> (Inl e, b'', bg))
               else (Inl e, b', bg)))"

text \<open>
  \<open>err == nil\<close> with a stale result and \<open>ErrNotFound\<close> fall through to \<open>produce\<close>; any
  other error ends the request.
\<close>

definition get_or_produce ::
  "'b orchestrator \<Rightarrow> wait_event \<Rightarrow> err option \<Rightarrow> 'b \<Rightarrow> repo_ref \<Rightarrow> string
     \<Rightarrow> orch_outcome res \<times> 'b \<times> bool" where
  "get_or_produce O1 ev slot b r commit =
     (case get_with_origin (or_blob O1) b r commit of
        Inr (body, orig) \<Rightarrow>
          if commit \<noteq> [] \<or> fresh O1 body orig then (cached_outcome O1 body orig, b, False)
          else produce O1 ev slot b r commit
      | Inl e \<Rightarrow>
          if errors_is ''store: result not found'' e then produce O1 ev slot b r commit
          else (Inl (errorf [L ''orchestrator: store lookup: '', W e]), b, False))"

section \<open>Which keys a request can write\<close>

definition touched :: "'b orchestrator \<Rightarrow> repo_ref \<Rightarrow> string \<Rightarrow> string set" where
  "touched O1 r c =
     {key r [], key r c} \<union>
     {key r (sr_resolved s) |s. or_scan O1 r c = Inr s} \<union>
     {key r (sr_resolved s) |s f. or_fallback O1 = Some f \<and> f r = Inr s}"

text \<open>
  What the orchestrator relies on: the laws of the bucket, and the contract of results
  for its scanner and its upstream.
\<close>

locale orchestrated = blob_api "or_blob O1" + scanner "model_parse (or_unmarshal O1)" "or_scan O1"
  for O1 :: "'b orchestrator" +
  assumes fallback_coherent: "or_fallback O1 = Some f \<Longrightarrow>
    scanner (model_parse (or_unmarshal O1)) (\<lambda>r c. f r)"
begin

lemma put_with_origin_frame:
  "k \<noteq> key r c \<Longrightarrow> k = key r' c' \<Longrightarrow>
     get_with_origin (or_blob O1) (snd (put_with_origin (or_blob O1) b r c x og)) r' c' =
     get_with_origin (or_blob O1) b r' c'"
  unfolding put_with_origin_def by (metis get_other prod.collapse)

lemma put_latest_frame:
  "k \<noteq> key r c \<Longrightarrow> k \<noteq> key r [] \<Longrightarrow> k = key r' c' \<Longrightarrow>
     get_with_origin (or_blob O1) (snd (put_latest_and_commit_with_origin (or_blob O1) b r c x og)) r' c' =
     get_with_origin (or_blob O1) b r' c'"
  by (metis put_latest_other prod.collapse)

lemma try_fallback_frame:
  assumes "key r' c' \<notin> touched O1 r c"
  shows "get_with_origin (or_blob O1) (snd (try_fallback O1 b r)) r' c' =
         get_with_origin (or_blob O1) b r' c'"
proof -
  have "get_with_origin (or_blob O1) (backfill O1 b r s) r' c' = get_with_origin (or_blob O1) b r' c'"
    if "or_fallback O1 = Some f" "f r = Inr s" for f s
  proof -
    have "key r' c' \<noteq> key r []" "key r' c' \<noteq> key r (sr_resolved s)"
      using assms that by (auto simp: touched_def)
    then show ?thesis by (simp add: backfill_def put_with_origin_frame put_latest_frame)
  qed
  then show ?thesis by (auto simp: try_fallback_def Let_def split: option.splits sum.splits)
qed

lemma scan_and_store_frame:
  assumes "key r' c' \<notin> touched O1 r c"
  shows "get_with_origin (or_blob O1) (snd (scan_and_store O1 slot b r c)) r' c' =
         get_with_origin (or_blob O1) b r' c'"
proof -
  have "get_with_origin (or_blob O1) (persist O1 b r c s) r' c' = get_with_origin (or_blob O1) b r' c'"
    if "or_scan O1 r c = Inr s" for s
  proof -
    have "key r' c' \<noteq> key r []" "key r' c' \<noteq> key r c" "key r' c' \<noteq> key r (sr_resolved s)"
      using assms that by (auto simp: touched_def)
    then show ?thesis
      by (simp add: persist_def put_def put_latest_and_commit_def put_with_origin_frame put_latest_frame)
  qed
  then show ?thesis
    by (auto simp: scan_and_store_def bounded_do_def Let_def split: option.splits sum.splits)
qed

lemma scan_outcome_frame:
  assumes "key r' c' \<notin> touched O1 r c"
  shows "get_with_origin (or_blob O1) (fst (snd (scan_outcome O1 ev slot b r c))) r' c' =
         get_with_origin (or_blob O1) b r' c'"
  using scan_and_store_frame [OF assms, of slot b] by (auto simp: scan_outcome_def split: prod.splits)

lemma produce_frame:
  assumes t: "key r' c' \<notin> touched O1 r c"
  shows "get_with_origin (or_blob O1) (fst (snd (produce O1 ev slot b r c))) r' c' =
         get_with_origin (or_blob O1) b r' c'"
proof -
  note fb = try_fallback_frame [OF t] and sc = scan_outcome_frame [OF t]
  obtain mode active where fd: "fallback_decision O1 c = (mode, active)" by fastforce
  obtain pre b1 where p: "(if active \<and> mode = ModeFetchFirst then try_fallback O1 b r else (None, b)) = (pre, b1)"
    by fastforce
  have b1: "get_with_origin (or_blob O1) b1 r' c' = get_with_origin (or_blob O1) b r' c'"
    using p fb [of b] by (auto split: if_splits)
  obtain out b2 bg where so: "scan_outcome O1 ev slot b1 r c = (out, b2, bg)" by (metis prod_cases3)
  have b2: "get_with_origin (or_blob O1) b2 r' c' = get_with_origin (or_blob O1) b r' c'"
    using so sc [of ev slot b1] b1 by simp
  show ?thesis
    using b1 b2 fb [of b2]
    by (auto simp: produce_def fd p so split: option.splits sum.splits prod.splits)
qed

lemma request_frame:
  assumes "key r' c' \<notin> touched O1 r c"
  shows "get_with_origin (or_blob O1) (fst (snd (get_or_produce O1 ev slot b r c))) r' c' =
         get_with_origin (or_blob O1) b r' c'"
  using produce_frame [OF assms]
  by (auto simp: get_or_produce_def split: sum.splits prod.splits)

end

lemma try_fallback_Some:
  "try_fallback O1 b r = (Some out, b') \<longleftrightarrow>
     (\<exists>f s p. or_fallback O1 = Some f \<and> f r = Inr s \<and> or_unmarshal O1 (sr_json2 s) = Inr p \<and>
        b' = backfill O1 b r s \<and>
        out = Ready (provenance_from p SourceUpstream (sr_complete s)) (sr_json2 s))"
  by (auto simp: try_fallback_def Let_def model_parse_def split: option.splits sum.splits)

lemma scan_outcome_Ready:
  "scan_outcome O1 ev slot b r c = (Inr (Ready pv body), b', bg) \<longleftrightarrow>
     ev = ScanDone \<and> slot = None \<and> \<not> bg \<and>
     (\<exists>s p. or_scan O1 r c = Inr s \<and> or_unmarshal O1 (sr_json2 s) = Inr p \<and> body = sr_json2 s \<and>
        pv = provenance_from p SourceLive (sr_complete s) \<and> b' = persist O1 b r c s)"
  by (auto simp: scan_outcome_def scan_and_store_def await_def bounded_do_def Let_def model_parse_def
      split: wait_event.splits option.splits sum.splits prod.splits if_splits)

lemma produce_Ready:
  assumes "produce O1 ev slot b r c = (Inr (Ready pv body), b', bg)"
  shows "(\<exists>b1 mode. fallback_decision O1 c = (mode, True) \<and>
            try_fallback O1 b1 r = (Some (Ready pv body), b')) \<or>
         (\<exists>b1. scan_outcome O1 ev slot b1 r c = (Inr (Ready pv body), b', bg))"
  using assms unfolding produce_def
  by (auto split: prod.splits option.splits sum.splits if_splits)

lemma fallback_decision_active:
  "fallback_decision O1 c = (mode, True) \<Longrightarrow> c = [] \<and> (\<exists>f. or_fallback O1 = Some f) \<and>
     (\<forall>fs. or_flags O1 = Some fs \<longrightarrow> fs_bool fs FlagEnabled True)"
  by (auto simp: fallback_decision_def split: if_splits option.splits)

text \<open>
  What a ready outcome can be: a stored result inside its freshness window (any age for
  a pinned commit), one fetched from the upstream for a latest request, or the result of
  the scan that this request waited for.
\<close>

definition from_store :: "'b orchestrator \<Rightarrow> 'b \<Rightarrow> repo_ref \<Rightarrow> string \<Rightarrow> source \<Rightarrow> string \<Rightarrow> bool" where
  "from_store O1 b r c src body \<longleftrightarrow>
     (\<exists>orig. get_with_origin (or_blob O1) b r c = Inr (body, orig) \<and>
        src = (if orig = OriginUpstream then SourceUpstream else SourceCached) \<and>
        (c = [] \<longrightarrow> (\<exists>p t. or_unmarshal O1 body = Inr p \<and> parse_rfc3339 (rs_date p) = Some t \<and>
            time_sub (or_now O1) t \<le>
              (if orig = OriginUpstream then or_fallback_max_age O1 else or_ttl O1))))"

definition from_upstream :: "'b orchestrator \<Rightarrow> repo_ref \<Rightarrow> string \<Rightarrow> source \<Rightarrow> string \<Rightarrow> bool" where
  "from_upstream O1 r c src body \<longleftrightarrow>
     src = SourceUpstream \<and> c = [] \<and>
     (\<exists>f s. or_fallback O1 = Some f \<and> f r = Inr s \<and> body = sr_json2 s) \<and>
     (\<forall>fs. or_flags O1 = Some fs \<longrightarrow> fs_bool fs FlagEnabled True)"

definition from_scan :: "'b orchestrator \<Rightarrow> wait_event \<Rightarrow> repo_ref \<Rightarrow> string \<Rightarrow> source \<Rightarrow> string \<Rightarrow> bool" where
  "from_scan O1 ev r c src body \<longleftrightarrow>
     src = SourceLive \<and> ev = ScanDone \<and> (\<exists>s. or_scan O1 r c = Inr s \<and> body = sr_json2 s)"

lemma fresh_iff:
  "fresh O1 body orig \<longleftrightarrow>
     (\<exists>p t. or_unmarshal O1 body = Inr p \<and> parse_rfc3339 (rs_date p) = Some t \<and>
        time_sub (or_now O1) t \<le>
          (if orig = OriginUpstream then or_fallback_max_age O1 else or_ttl O1))"
  by (auto simp: fresh_def model_parse_def Let_def split: sum.splits option.splits)

lemma get_or_produce_Ready:
  assumes "get_or_produce O1 ev slot b r c = (Inr (Ready pv body), b', bg)"
  shows "(\<exists>p orig. get_with_origin (or_blob O1) b r c = Inr (body, orig) \<and> (c = [] \<longrightarrow> fresh O1 body orig) \<and>
            or_unmarshal O1 body = Inr p \<and> b' = b \<and>
            pv = provenance_from p (if orig = OriginUpstream then SourceUpstream else SourceCached)
                   (scan_complete (rs_checks p))) \<or>
         produce O1 ev slot b r c = (Inr (Ready pv body), b', bg)"
  using assms
  by (auto simp: get_or_produce_def cached_outcome_def model_parse_def Let_def
      split: sum.splits prod.splits if_splits)

context orchestrated
begin

lemma served_sound:
  assumes "get_or_produce O1 ev slot b r c = (Inr (Ready pv body), b', bg)"
  shows "\<exists>p. or_unmarshal O1 body = Inr p \<and>
    pv = provenance_from p (pv_source pv) (\<forall>k \<in> set (rs_checks p). 0 \<le> ck_score k) \<and>
    (from_store O1 b r c (pv_source pv) body \<or> from_upstream O1 r c (pv_source pv) body \<or>
     from_scan O1 ev r c (pv_source pv) body)"
  using get_or_produce_Ready [OF assms]
proof (elim disjE exE conjE)
  fix p orig
  assume h: "get_with_origin (or_blob O1) b r c = Inr (body, orig)" "c = [] \<longrightarrow> fresh O1 body orig"
    "or_unmarshal O1 body = Inr p"
    "pv = provenance_from p (if orig = OriginUpstream then SourceUpstream else SourceCached)
            (scan_complete (rs_checks p))"
  then have "from_store O1 b r c (pv_source pv) body"
    by (auto simp: from_store_def fresh_iff provenance_from_def)
  with h show ?thesis by (auto simp: provenance_from_def)
next
  assume "produce O1 ev slot b r c = (Inr (Ready pv body), b', bg)"
  from produce_Ready [OF this] show ?thesis
  proof (elim disjE exE conjE)
    fix b1 mode
    assume d: "fallback_decision O1 c = (mode, True)"
      and t: "try_fallback O1 b1 r = (Some (Ready pv body), b')"
    from t obtain f s p where f: "or_fallback O1 = Some f" "f r = Inr s" "or_unmarshal O1 body = Inr p"
      "body = sr_json2 s" "pv = provenance_from p SourceUpstream (sr_complete s)"
      by (auto simp: try_fallback_Some)
    then have "from_upstream O1 r c (pv_source pv) body"
      using fallback_decision_active [OF d] by (auto simp: from_upstream_def provenance_from_def)
    moreover have "sr_complete s = (\<forall>k \<in> set (rs_checks p). 0 \<le> ck_score k)"
      using scanner.scan_complete_iff_conclusive [OF fallback_coherent [OF f(1)] f(2), of p] f by simp
    ultimately show ?thesis using f by (auto simp: provenance_from_def)
  next
    fix b1
    assume "scan_outcome O1 ev slot b1 r c = (Inr (Ready pv body), b', bg)"
    then obtain s p where f: "or_scan O1 r c = Inr s" "or_unmarshal O1 body = Inr p" "ev = ScanDone"
      "body = sr_json2 s" "pv = provenance_from p SourceLive (sr_complete s)"
      by (auto simp: scan_outcome_Ready)
    then have "from_scan O1 ev r c (pv_source pv) body"
      by (auto simp: from_scan_def provenance_from_def)
    moreover have "sr_complete s = (\<forall>k \<in> set (rs_checks p). 0 \<le> ck_score k)"
      using scan_complete_iff_conclusive [OF f(1), of p] f by simp
    ultimately show ?thesis using f by (auto simp: provenance_from_def)
  qed
qed

end

lemma orchestratedI:
  assumes "blob_api (or_blob O1)" "scanner (model_parse (or_unmarshal O1)) (or_scan O1)"
    and "\<And>f. or_fallback O1 = Some f \<Longrightarrow> scanner (model_parse (or_unmarshal O1)) (\<lambda>r c. f r)"
  shows "orchestrated O1"
  using assms by (intro orchestrated.intro orchestrated_axioms.intro)

text \<open>
  The contract holds of the orchestrator that \<open>main\<close> builds: the live engine and the
  upstream client, here over the in-memory bucket.
\<close>

definition live_orchestrator ::
  "('p, 'k, 't) engine_deps \<Rightarrow> (limit \<Rightarrow> int \<Rightarrow> 'l) \<Rightarrow> ('l \<Rightarrow> err option \<times> 'l) \<Rightarrow> (int \<Rightarrow> err option)
     \<Rightarrow> 'l engine_scanner \<Rightarrow> (string \<Rightarrow> err option) \<Rightarrow> (http_request \<Rightarrow> http_response res)
     \<Rightarrow> fallback_client \<Rightarrow> flag_source option \<Rightarrow> instant \<Rightarrow> orch_config \<Rightarrow> 'b blob \<Rightarrow> 'b orchestrator" where
  "live_orchestrator D nl w ctx es nr http fc fs now cfg B =
     new_orchestrator B (ed_unmarshal D) (\<lambda>r c. fst (engine_scan D nl w ctx es r c)) now cfg
       [with_flags fs, with_fallback (Some (fetch nr http (ed_unmarshal D) fc now))]"

lemma live_orchestrated:
  "blob_api B \<Longrightarrow> orchestrated (live_orchestrator D nl w ctx es nr http fc fs now cfg B)"
  by (rule orchestratedI)
    (auto simp: live_orchestrator_def new_orchestrator_def with_fallback_def with_flags_def
      intro: engine.scanner_axioms upstream.scanner_axioms)

interpretation live: orchestrated "live_orchestrator D nl w ctx es nr http fc fs now cfg mem_blob"
  for D nl w ctx es nr http fc fs now cfg
  by (rule live_orchestrated [OF mem.blob_api_axioms])

section \<open>Properties\<close>

text \<open>A small orchestrator for the concrete instances.\<close>

definition open_blob :: "mem_bucket blob" where
  "open_blob = mem_blob\<lparr>bl_write := (\<lambda>b k body opts.
     (None, b\<lparr>mb_objects := (mb_objects b)(k \<mapsto> (body, wo_metadata opts))\<rparr>))\<rparr>"

lemma open_blob_api: "blob_api open_blob"
  by unfold_locales (auto simp: open_blob_def mem_blob_def split: if_splits option.splits)

definition worch :: "instant \<Rightarrow> mem_bucket orchestrator" where
  "worch now =
     \<lparr>or_blob = open_blob,
      or_unmarshal = (\<lambda>s. Inr (wresult ''1970-01-01T00:00:00Z'' wsha)),
      or_scan = (\<lambda>r c. Inr \<lparr>sr_resolved = wsha, sr_json2 = ''live'', sr_complete = True\<rparr>),
      or_fallback = None, or_flags = None, or_pool = new_bounded 1, or_now = now,
      or_ttl = hour_ns, or_sync_timeout = 20 * second_ns, or_scan_timeout = 5 * minute_ns,
      or_retry_after = 10 * second_ns, or_fallback_max_age = 24 * hour_ns\<rparr>"

lemma worch_orchestrated: "orchestrated (worch now)"
proof (rule orchestratedI)
  show "scanner (model_parse (or_unmarshal (worch now))) (or_scan (worch now))"
    by unfold_locales (auto simp: worch_def model_parse_def wresult_def)
qed (auto simp: worch_def intro: open_blob_api)

lemma worch_date: "parse_rfc3339 ''1970-01-01T00:00:00Z'' = Some 0"
  by (simp add: parse_rfc3339_def scan_ymd_def scan_digits_def scan_lit_def dec_val_def
      digit_val_def is_digit_def ord_def scan_hour_def scan_fraction_def scan_zone_def
      instant_of_def days_from_civil_def days_in_def)

text \<open>A first request for the latest result on an empty bucket.\<close>

lemma worch_first:
  "get_or_produce (worch 0) ScanDone None empty_bucket wref [] =
     (Inr (Ready (provenance_from (wresult ''1970-01-01T00:00:00Z'' wsha) SourceLive True) ''live''),
      persist (worch 0) empty_bucket wref [] \<lparr>sr_resolved = wsha, sr_json2 = ''live'', sr_complete = True\<rparr>,
      False)"
proof -
  have "get_with_origin open_blob empty_bucket wref [] = Inl ErrNotFound"
    by (simp add: open_blob_def get_with_origin_def mem_blob_def empty_bucket_def)
  then show ?thesis
    by (simp add: get_or_produce_def produce_def fallback_decision_def scan_outcome_def scan_and_store_def
        bounded_do_def await_def model_parse_def worch_def Let_def)
qed

text \<open>
  C1. Every result the service serves is accounted for: its provenance names the commit,
  date and version of the document it serves, and completeness by that document's own
  scores; a cached or stored upstream result for a latest request is inside its freshness
  window, an upstream one was fetched for a latest request with the fallback enabled, and
  a live one is the result of the scan this request waited for.
\<close>

theorem served_result_sound:
  assumes "orchestrated O1" "get_or_produce O1 ev slot b r c = (Inr (Ready pv body), b', bg)"
  shows "\<exists>p. or_unmarshal O1 body = Inr p \<and>
    pv = provenance_from p (pv_source pv) (\<forall>k \<in> set (rs_checks p). 0 \<le> ck_score k) \<and>
    (from_store O1 b r c (pv_source pv) body \<or> from_upstream O1 r c (pv_source pv) body \<or>
     from_scan O1 ev r c (pv_source pv) body)"
  by (rule orchestrated.served_sound [OF assms])

theorem served_result_sound_witness:
  "from_scan (worch 0) ScanDone wref [] SourceLive ''live''"
  using served_result_sound [OF worch_orchestrated worch_first]
  by (auto simp: provenance_from_def from_store_def from_upstream_def from_scan_def split: if_splits)

text \<open>
  C3. Requests are isolated: as long as the commits that scans and upstream results name
  are commit hashes, a request for one repository, whatever it does, leaves every result
  of every other repository, and every pinned result of the same repository for a commit
  that it did not produce, as it was.
\<close>

theorem requests_isolated:
  assumes "orchestrated O1" "valid_ref r" "valid_commit c" "valid_ref r'" "valid_commit c'"
    and "\<forall>s. or_scan O1 r c = Inr s \<longrightarrow> valid_commit (sr_resolved s)"
    and "\<forall>f s. or_fallback O1 = Some f \<and> f r = Inr s \<longrightarrow> valid_commit (sr_resolved s)"
    and "r' \<noteq> r \<or> c' \<notin> {[], c} \<union> {sr_resolved s |s. or_scan O1 r c = Inr s} \<union>
                    {sr_resolved s |s f. or_fallback O1 = Some f \<and> f r = Inr s}"
  shows "get_with_origin (or_blob O1) (fst (snd (get_or_produce O1 ev slot b r c))) r' c' =
           get_with_origin (or_blob O1) b r' c' \<and>
         get_with_origin (or_blob O1) (snd (scan_and_store O1 slot b r c)) r' c' =
           get_with_origin (or_blob O1) b r' c'"
proof -
  have "key r' c' \<notin> touched O1 r c"
  proof
    assume "key r' c' \<in> touched O1 r c"
    then obtain d where d: "key r' c' = key r d" "valid_commit d"
      "d \<in> {[], c} \<union> {sr_resolved s |s. or_scan O1 r c = Inr s} \<union>
            {sr_resolved s |s f. or_fallback O1 = Some f \<and> f r = Inr s}"
      using assms(3,6,7) by (auto simp: touched_def valid_commit_def)
    from key_inject [OF assms(4,5,2) d(2) d(1)] d(3) assms(8) show False by auto
  qed
  then show ?thesis
    using orchestrated.request_frame [OF assms(1)] orchestrated.scan_and_store_frame [OF assms(1)]
    by blast
qed

theorem requests_isolated_witness:
  "get_with_origin open_blob (fst (snd (get_or_produce (worch 0) ScanDone None empty_bucket wref [])))
     (wref\<lparr>rf_host := HostGitLab\<rparr>) [] = Inl ErrNotFound"
proof -
  have v: "valid_ref (wref\<lparr>rf_host := HostGitLab\<rparr>)" by code_simp
  have n: "get_with_origin open_blob empty_bucket (wref\<lparr>rf_host := HostGitLab\<rparr>) [] = Inl ErrNotFound"
    by (simp add: open_blob_def get_with_origin_def mem_blob_def empty_bucket_def)
  show ?thesis
    using requests_isolated [OF worch_orchestrated wref_valid(1,3) v wref_valid(3), of 0 ScanDone None
        empty_bucket] n wref_valid(2)
    by (auto simp: worch_def wref_def host_defs)
qed

context orchestrated
begin

lemma scan_facts:
  "or_scan O1 r c = Inr s \<Longrightarrow> or_unmarshal O1 (sr_json2 s) = Inr p \<Longrightarrow>
     sr_resolved s = ri_commit (rs_repo p) \<and> sr_complete s = scan_complete (rs_checks p)"
  using scan_coherent by fastforce

lemma scan_parses:
  "or_scan O1 r c = Inr s \<Longrightarrow> \<exists>p. or_unmarshal O1 (sr_json2 s) = Inr p \<and>
     sr_resolved s = ri_commit (rs_repo p) \<and> sr_complete s = scan_complete (rs_checks p)"
  using scan_coherent by fastforce

text \<open>A healthy bucket stores what a scan produced, under the key that was asked for.\<close>

lemma persist_read_back:
  assumes healthy: "\<And>b k x opts. fst (bl_write (or_blob O1) b k x opts) = None"
    and "valid_ref r" "valid_commit c" "c = [] \<Longrightarrow> valid_commit (sr_resolved s) \<and> sr_resolved s \<noteq> []"
    and "get_with_origin (or_blob O1) (persist O1 b r c s) r c = Inr (x, orig)"
  shows "x = sr_json2 s \<and> orig = OriginLocal"
proof -
  have ok: "\<exists>b'. store_write (or_blob O1) b k y og = (None, b')" for b k y og
    using healthy [of b k y "\<lparr>wo_content_type = contentTypeJSON, wo_metadata = [metadataOrigin \<mapsto> og]\<rparr>"]
    by (auto simp: store_write_def split: prod.splits option.splits)
  show ?thesis
  proof (cases "c = []")
    case False
    obtain b' where w: "store_write (or_blob O1) b (key r c) (sr_json2 s) OriginLocal = (None, b')"
      using ok by blast
    with get_written [OF w, of x orig] assms(5) False show ?thesis
      by (simp add: persist_def put_def put_with_origin_def)
  next
    case True
    then have n: "sr_resolved s \<noteq> []" "key r (sr_resolved s) \<noteq> key r []"
      using assms(4) key_inject [OF assms(2) _ assms(2), of "sr_resolved s" "[]"] assms(3) by auto
    obtain b1 where w1: "store_write (or_blob O1) b (key r (sr_resolved s)) (sr_json2 s) OriginLocal = (None, b1)"
      using ok by blast
    obtain b2 where w2: "store_write (or_blob O1) b1 (key r []) (sr_json2 s) OriginLocal = (None, b2)"
      using ok by blast
    from get_written [OF w2, of x orig] assms(5) True n w1 w2 show ?thesis
      by (simp add: persist_def put_latest_and_commit_def put_latest_and_commit_with_origin_def)
  qed
qed

end

text \<open>
  C9. Read-through: with a bucket that accepts writes, the result of a live scan is what
  the next request for the same repository and commit is served from the store, without
  another scan and with the same body and provenance now declared as cached, at any
  later time for a pinned commit and within the TTL of the result for a latest one.
\<close>

theorem scan_then_cached:
  assumes "orchestrated O1" "valid_ref r" "valid_commit c"
    and "\<forall>b k x opts. fst (bl_write (or_blob O1) b k x opts) = None"
    and "get_or_produce O1 ev slot b r c = (Inr (Ready pv body), b', bg)" "pv_source pv = SourceLive"
    and "c = [] \<longrightarrow> valid_commit (pv_commit pv) \<and> pv_commit pv \<noteq> []"
    and "is_ok (get_with_origin (or_blob O1) b' r c)"
    and "c = [] \<longrightarrow> (\<exists>t. parse_rfc3339 (pv_date pv) = Some t \<and> time_sub later t \<le> or_ttl O1)"
  shows "get_or_produce (O1\<lparr>or_now := later\<rparr>) ev' slot' b' r c =
           (Inr (Ready (pv\<lparr>pv_source := SourceCached\<rparr>) body), b', False)"
proof -
  have "produce O1 ev slot b r c = (Inr (Ready pv body), b', bg)"
    using get_or_produce_Ready [OF assms(5)] assms(6) by (auto simp: provenance_from_def split: if_splits)
  then obtain b1 where "scan_outcome O1 ev slot b1 r c = (Inr (Ready pv body), b', bg)"
    using produce_Ready assms(6) by (fastforce simp: try_fallback_Some provenance_from_def)
  then obtain s p where s: "or_scan O1 r c = Inr s" "or_unmarshal O1 body = Inr p" "body = sr_json2 s"
      "pv = provenance_from p SourceLive (sr_complete s)" "b' = persist O1 b1 r c s"
    by (auto simp: scan_outcome_Ready)
  have sc: "sr_resolved s = pv_commit pv" "sr_complete s = scan_complete (rs_checks p)"
    using orchestrated.scan_facts [OF assms(1) s(1), of p] s by (auto simp: provenance_from_def)
  obtain x orig where g: "get_with_origin (or_blob O1) b' r c = Inr (x, orig)"
    using assms(8) by (cases "get_with_origin (or_blob O1) b' r c") auto
  have "x = body \<and> orig = OriginLocal"
    using orchestrated.persist_read_back [OF assms(1) _ assms(2,3), of s b1 x orig] assms(4,7) g s(3,5) sc
    by auto
  with g s sc assms(9) show ?thesis
    by (auto simp: get_or_produce_def cached_outcome_def fresh_iff model_parse_def provenance_from_def)
qed

theorem scan_then_cached_witness:
  "get_or_produce (worch (30 * minute_ns)) TimerFired None
     (fst (snd (get_or_produce (worch 0) ScanDone None empty_bucket wref []))) wref [] =
     (Inr (Ready (provenance_from (wresult ''1970-01-01T00:00:00Z'' wsha) SourceCached True) ''live''),
      fst (snd (get_or_produce (worch 0) ScanDone None empty_bucket wref [])), False)"
proof -
  let ?b = "persist (worch 0) empty_bucket wref [] \<lparr>sr_resolved = wsha, sr_json2 = ''live'', sr_complete = True\<rparr>"
  have h: "\<forall>b k x opts. fst (bl_write (or_blob (worch 0)) b k x opts) = None"
    by (simp add: worch_def open_blob_def)
  have ok: "is_ok (get_with_origin (or_blob (worch 0)) ?b wref [])"
    by (simp add: worch_def open_blob_def mem_blob_def persist_def put_latest_and_commit_def
        put_latest_and_commit_with_origin_def store_write_def empty_bucket_def get_with_origin_def wsha_def)
  have d: "parse_rfc3339 ''1970-01-01T00:00:00Z'' = Some 0" by (rule worch_date)
  have later: "worch (30 * minute_ns) = (worch 0)\<lparr>or_now := 30 * minute_ns\<rparr>" by (simp add: worch_def)
  have w: "time_sub (30 * minute_ns) 0 \<le> or_ttl (worch 0)"
    by (simp add: worch_def time_sub_def duration_units)
  have p: "valid_commit wsha \<and> wsha \<noteq> []" using wref_valid(2) by (simp add: wsha_def)
  show ?thesis
    using scan_then_cached [OF worch_orchestrated wref_valid(1,3) h worch_first, of "30 * minute_ns" TimerFired None]
      ok d w p unfolding later worch_first
    by (simp add: provenance_from_def wresult_def)
qed

lemma or_with_fallback:
  "or_blob (with_fallback f O1) = or_blob O1" "or_unmarshal (with_fallback f O1) = or_unmarshal O1"
  "or_scan (with_fallback f O1) = or_scan O1" "or_flags (with_fallback f O1) = or_flags O1"
  "or_now (with_fallback f O1) = or_now O1" "or_ttl (with_fallback f O1) = or_ttl O1"
  "or_retry_after (with_fallback f O1) = or_retry_after O1"
  "or_fallback_max_age (with_fallback f O1) = or_fallback_max_age O1"
  by (simp_all add: with_fallback_def)

lemma with_fallback_other [simp]:
  "scan_outcome (with_fallback f O1) ev slot b r c = scan_outcome O1 ev slot b r c"
  "cached_outcome (with_fallback f O1) body orig = cached_outcome O1 body orig"
  "fresh (with_fallback f O1) body orig = fresh O1 body orig"
  unfolding persist_def scan_and_store_def await_def scan_outcome_def cached_outcome_def fresh_def
    or_with_fallback by (rule refl)+

lemma produce_without_fallback:
  assumes "c \<noteq> [] \<or> (\<exists>fs. or_flags O1 = Some fs \<and> \<not> fs_bool fs FlagEnabled True) \<or>
    (\<exists>fs. or_flags O1 = Some fs \<and> fs_string fs FlagMode ModeFetchFirst = ModeSafetyNet) \<and>
      ev = ScanDone \<and> is_ok (fst (scan_and_store O1 slot b r c))"
  shows "produce (with_fallback f O1) ev slot b r c = scan_outcome O1 ev slot b r c"
proof -
  obtain out b' bg where so: "scan_outcome O1 ev slot b r c = (out, b', bg)" by (metis prod_cases3)
  have ok: "ev = ScanDone \<Longrightarrow> is_ok (fst (scan_and_store O1 slot b r c)) \<Longrightarrow> is_ok out"
    using so by (auto simp: scan_outcome_def await_def split: prod.splits)
  obtain mode active where fd: "fallback_decision (with_fallback f O1) c = (mode, active)" by fastforce
  then have "active \<Longrightarrow> mode = ModeSafetyNet \<and> is_ok out"
    using assms ok by (auto simp: fallback_decision_def or_with_fallback split: if_splits option.splits)
  then show ?thesis
    by (cases out; cases active) (simp_all add: produce_def fd so)
qed

text \<open>
  C11. A commit-pinned request never depends on the upstream, and a latest one does not
  when the flag turns it off: with any other fallback configured the outcome, the writes
  and the background work are the same.  In safety-net mode the same holds for every
  request whose scan succeeds in time.
\<close>

theorem fallback_gate:
  assumes "c \<noteq> [] \<or> (\<exists>fs. or_flags O1 = Some fs \<and> \<not> fs_bool fs FlagEnabled True) \<or>
    (\<exists>fs. or_flags O1 = Some fs \<and> fs_string fs FlagMode ModeFetchFirst = ModeSafetyNet) \<and>
      ev = ScanDone \<and> is_ok (fst (scan_and_store O1 slot b r c))"
  shows "get_or_produce (with_fallback f O1) ev slot b r c =
         get_or_produce (with_fallback f' O1) ev slot b r c"
  unfolding get_or_produce_def or_with_fallback with_fallback_other produce_without_fallback [OF assms]
  by (rule refl)

theorem fallback_gate_witness:
  "get_or_produce (with_fallback (Some (\<lambda>_. Inl ErrFallbackMiss)) (worch 0)) ScanDone None empty_bucket wref wsha =
   get_or_produce (with_fallback None (worch 0)) ScanDone None empty_bucket wref wsha"
  by (rule fallback_gate) (simp add: wsha_def)



text \<open>
  A pinned result is not immutable in the store: a later scan of the latest revision
  that resolves to the same commit replaces it by its own document, and so does the
  backfill of an upstream result that names the commit.
\<close>

theorem pinned_result_replaced:
  assumes "orchestrated O1" "valid_ref r" "valid_commit c" "c \<noteq> []" "sr_resolved s = c"
    and "\<forall>b k x opts. fst (bl_write (or_blob O1) b k x opts) = None"
    and "b' \<in> {persist O1 b r [] s, backfill O1 b r s}"
    and "get_with_origin (or_blob O1) b' r c = Inr (x, orig)"
  shows "x = sr_json2 s"
proof -
  have ne: "key r c \<noteq> key r []"
    using key_inject [OF assms(2,3) assms(2)] assms(4) wref_valid(3) by blast
  obtain og where b': "b' = snd (put_latest_and_commit_with_origin (or_blob O1) b r c (sr_json2 s) og)"
    and og: "og \<noteq> []"
    using assms(4,5,7) origins_distinct
    by (auto simp: persist_def backfill_def put_latest_and_commit_def)
  have "\<exists>b''. store_write (or_blob O1) b k y o' = (None, b'')" for b k y o'
    using assms(6) [rule_format, of b k y "\<lparr>wo_content_type = contentTypeJSON, wo_metadata = [metadataOrigin \<mapsto> o']\<rparr>"]
    by (auto simp: store_write_def split: prod.splits option.splits)
  then have "fst (put_latest_and_commit_with_origin (or_blob O1) b r c (sr_json2 s) og) = None"
    using assms(4) unfolding put_latest_and_commit_with_origin_def
    by (auto split: prod.splits option.splits) (metis fst_conv option.distinct(1))+
  with b' have "put_latest_and_commit_with_origin (or_blob O1) b r c (sr_json2 s) og = (None, b')"
    by (metis prod.collapse)
  from blob_api.put_latest_both [OF orchestrated.axioms(1) [OF assms(1)] this _ ne assms(8) og]
  show ?thesis by simp
qed

theorem pinned_result_replaced_witness:
  "\<exists>b b'. get_with_origin open_blob b wref wsha = Inr (''old'', OriginLocal) \<and>
     b' = persist (worch 0) b wref [] \<lparr>sr_resolved = wsha, sr_json2 = ''live'', sr_complete = True\<rparr> \<and>
     get_with_origin open_blob b' wref wsha = Inr (''live'', OriginLocal)"
proof -
  let ?s = "\<lparr>sr_resolved = wsha, sr_json2 = ''live'', sr_complete = True\<rparr>"
  let ?b = "snd (put open_blob empty_bucket wref wsha ''old'')"
  let ?b' = "persist (worch 0) ?b wref [] ?s"
  have ops: "or_blob (worch 0) = open_blob" by (simp add: worch_def)
  have h: "\<forall>b k x opts. fst (bl_write (or_blob (worch 0)) b k x opts) = None"
    by (simp add: ops open_blob_def)
  have old: "get_with_origin open_blob ?b wref wsha = Inr (''old'', OriginLocal)"
    by (simp add: get_with_origin_def put_def put_with_origin_def store_write_def open_blob_def
        mem_blob_def empty_bucket_def)
  have ne: "wsha \<noteq> []" by (simp add: wsha_def)
  have "key wref wsha \<noteq> key wref []"
    using key_inject [OF wref_valid(1,2) wref_valid(1,3)] ne by blast
  then obtain x where g: "get_with_origin (or_blob (worch 0)) ?b' wref wsha = Inr (x, OriginLocal)"
    by (auto simp: ops ne persist_def put_latest_and_commit_def put_latest_and_commit_with_origin_def
        get_with_origin_def put_def put_with_origin_def store_write_def open_blob_def
        mem_blob_def empty_bucket_def)
  with pinned_result_replaced [OF worch_orchestrated wref_valid(1,2) ne _ h _ g, of ?s] old
  show ?thesis by (auto simp: ops)
qed

end
