(* ===== verification/SingleFlight.thy ===== *)
theory SingleFlight
  imports Orchestrator
begin

text \<open>
  The concurrent part of the orchestrator: requests that need a scan share it through
  the \<open>singleflight.Group\<close> of \<open>scanOutcome\<close>.  The group is a third-party type; its
  operations are parameters with the documented law as the locale \<open>flight_group\<close>.
\<close>

section \<open>The group\<close>

text \<open>
  \<open>gr_do g k n\<close> is \<open>DoChan\<close> for key \<open>k\<close>, with \<open>n\<close> the identity a new call gets: the
  call joined, whether it was started by this request, and the group.  \<open>gr_done\<close> is the
  group after the call of a key has ended.
\<close>

record 'g group_ops =
  gr_do :: "'g \<Rightarrow> string \<Rightarrow> nat \<Rightarrow> nat \<times> bool \<times> 'g"
  gr_done :: "'g \<Rightarrow> string \<Rightarrow> 'g"

locale flight_group =
  fixes G :: "'g group_ops" and in_flight :: "'g \<Rightarrow> string \<rightharpoonup> nat"
  assumes join: "in_flight g k = Some f \<Longrightarrow> gr_do G g k n = (m, st, g') \<Longrightarrow>
      m = f \<and> \<not> st \<and> in_flight g' = in_flight g"
    and start: "in_flight g k = None \<Longrightarrow> gr_do G g k n = (m, st, g') \<Longrightarrow>
      m = n \<and> st \<and> in_flight g' = (in_flight g)(k \<mapsto> n)"
    and ended: "in_flight (gr_done G g k) = (in_flight g)(k := None)"

definition map_group :: "(string \<rightharpoonup> nat) group_ops" where
  "map_group =
     \<lparr>gr_do = (\<lambda>g k n. case g k of Some f \<Rightarrow> (f, False, g) | None \<Rightarrow> (n, True, g(k \<mapsto> n))),
      gr_done = (\<lambda>g k. g(k := None))\<rparr>"

interpretation mapg: flight_group map_group "\<lambda>g. g"
  by unfold_locales (auto simp: map_group_def split: option.splits)

section \<open>Requests and scans\<close>

text \<open>
  The running calls with the request they scan for, the requests waiting on a call, and
  the answers given so far.
\<close>

type_synonym call = "nat \<times> repo_ref \<times> string"

record ('b, 'g) flight_sys =
  fl_bucket :: 'b
  fl_group :: 'g
  fl_next :: nat
  fl_calls :: "call list"
  fl_waiting :: "call list"
  fl_answers :: "(repo_ref \<times> string \<times> orch_outcome res) list"

definition call_id :: "call \<Rightarrow> nat" where "call_id = fst"

definition call_key :: "call \<Rightarrow> string" where
  "call_key x = (case x of (i, r, c) \<Rightarrow> key r c)"

text \<open>
  One step: a request for a parsed reference and commit enters \<open>scanOutcome\<close>; a call
  ends and everyone waiting on it gets its outcome; the timer or the end of a waiting
  request answers it alone.  The orchestrator of a step carries what the scanner returns
  at that time; bucket operations and decoder are those of \<open>O1\<close>.
\<close>

definition same_store :: "'b orchestrator \<Rightarrow> 'b orchestrator \<Rightarrow> bool" where
  "same_store O1 O2 \<longleftrightarrow> or_blob O2 = or_blob O1 \<and> or_unmarshal O2 = or_unmarshal O1"

inductive flight_step ::
  "'b orchestrator \<Rightarrow> 'g group_ops \<Rightarrow> ('b, 'g) flight_sys \<Rightarrow> ('b, 'g) flight_sys \<Rightarrow> bool"
  for O1 :: "'b orchestrator" and G :: "'g group_ops" where
  request: "valid_ref r \<Longrightarrow> valid_commit c \<Longrightarrow>
     gr_do G (fl_group s) (key r c) (fl_next s) = (i, started, g') \<Longrightarrow>
     flight_step O1 G s
       (s\<lparr>fl_group := g', fl_next := Suc (fl_next s),
          fl_calls := (if started then (i, r, c) # fl_calls s else fl_calls s),
          fl_waiting := (i, r, c) # fl_waiting s\<rparr>)"
| finish: "(i, r, c) \<in> set (fl_calls s) \<Longrightarrow> same_store O1 O2 \<Longrightarrow>
     scan_and_store O2 slot (fl_bucket s) r c = (out, b') \<Longrightarrow>
     flight_step O1 G s
       (s\<lparr>fl_bucket := b', fl_group := gr_done G (fl_group s) (key r c),
          fl_calls := filter (\<lambda>x. call_id x \<noteq> i) (fl_calls s),
          fl_waiting := filter (\<lambda>x. call_id x \<noteq> i) (fl_waiting s),
          fl_answers := map (\<lambda>(j, r', c'). (r', c', await O2 ScanDone out))
              (filter (\<lambda>x. call_id x = i) (fl_waiting s)) @ fl_answers s\<rparr>)"
| leave: "(i, r, c) \<in> set (fl_waiting s) \<Longrightarrow> ev \<noteq> ScanDone \<Longrightarrow>
     flight_step O1 G s
       (s\<lparr>fl_waiting := remove1 (i, r, c) (fl_waiting s),
          fl_answers := (r, c, await O1 ev (Inl ErrSkipped)) # fl_answers s\<rparr>)"

definition flight_init :: "'b \<Rightarrow> 'g \<Rightarrow> ('b, 'g) flight_sys" where
  "flight_init b g =
     \<lparr>fl_bucket = b, fl_group = g, fl_next = 0, fl_calls = [], fl_waiting = [], fl_answers = []\<rparr>"

section \<open>The invariant\<close>

text \<open>An answer is what a scan for the very same request gave, or a retry hint or a cancellation.\<close>

definition answer_ok :: "'b orchestrator \<Rightarrow> repo_ref \<times> string \<times> orch_outcome res \<Rightarrow> bool" where
  "answer_ok O1 a \<longleftrightarrow>
     (case a of (r, c, out) \<Rightarrow>
        (\<exists>O2 slot b. same_store O1 O2 \<and> out = fst (scan_and_store O2 slot b r c)) \<or>
        out = Inr (NotReady (or_retry_after O1)) \<or>
        (\<exists>e. out = Inl (errorf [L ''orchestrator: request cancelled: '', W e])))"

definition flight_inv ::
  "'b orchestrator \<Rightarrow> ('g \<Rightarrow> string \<rightharpoonup> nat) \<Rightarrow> ('b, 'g) flight_sys \<Rightarrow> bool" where
  "flight_inv O1 infl s \<longleftrightarrow>
     (\<forall>k i. infl (fl_group s) k = Some i \<longleftrightarrow> (\<exists>x \<in> set (fl_calls s). call_id x = i \<and> call_key x = k)) \<and>
     distinct (map call_id (fl_calls s)) \<and>
     (\<forall>(i, r, c) \<in> set (fl_calls s). i < fl_next s \<and> valid_ref r \<and> valid_commit c) \<and>
     set (fl_waiting s) \<subseteq> set (fl_calls s) \<and>
     (\<forall>a \<in> set (fl_answers s). answer_ok O1 a)"

lemma flight_inv_in_flight:
  "flight_inv O1 infl s \<Longrightarrow> infl (fl_group s) k = Some i \<longleftrightarrow>
     (\<exists>x \<in> set (fl_calls s). call_id x = i \<and> call_key x = k)"
  by (simp add: flight_inv_def)

lemma flight_inv_call:
  "flight_inv O1 infl s \<Longrightarrow> x \<in> set (fl_calls s) \<Longrightarrow> call_id x < fl_next s"
  by (cases x) (auto simp: flight_inv_def call_id_def)

lemma flight_inv_same:
  "flight_inv O1 infl s \<Longrightarrow> x \<in> set (fl_calls s) \<Longrightarrow> y \<in> set (fl_calls s) \<Longrightarrow> call_id x = call_id y \<Longrightarrow> x = y"
  by (auto simp: flight_inv_def distinct_map inj_on_def)

lemma distinct_keys:
  assumes "flight_inv O1 infl s"
  shows "distinct (map call_key (fl_calls s))"
proof -
  have "x = y" if "x \<in> set (fl_calls s)" "y \<in> set (fl_calls s)" "call_key x = call_key y" for x y
  proof -
    have "infl (fl_group s) (call_key x) = Some (call_id x)" "infl (fl_group s) (call_key y) = Some (call_id y)"
      using assms that(1,2) unfolding flight_inv_def by blast+
    then have "call_id x = call_id y" using that(3) by simp
    then show ?thesis
      using assms that(1,2) unfolding flight_inv_def distinct_map inj_on_def by blast
  qed
  moreover have "distinct (fl_calls s)" using assms by (auto simp: flight_inv_def distinct_map)
  ultimately show ?thesis by (auto simp: distinct_map inj_on_def)
qed

context flight_group
begin

lemma inv_request:
  assumes inv: "flight_inv O1 in_flight s" and v: "valid_ref r" "valid_commit c"
    and d: "gr_do G (fl_group s) (key r c) (fl_next s) = (i, started, g')"
  shows "flight_inv O1 in_flight
    (s\<lparr>fl_group := g', fl_next := Suc (fl_next s),
       fl_calls := (if started then (i, r, c) # fl_calls s else fl_calls s),
       fl_waiting := (i, r, c) # fl_waiting s\<rparr>)"
proof (cases "in_flight (fl_group s) (key r c)")
  case (Some f)
  from join [OF this d] have j: "i = f" "\<not> started" "in_flight g' = in_flight (fl_group s)" by auto
  obtain x where x: "x \<in> set (fl_calls s)" "call_id x = f" "call_key x = key r c"
    using inv Some by (auto simp: flight_inv_def)
  obtain r' c' where x': "x = (f, r', c')" using x(2) by (cases x) (auto simp: call_id_def)
  then have "valid_ref r'" "valid_commit c'" using inv x(1) by (auto simp: flight_inv_def)
  then have "r' = r \<and> c' = c" using key_inject [OF _ _ v] x(3) x' by (auto simp: call_key_def)
  with x(1) x' have "(f, r, c) \<in> set (fl_calls s)" by simp
  with inv j show ?thesis by (auto simp: flight_inv_def)
next
  case None
  from start [OF this d] have j: "i = fl_next s" started
    "in_flight g' = (in_flight (fl_group s))(key r c \<mapsto> fl_next s)" by auto
  have free: "call_key x \<noteq> key r c" "call_id x < fl_next s" if "x \<in> set (fl_calls s)" for x
    using flight_inv_in_flight [OF inv, of "key r c" "call_id x"] flight_inv_call [OF inv that] None that
    by auto
  then have fresh: "fl_next s \<notin> call_id ` set (fl_calls s)" by fastforce
  show ?thesis
    using inv j v free fresh
    by (auto simp: flight_inv_def call_id_def call_key_def less_Suc_eq)
qed

lemma inv_finish:
  assumes inv: "flight_inv O1 in_flight s" and x: "(i, r, c) \<in> set (fl_calls s)"
    and O2: "same_store O1 O2" and out: "scan_and_store O2 slot (fl_bucket s) r c = (out, b')"
  shows "flight_inv O1 in_flight
    (s\<lparr>fl_bucket := b', fl_group := gr_done G (fl_group s) (key r c),
       fl_calls := filter (\<lambda>x. call_id x \<noteq> i) (fl_calls s),
       fl_waiting := filter (\<lambda>x. call_id x \<noteq> i) (fl_waiting s),
       fl_answers := map (\<lambda>(j, r', c'). (r', c', await O2 ScanDone out))
           (filter (\<lambda>x. call_id x = i) (fl_waiting s)) @ fl_answers s\<rparr>)"
proof -
  have own: "y = (i, r, c)" if "y \<in> set (fl_calls s)" "call_id y = i" for y
    using flight_inv_same [OF inv that(1) x] that(2) by (simp add: call_id_def)
  have key_i: "in_flight (fl_group s) (key r c) = Some i"
    using flight_inv_in_flight [OF inv] x by (force simp: call_id_def call_key_def)
  have group: "((in_flight (fl_group s))(key r c := None)) k = Some j \<longleftrightarrow>
      (\<exists>y \<in> set (filter (\<lambda>x. call_id x \<noteq> i) (fl_calls s)). call_id y = j \<and> call_key y = k)" for k j
  proof (cases "k = key r c")
    case True
    have "call_id y = i" if "y \<in> set (fl_calls s)" "call_key y = key r c" for y
      using flight_inv_in_flight [OF inv, of "key r c" "call_id y"] key_i that by auto
    with True show ?thesis by auto
  next
    case False
    have "call_id y \<noteq> i" if "y \<in> set (fl_calls s)" "call_key y = k" for y
      using own [OF that(1)] that(2) False call_key_def [of "(i, r, c)"] by auto
    then have "(\<exists>y \<in> set (filter (\<lambda>x. call_id x \<noteq> i) (fl_calls s)). call_id y = j \<and> call_key y = k) \<longleftrightarrow>
        (\<exists>y \<in> set (fl_calls s). call_id y = j \<and> call_key y = k)" unfolding set_filter by blast
    with False flight_inv_in_flight [OF inv, of k j] show ?thesis by simp
  qed
  have answers: "answer_ok O1 (r', c', await O2 ScanDone out)" if "(i, r', c') \<in> set (fl_waiting s)" for r' c'
  proof -
    have "(i, r', c') = (i, r, c)" using own [of "(i, r', c')"] that inv by (auto simp: flight_inv_def call_id_def)
    moreover have "out = fst (scan_and_store O2 slot (fl_bucket s) r c)" using out by simp
    ultimately show ?thesis using O2 by (auto simp: answer_ok_def await_def)
  qed
  have "distinct (map call_id (filter (\<lambda>x. call_id x \<noteq> i) (fl_calls s)))"
    using inv by (auto simp: flight_inv_def distinct_map inj_on_def)
  then show ?thesis
    using inv group answers unfolding flight_inv_def
    by (auto simp: ended call_id_def)
qed

lemma inv_step: "flight_step O1 G s s' \<Longrightarrow> flight_inv O1 in_flight s \<Longrightarrow> flight_inv O1 in_flight s'"
proof (induction rule: flight_step.induct)
  case (request r c s i started g')
  then show ?case by (intro inv_request)
next
  case (finish i r c s O2 slot out b')
  then show ?case by (intro inv_finish)
next
  case (leave i r c s ev)
  have "answer_ok O1 (r, c, await O1 ev (Inl ErrSkipped))"
    using leave(2) by (cases ev) (auto simp: answer_ok_def await_def)
  with leave(3) show ?case
    unfolding flight_inv_def by (auto dest: notin_set_remove1)
qed

lemma inv_reachable:
  assumes "in_flight g = Map.empty" "(flight_step O1 G)\<^sup>*\<^sup>* (flight_init b g) s"
  shows "flight_inv O1 in_flight s"
  using assms(2)
proof (induction rule: rtranclp_induct)
  case base
  then show ?case using assms(1) by (simp add: flight_inv_def flight_init_def)
next
  case (step s s')
  then show ?case using inv_step by blast
qed

end

section \<open>Properties\<close>



end
