(* ===== verification/HttpApi.thy ===== *)
theory HttpApi
  imports SingleFlight
begin

text \<open>
  \<open>internal/httpapi\<close>: the HTTP face of the orchestrator: routing, the result, badge,
  capabilities, health and readiness handlers, and the mapping of outcomes and errors to
  responses.
\<close>

section \<open>Replies\<close>

text \<open>A JSON value given to \<open>json.Encoder\<close>, and the body of a reply.\<close>

datatype json = JStr string | JInt int | JBool bool | JArr "json list" | JObj "(string \<times> json) list"

datatype payload = NoBody | Bytes string | Json json

record reply =
  re_status :: int
  re_headers :: "string \<rightharpoonup> string"
  re_body :: payload

definition headerSource :: string where "headerSource = ''X-Scorecard-Source''"
definition headerCommit :: string where "headerCommit = ''X-Scorecard-Resolved-Commit''"
definition headerDate :: string where "headerDate = ''X-Scorecard-Generated-At''"
definition headerVersion :: string where "headerVersion = ''X-Scorecard-Version''"
definition headerComplete :: string where "headerComplete = ''X-Scorecard-Complete''"

lemmas header_defs = headerSource_def headerCommit_def headerDate_def headerVersion_def headerComplete_def

definition write_json :: "(string \<rightharpoonup> string) \<Rightarrow> int \<Rightarrow> json \<Rightarrow> reply" where
  "write_json hs status v =
     \<lparr>re_status = status, re_headers = hs(''Content-Type'' \<mapsto> contentTypeJSON), re_body = Json v\<rparr>"

definition write_error :: "int \<Rightarrow> string \<Rightarrow> string \<Rightarrow> reply" where
  "write_error status msg detail =
     write_json Map.empty status (JObj [(''error'', JStr msg), (''detail'', JStr detail)])"

definition format_bool :: "bool \<Rightarrow> string" where
  "format_bool b = (if b then ''true'' else ''false'')"

definition set_provenance :: "(string \<rightharpoonup> string) \<Rightarrow> provenance \<Rightarrow> (string \<rightharpoonup> string)" where
  "set_provenance hs p =
     hs(headerSource \<mapsto> source_text (pv_source p), headerCommit \<mapsto> pv_commit p, headerDate \<mapsto> pv_date p,
        headerVersion \<mapsto> pv_version p, headerComplete \<mapsto> format_bool (pv_complete p))"

text \<open>Integer division of Go, and \<open>Duration.Round\<close>: half away from zero, saturating.\<close>

definition go_div :: "int \<Rightarrow> int \<Rightarrow> int" where
  "go_div a b = (if (a < 0) = (b < 0) then \<bar>a\<bar> div \<bar>b\<bar> else - (\<bar>a\<bar> div \<bar>b\<bar>))"

definition duration_round :: "duration \<Rightarrow> duration \<Rightarrow> duration" where
  "duration_round d m =
     (if m \<le> 0 then d
      else
        let r = \<bar>d\<bar> mod m
        in if d < 0 then
             (if r + r < m then d + r
              else if - (2 ^ 63) \<le> d - m + r then d - m + r else - (2 ^ 63))
           else
             (if r + r < m then d - r
              else if d + m - r < 2 ^ 63 then d + m - r else 2 ^ 63 - 1))"

definition write_not_ready :: "duration \<Rightarrow> reply" where
  "write_not_ready retry_after =
     (let secs0 = go_div (duration_round retry_after second_ns) second_ns;
          secs = (if secs0 < 1 then 1 else secs0)
      in write_json [headerSource \<mapsto> source_text SourceLive, ''Retry-After'' \<mapsto> itoa secs] 202
           (JObj [(''status'', JStr ''scanning''), (''retry_after_seconds'', JInt secs),
                  (''message'', JStr ''a scan is in progress for this repository; retry shortly'')]))"

definition write_produce_error :: "err \<Rightarrow> reply" where
  "write_produce_error e =
     (if is_skipped e then
        write_error 404 ''no result available''
          ''the repository could not be scanned (unreachable, blocked, or not accessible with the configured token)''
      else
        write_error 502 ''scan failed''
          ''the on-demand scan could not be completed; please retry later'')"

section \<open>Capabilities\<close>

record capabilities =
  cp_mode :: string
  cp_checks :: string
  cp_caveats :: "string list"
  cp_latest_ttl_seconds :: int
  cp_requires_opt_in :: bool

definition default_capabilities :: "duration \<Rightarrow> capabilities" where
  "default_capabilities latest_ttl =
     \<lparr>cp_mode = ''cached+live'', cp_checks = ''all'',
      cp_caveats =
        [''Scorecard results are heuristic signals, not a verdict; a repository is never labeled secure or insecure.'',
         ''A score of -1 is inconclusive, not a failing score.'',
         ''Results are generated on demand for any repository the configured token can access; no publish_results opt-in is required.'',
         ''Latest results are cached with a TTL and refreshed on expiry; pin a commit for an immutable result.''],
      cp_latest_ttl_seconds = go_div latest_ttl second_ns, cp_requires_opt_in = False\<rparr>"

definition caps_with_fallback :: "capabilities \<Rightarrow> capabilities" where
  "caps_with_fallback c =
     c\<lparr>cp_mode := ''cached+upstream+live'',
       cp_caveats := cp_caveats c @
         [''When a fresh local result is unavailable, a result may be served from an upstream Scorecard API; such results may be up to a week old, may omit some checks, and cover only repositories that opted in upstream.'',
          ''An upstream-sourced result is reported with source '' @ [CHR 0x22] @ ''upstream'' @ [CHR 0x22] @
          '' and its own generation date.'']\<rparr>"

definition capabilities_json :: "capabilities \<Rightarrow> json" where
  "capabilities_json c =
     JObj [(''mode'', JStr (cp_mode c)), (''checks'', JStr (cp_checks c)),
           (''caveats'', JArr (map JStr (cp_caveats c))),
           (''latest_ttl_seconds'', JInt (cp_latest_ttl_seconds c)),
           (''requires_opt_in'', JBool (cp_requires_opt_in c))]"

section \<open>Badges\<close>

text \<open>\<open>%.1f\<close> of a non-negative number: nearest tenth, ties to even.\<close>

definition round_half_even :: "rat \<Rightarrow> int" where
  "round_half_even q =
     (let f = \<lfloor>q\<rfloor>; r = q - of_int f
      in if r < 1 / 2 then f else if 1 / 2 < r then f + 1 else if even f then f else f + 1)"

definition fmt_tenth :: "rat \<Rightarrow> string" where
  "fmt_tenth x = (let n = round_half_even (x * 10) in itoa (n div 10) @ ''.'' @ itoa (n mod 10))"

definition badge_value_color :: "rat \<Rightarrow> string \<times> string" where
  "badge_value_color score =
     (if score < 0 then (''inconclusive'', ''#9f9f9f'')
      else if 8 \<le> score then (fmt_tenth score, ''#4c1'')
      else if 5 \<le> score then (fmt_tenth score, ''#dfb317'')
      else (fmt_tenth score, ''#e05d44''))"

text \<open>An attribute of the template, \<open>name="value"\<close>.\<close>

definition attr :: "string \<Rightarrow> string \<Rightarrow> string" where
  "attr n v = n @ ''='' @ [CHR 0x22] @ v @ [CHR 0x22]"

definition nl :: string where "nl = [CHR 0x0A]"

definition render_badge :: "rat \<Rightarrow> string" where
  "render_badge score =
     (case badge_value_color score of
        (value, color) \<Rightarrow>
          let label = ''scorecard'';
              label_w = 7 * int (length label) + 10;
              value_w = 7 * int (length value) + 10;
              total = label_w + value_w
          in ''<svg '' @ attr ''xmlns'' ''http://www.w3.org/2000/svg'' @ '' '' @ attr ''width'' (itoa total) @ '' '' @
             attr ''height'' ''20'' @ '' '' @ attr ''role'' ''img'' @ '' '' @
             attr ''aria-label'' (label @ '': '' @ value) @ ''>'' @ nl @
             ''<title>'' @ label @ '': '' @ value @ ''</title>'' @ nl @
             ''<rect '' @ attr ''rx'' ''3'' @ '' '' @ attr ''width'' (itoa label_w) @ '' '' @ attr ''height'' ''20'' @ '' '' @
             attr ''fill'' ''#555'' @ ''/>'' @ nl @
             ''<rect '' @ attr ''rx'' ''3'' @ '' '' @ attr ''x'' (itoa label_w) @ '' '' @ attr ''width'' (itoa value_w) @ '' '' @
             attr ''height'' ''20'' @ '' '' @ attr ''fill'' color @ ''/>'' @ nl @
             ''<g '' @ attr ''fill'' ''#fff'' @ '' '' @ attr ''text-anchor'' ''middle'' @ '' '' @
             attr ''font-family'' ''Verdana,Geneva,DejaVu Sans,sans-serif'' @ '' '' @ attr ''font-size'' ''11'' @ ''>'' @ nl @
             ''<text '' @ attr ''x'' (itoa (label_w div 2)) @ '' '' @ attr ''y'' ''14'' @ ''>'' @ label @ ''</text>'' @ nl @
             ''<text '' @ attr ''x'' (itoa (label_w + value_w div 2)) @ '' '' @ attr ''y'' ''14'' @ ''>'' @ value @ ''</text>'' @ nl @
             ''</g>'' @ nl @ ''</svg>'')"

section \<open>Handlers\<close>

text \<open>
  The server: its producer (the \<open>Producer\<close> interface), the optional readiness probe, and
  the advertised capabilities.
\<close>

record server =
  sv_producer :: "repo_ref \<Rightarrow> string \<Rightarrow> orch_outcome res"
  sv_ready :: "err option option" \<comment> \<open>no probe, or what the probe returns\<close>
  sv_caps :: capabilities
  sv_unmarshal :: unmarshal

text \<open>A request as the router hands it on: its path values and the \<open>commit\<close> query value.\<close>

record api_request =
  aq_host :: string
  aq_org :: string
  aq_repo :: string
  aq_commit :: string

definition ref_from_path :: "api_request \<Rightarrow> reply + repo_ref \<times> string" where
  "ref_from_path q =
     (case parse_repo_ref (aq_host q) (aq_org q) (aq_repo q) of
        Inl e \<Rightarrow> Inl (write_error 400 ''invalid repository reference''
                  ''expected /projects/{host}/{org}/{repo} with host github.com or gitlab.com'')
      | Inr r \<Rightarrow>
          (case parse_commit (aq_commit q) of
             Inl e \<Rightarrow> Inl (write_error 400 ''invalid commit'' ''commit must be a 40-character hex SHA'')
           | Inr commit \<Rightarrow> Inr (r, commit)))"

definition handle_result :: "server \<Rightarrow> api_request \<Rightarrow> reply" where
  "handle_result s q =
     (case ref_from_path q of
        Inl bad \<Rightarrow> bad
      | Inr (r, commit) \<Rightarrow>
          (case sv_producer s r commit of
             Inl e \<Rightarrow> write_produce_error e
           | Inr (NotReady retry_after) \<Rightarrow> write_not_ready retry_after
           | Inr (Ready pv body) \<Rightarrow>
               \<lparr>re_status = 200,
                re_headers = (set_provenance Map.empty pv)(''Content-Type'' \<mapsto> contentTypeJSON),
                re_body = Bytes body\<rparr>))"

definition handle_badge :: "server \<Rightarrow> api_request \<Rightarrow> reply" where
  "handle_badge s q =
     (case ref_from_path q of
        Inl bad \<Rightarrow> bad
      | Inr (r, commit) \<Rightarrow>
          (case sv_producer s r commit of
             Inl e \<Rightarrow> write_produce_error e
           | Inr (NotReady retry_after) \<Rightarrow> write_not_ready retry_after
           | Inr (Ready pv body) \<Rightarrow>
               (case model_parse (sv_unmarshal s) body of
                  Inl e \<Rightarrow> write_error 502 ''invalid result'' ''the stored result could not be parsed''
                | Inr parsed \<Rightarrow>
                    \<lparr>re_status = 200,
                     re_headers = (set_provenance Map.empty pv)
                       (''Content-Type'' \<mapsto> ''image/svg+xml;charset=utf-8'', ''Cache-Control'' \<mapsto> ''no-cache''),
                     re_body = Bytes (render_badge (rs_score parsed))\<rparr>)))"

definition handle_capabilities :: "server \<Rightarrow> reply" where
  "handle_capabilities s = write_json Map.empty 200 (capabilities_json (sv_caps s))"

definition handle_health :: "server \<Rightarrow> reply" where
  "handle_health s = \<lparr>re_status = 200, re_headers = Map.empty, re_body = NoBody\<rparr>"

definition handle_readyz :: "server \<Rightarrow> reply" where
  "handle_readyz s =
     (case sv_ready s of
        Some (Some e) \<Rightarrow> write_error 503 ''not ready'' (err_text e)
      | _ \<Rightarrow> \<lparr>re_status = 200, re_headers = Map.empty, re_body = NoBody\<rparr>)"

text \<open>
  The router on a cleaned path, as its decoded segments: \<open>GET\<close> patterns also serve
  \<open>HEAD\<close>; another method on a known path is 405, an unknown path 404.
\<close>

definition route :: "server \<Rightarrow> string list \<Rightarrow> string \<Rightarrow> reply option" where
  "route s segs commit =
     (case segs of
        [p, h, org, repo] \<Rightarrow>
          if p = ''projects'' then
            Some (handle_result s \<lparr>aq_host = h, aq_org = org, aq_repo = repo, aq_commit = commit\<rparr>)
          else None
      | [p, h, org, repo, b] \<Rightarrow>
          if p = ''projects'' \<and> b = ''badge'' then
            Some (handle_badge s \<lparr>aq_host = h, aq_org = org, aq_repo = repo, aq_commit = commit\<rparr>)
          else None
      | [p] \<Rightarrow>
          if p = ''capabilities'' then Some (handle_capabilities s)
          else if p = ''health'' then Some (handle_health s)
          else if p = ''readyz'' then Some (handle_readyz s)
          else None
      | _ \<Rightarrow> None)"

definition serve :: "server \<Rightarrow> string \<Rightarrow> string list \<Rightarrow> string \<Rightarrow> reply" where
  "serve s verb segs commit =
     (case route s segs commit of
        None \<Rightarrow> \<lparr>re_status = 404, re_headers = Map.empty, re_body = Bytes (''404 page not found'' @ nl)\<rparr>
      | Some rep \<Rightarrow>
          if verb = ''GET'' then rep
          else if verb = ''HEAD'' then rep\<lparr>re_body := NoBody\<rparr>
          else \<lparr>re_status = 405, re_headers = [''Allow'' \<mapsto> ''GET, HEAD''],
                re_body = Bytes (''Method Not Allowed'' @ nl)\<rparr>)"

section \<open>Making a server\<close>

definition with_readiness :: "err option option \<Rightarrow> server \<Rightarrow> server" where
  "with_readiness ready s = s\<lparr>sv_ready := ready\<rparr>"

text \<open>The decoder of results is the one of \<open>model.Parse\<close>.\<close>

definition new_server ::
  "(repo_ref \<Rightarrow> string \<Rightarrow> orch_outcome res) \<Rightarrow> capabilities \<Rightarrow> unmarshal \<Rightarrow> (server \<Rightarrow> server) list \<Rightarrow> server" where
  "new_server producer caps u opts =
     fold (\<lambda>opt s. opt s) opts
       \<lparr>sv_producer = producer, sv_ready = None, sv_caps = caps, sv_unmarshal = u\<rparr>"

section \<open>Listening\<close>

definition or_default_duration :: "duration \<Rightarrow> duration \<Rightarrow> duration" where
  "or_default_duration d def = (if 0 < d then d else def)"

text \<open>
  What ends \<open>ListenAndServe\<close>: the listener, always with an error, or the context, and then what
  \<open>Shutdown\<close> returns.
\<close>

datatype listen_event = ListenerEnded err | Interrupted "err option"

definition ErrServerClosed :: err where "ErrServerClosed = Sentinel ''http: Server closed''"

definition listen_and_serve :: "listen_event \<Rightarrow> err option" where
  "listen_and_serve ev =
     (case ev of
        ListenerEnded e \<Rightarrow>
          if errors_is (err_text ErrServerClosed) e then None
          else Some (errorf [L ''httpapi: server error: '', W e])
      | Interrupted None \<Rightarrow> None
      | Interrupted (Some e) \<Rightarrow> Some (errorf [L ''httpapi: graceful shutdown: '', W e]))"

section \<open>The producer's contract\<close>

text \<open>What the handlers rely on: a ready outcome serves a document, with its provenance.\<close>

locale producer =
  fixes unmarshal :: unmarshal and prod :: "repo_ref \<Rightarrow> string \<Rightarrow> orch_outcome res"
  assumes ready_document: "prod r c = Inr (Ready pv body) \<Longrightarrow>
    \<exists>p. unmarshal body = Inr p \<and> pv_commit pv = ri_commit (rs_repo p) \<and> pv_date pv = rs_date p \<and>
        pv_version pv = sc_version (rs_scorecard p) \<and>
        pv_complete pv = (\<forall>k \<in> set (rs_checks p). 0 \<le> ck_score k)"
begin

lemma badge_like_result:
  assumes "sv_producer s = prod" "sv_unmarshal s = unmarshal"
  shows "re_status (handle_badge s q) = re_status (handle_result s q)"
  using assms ready_document
  by (fastforce simp: handle_badge_def handle_result_def model_parse_def
      split: sum.splits orch_outcome.splits)

lemma result_headers:
  assumes "sv_producer s = prod" "re_status (handle_result s q) = 200"
  shows "\<exists>body p. re_body (handle_result s q) = Bytes body \<and> unmarshal body = Inr p \<and>
    re_headers (handle_result s q) headerCommit = Some (ri_commit (rs_repo p)) \<and>
    re_headers (handle_result s q) headerDate = Some (rs_date p) \<and>
    re_headers (handle_result s q) headerComplete =
      Some (format_bool (\<forall>k \<in> set (rs_checks p). 0 \<le> ck_score k))"
proof -
  obtain r c pv body where b: "ref_from_path q = Inr (r, c)" "prod r c = Inr (Ready pv body)"
    using assms
    by (auto simp: handle_result_def write_produce_error_def write_not_ready_def write_error_def
        write_json_def Let_def ref_from_path_def split: sum.splits orch_outcome.splits prod.splits if_splits)
  from ready_document [OF b(2)] obtain p where p: "unmarshal body = Inr p"
    "pv_commit pv = ri_commit (rs_repo p)" "pv_date pv = rs_date p"
    "pv_complete pv = (\<forall>k \<in> set (rs_checks p). 0 \<le> ck_score k)" by blast
  show ?thesis
    by (rule exI [of _ body], rule exI [of _ p])
      (simp add: handle_result_def assms b set_provenance_def header_defs p)
qed

end

lemma orchestrated_producer:
  "orchestrated O1 \<Longrightarrow> producer (or_unmarshal O1) (\<lambda>r c. fst (get_or_produce O1 ev slot b r c))"
proof
  fix r c pv body
  assume o: "orchestrated O1" and "fst (get_or_produce O1 ev slot b r c) = Inr (Ready pv body)"
  then obtain b' bg where "get_or_produce O1 ev slot b r c = (Inr (Ready pv body), b', bg)"
    by (metis prod.collapse)
  from orchestrated.served_sound [OF o this] obtain p where p: "or_unmarshal O1 body = Inr p"
    "pv = provenance_from p (pv_source pv) (\<forall>k \<in> set (rs_checks p). 0 \<le> ck_score k)" by blast
  have "pv_commit pv = ri_commit (rs_repo p)" "pv_date pv = rs_date p"
    "pv_version pv = sc_version (rs_scorecard p)" "pv_complete pv = (\<forall>k \<in> set (rs_checks p). 0 \<le> ck_score k)"
    by (subst p(2), simp add: provenance_from_def)+
  with p(1) show "\<exists>p. or_unmarshal O1 body = Inr p \<and> pv_commit pv = ri_commit (rs_repo p) \<and>
      pv_date pv = rs_date p \<and> pv_version pv = sc_version (rs_scorecard p) \<and>
      pv_complete pv = (\<forall>k \<in> set (rs_checks p). 0 \<le> ck_score k)" by blast
qed

interpretation served: producer
  "or_unmarshal (live_orchestrator D nlm w ctx es nr http fc fs now cfg mem_blob)"
  "\<lambda>r c. fst (get_or_produce (live_orchestrator D nlm w ctx es nr http fc fs now cfg mem_blob) ev slot b r c)"
  for D nlm w ctx es nr http fc fs now cfg ev slot b
  by (rule orchestrated_producer [OF live.orchestrated_axioms])

section \<open>Properties\<close>

text \<open>
  The result endpoint maps every request to one of five statuses: 400 exactly when
  the reference or the commit does not parse, and then nothing is looked up or scanned;
  200 with the stored document verbatim; 202 with a positive \<open>Retry-After\<close> while a scan
  runs; 404 exactly for a skipped repository; and 502 for any other failure.
\<close>

theorem result_statuses:
  shows "(\<not> (is_ok (parse_repo_ref (aq_host q) (aq_org q) (aq_repo q)) \<and> is_ok (parse_commit (aq_commit q))) \<longrightarrow>
      re_status (handle_result s q) = 400 \<and>
      (\<forall>prod. handle_result (s\<lparr>sv_producer := prod\<rparr>) q = handle_result s q)) \<and>
    (\<forall>r c. parse_repo_ref (aq_host q) (aq_org q) (aq_repo q) = Inr r \<and> parse_commit (aq_commit q) = Inr c \<longrightarrow>
      (case sv_producer s r c of
         Inr (Ready pv body) \<Rightarrow>
           re_status (handle_result s q) = 200 \<and> re_body (handle_result s q) = Bytes body \<and>
           re_headers (handle_result s q) headerSource = Some (source_text (pv_source pv))
       | Inr (NotReady d) \<Rightarrow>
           re_status (handle_result s q) = 202 \<and>
           (\<exists>n \<ge> 1. re_headers (handle_result s q) ''Retry-After'' = Some (itoa n))
       | Inl e \<Rightarrow> re_status (handle_result s q) = (if is_skipped e then 404 else 502)))"
proof (intro conjI impI allI)
  assume "\<not> (is_ok (parse_repo_ref (aq_host q) (aq_org q) (aq_repo q)) \<and> is_ok (parse_commit (aq_commit q)))"
  then obtain bad where bad: "ref_from_path q = Inl bad" "re_status bad = 400"
    by (auto simp: ref_from_path_def is_ok_def write_error_def write_json_def split: sum.splits)
  then show "re_status (handle_result s q) = 400"
    and "handle_result (s\<lparr>sv_producer := prod\<rparr>) q = handle_result s q" for prod
    by (simp_all add: handle_result_def)
next
  fix r c
  assume h: "parse_repo_ref (aq_host q) (aq_org q) (aq_repo q) = Inr r \<and> parse_commit (aq_commit q) = Inr c"
  have "\<exists>n \<ge> 1. re_headers (write_not_ready d) ''Retry-After'' = Some (itoa n)" for d
    by (rule exI [of _ "max 1 (go_div (duration_round d second_ns) second_ns)"])
      (simp add: write_not_ready_def write_json_def Let_def header_defs max_def)
  with h show "case sv_producer s r c of
         Inr (Ready pv body) \<Rightarrow>
           re_status (handle_result s q) = 200 \<and> re_body (handle_result s q) = Bytes body \<and>
           re_headers (handle_result s q) headerSource = Some (source_text (pv_source pv))
       | Inr (NotReady d) \<Rightarrow>
           re_status (handle_result s q) = 202 \<and>
           (\<exists>n \<ge> 1. re_headers (handle_result s q) ''Retry-After'' = Some (itoa n))
       | Inl e \<Rightarrow> re_status (handle_result s q) = (if is_skipped e then 404 else 502)"
    by (auto simp: handle_result_def ref_from_path_def write_produce_error_def write_error_def
        write_json_def set_provenance_def header_defs write_not_ready_def Let_def
        split: sum.splits orch_outcome.splits)
qed

theorem result_statuses_witness:
  "re_status (handle_result
      \<lparr>sv_producer = (\<lambda>r c. Inl ErrSkipped), sv_ready = None, sv_caps = default_capabilities 0,
       sv_unmarshal = (\<lambda>_. Inl ErrSkipped)\<rparr>
      \<lparr>aq_host = [], aq_org = ''ossf'', aq_repo = ''scorecard'', aq_commit = []\<rparr>) = 404"
proof -
  let ?q = "\<lparr>aq_host = [], aq_org = ''ossf'', aq_repo = ''scorecard'', aq_commit = []\<rparr>"
  have 1: "parse_repo_ref [] ''ossf'' ''scorecard'' = Inr wref" by code_simp
  have 2: "parse_commit [] = Inr []" by code_simp
  let ?s = "\<lparr>sv_producer = (\<lambda>r c. Inl ErrSkipped), sv_ready = None, sv_caps = default_capabilities 0,
             sv_unmarshal = (\<lambda>_. Inl ErrSkipped)\<rparr>"
  have "is_skipped ErrSkipped" by (simp add: ErrSkipped_def)
  then show ?thesis using result_statuses [of ?q ?s] 1 2 by simp
qed

text \<open>
  Result and badge agree: served by the orchestrator, the badge endpoint answers each
  request with the status the result endpoint gives, so the stored document always parses;
  and the provenance headers of a served result are the commit, date and completeness of
  the very document in its body.
\<close>

theorem badge_agrees_with_result:
  assumes "orchestrated O1" "sv_unmarshal s = or_unmarshal O1"
    and "sv_producer s = (\<lambda>r c. fst (get_or_produce O1 ev slot b r c))"
  shows "re_status (handle_badge s q) = re_status (handle_result s q) \<and>
    (re_status (handle_result s q) = 200 \<longrightarrow>
      (\<exists>body p. re_body (handle_result s q) = Bytes body \<and> or_unmarshal O1 body = Inr p \<and>
        re_headers (handle_result s q) headerCommit = Some (ri_commit (rs_repo p)) \<and>
        re_headers (handle_result s q) headerDate = Some (rs_date p) \<and>
        re_headers (handle_result s q) headerComplete =
          Some (format_bool (\<forall>k \<in> set (rs_checks p). 0 \<le> ck_score k))))"
  using producer.badge_like_result [OF orchestrated_producer [OF assms(1)] assms(3,2)]
    producer.result_headers [OF orchestrated_producer [OF assms(1)] assms(3)] by blast

theorem badge_agrees_with_result_witness:
  "re_status (handle_badge
      \<lparr>sv_producer = (\<lambda>r c. fst (get_or_produce (worch 0) ScanDone None empty_bucket r c)), sv_ready = None,
       sv_caps = default_capabilities 0, sv_unmarshal = or_unmarshal (worch 0)\<rparr>
      \<lparr>aq_host = [], aq_org = ''ossf'', aq_repo = ''scorecard'', aq_commit = []\<rparr>) = 200"
proof -
  let ?q = "\<lparr>aq_host = [], aq_org = ''ossf'', aq_repo = ''scorecard'', aq_commit = []\<rparr>"
  let ?s = "\<lparr>sv_producer = (\<lambda>r c. fst (get_or_produce (worch 0) ScanDone None empty_bucket r c)),
             sv_ready = None, sv_caps = default_capabilities 0, sv_unmarshal = or_unmarshal (worch 0)\<rparr>"
  have 1: "parse_repo_ref [] ''ossf'' ''scorecard'' = Inr wref" by code_simp
  have 2: "parse_commit [] = Inr []" by code_simp
  have "re_status (handle_result ?s ?q) = 200"
    by (simp add: handle_result_def ref_from_path_def 1 2 worch_first)
  then show ?thesis
    using badge_agrees_with_result [OF worch_orchestrated, of ?s 0 ScanDone None empty_bucket ?q] by simp
qed

end
