(* ===== verification/ServerConfig.thy ===== *)
theory ServerConfig
  imports HttpApi
begin

text \<open>
  \<open>internal/config/config.go\<close> and \<open>cmd/scorecard-api/main.go\<close>: the configuration from
  environment variables, its validation, and how the server is put together from it.
  The conversions of the standard library that parse a duration, a float and a URL are
  parameters.
\<close>

section \<open>Configuration\<close>

definition errMissingRequired :: err where
  "errMissingRequired = Sentinel ''config: required value missing''"

definition errInvalidConfig :: err where
  "errInvalidConfig = Sentinel ''config: invalid value''"

record server_config =
  cf_bucket_url :: string
  cf_listen_addr :: string
  cf_log_level :: string
  cf_flags_provider :: string
  cf_fallback_url :: string
  cf_enabled_checks :: "string list"
  cf_github_tokens :: "string list"
  cf_latest_ttl :: duration
  cf_sync_timeout :: duration
  cf_scan_timeout :: duration
  cf_retry_after :: duration
  cf_fallback_timeout :: duration
  cf_fallback_max_age :: duration
  cf_host_rate :: rat
  cf_concurrency :: int
  cf_host_burst :: int

text \<open>
  \<open>time.ParseDuration\<close>, \<open>strconv.ParseFloat\<close>, and the scheme and host of \<open>url.Parse\<close>.
\<close>

record conversions =
  cv_duration :: "string \<Rightarrow> duration res"
  cv_float :: "string \<Rightarrow> rat res"
  cv_url :: "string \<Rightarrow> (string \<times> string) res"

definition config_duration ::
  "conversions \<Rightarrow> (string \<Rightarrow> string) \<Rightarrow> string \<Rightarrow> duration \<Rightarrow> duration res" where
  "config_duration V getenv k def =
     (let v = getenv k
      in if v = [] then Inr def
         else case cv_duration V v of
             Inl e \<Rightarrow> Inl (errorf [W errInvalidConfig, L '': '', L k, L ''='', L (quote v),
                                 L '' is not a duration: '', W e])
           | Inr d \<Rightarrow> Inr d)"

definition positive_int :: "(string \<Rightarrow> string) \<Rightarrow> string \<Rightarrow> int \<Rightarrow> int res" where
  "positive_int getenv k def =
     (let v = getenv k
      in if v = [] then Inr def
         else case atoi v of
             None \<Rightarrow> Inl (errorf [W errInvalidConfig, L '': '', L k, L ''='', L (quote v),
                                L '' is not an integer: '', W (Sentinel ''strconv.Atoi'')])
           | Some n \<Rightarrow>
               if n \<le> 0 then
                 Inl (errorf [W errInvalidConfig, L '': '', L k, L '' must be > 0, got '', L (itoa n)])
               else Inr n)"

definition non_negative_float ::
  "conversions \<Rightarrow> (string \<Rightarrow> string) \<Rightarrow> string \<Rightarrow> rat \<Rightarrow> rat res" where
  "non_negative_float V getenv k def =
     (let v = getenv k
      in if v = [] then Inr def
         else case cv_float V v of
             Inl e \<Rightarrow> Inl (errorf [W errInvalidConfig, L '': '', L k, L ''='', L (quote v),
                                 L '' is not a number: '', W e])
           | Inr f \<Rightarrow>
               if f < 0 then Inl (errorf [W errInvalidConfig, L '': '', L k, L '' must be >= 0, got '', L v])
               else Inr f)"

fun nonblank_parts :: "string list \<Rightarrow> string list" where
  "nonblank_parts [] = []"
| "nonblank_parts (p # ps) =
     (let trimmed = trim_space p
      in if trimmed \<noteq> [] then trimmed # nonblank_parts ps else nonblank_parts ps)"

definition split_list :: "string \<Rightarrow> string list" where
  "split_list v = (if v = [] then [] else nonblank_parts (split_on CHR '','' v))"

definition listen_addr :: "(string \<Rightarrow> string) \<Rightarrow> string \<Rightarrow> string" where
  "listen_addr getenv def =
     (let v = getenv ''SCORECARD_LISTEN_ADDR'' in
      if v \<noteq> [] then v
      else let p = getenv ''PORT'' in
           if p \<noteq> [] then '':'' @ p else def)"

definition validate_config :: "conversions \<Rightarrow> server_config \<Rightarrow> err option" where
  "validate_config V c =
     (if cf_fallback_url c \<noteq> [] \<and>
         (case cv_url V (cf_fallback_url c) of
            Inl e \<Rightarrow> True
          | Inr (scheme, h) \<Rightarrow> (scheme \<noteq> ''http'' \<and> scheme \<noteq> ''https'') \<or> h = [])
      then Some (errorf [W errInvalidConfig, L '': SCORECARD_FALLBACK_URL must be an http(s) URL''])
      else if cf_sync_timeout c \<le> 0 then
        Some (errorf [W errInvalidConfig, L '': SCORECARD_SYNC_TIMEOUT must be > 0''])
      else if cf_scan_timeout c \<le> 0 then
        Some (errorf [W errInvalidConfig, L '': SCORECARD_SCAN_TIMEOUT must be > 0''])
      else if cf_latest_ttl c < 0 then
        Some (errorf [W errInvalidConfig, L '': SCORECARD_LATEST_TTL must be >= 0''])
      else if cf_fallback_timeout c \<le> 0 then
        Some (errorf [W errInvalidConfig, L '': SCORECARD_FALLBACK_TIMEOUT must be > 0''])
      else if cf_fallback_max_age c \<le> 0 then
        Some (errorf [W errInvalidConfig, L '': SCORECARD_FALLBACK_MAX_AGE must be > 0''])
      else None)"

text \<open>\<open>Load\<close>: the first problem in the order of the source is the error.\<close>

definition config_load :: "conversions \<Rightarrow> (string \<Rightarrow> string) \<Rightarrow> server_config res" where
  "config_load V getenv =
     (let bucket = getenv ''SCORECARD_RESULTS_BUCKET_URL''
      in if bucket = [] then
        Inl (errorf [W errMissingRequired, L '': SCORECARD_RESULTS_BUCKET_URL (e.g. file:///var/scorecard, s3://bucket, gs://bucket, mem://)''])
      else
        let tokens = split_list (getenv ''SCORECARD_GITHUB_TOKENS'');
            level = getenv ''SCORECARD_LOG_LEVEL'';
            prov = getenv ''SCORECARD_FLAGS_PROVIDER''
        in bind_res (config_duration V getenv ''SCORECARD_LATEST_TTL'' (24 * hour_ns)) (\<lambda>ttl.
           bind_res (config_duration V getenv ''SCORECARD_SYNC_TIMEOUT'' (20 * second_ns)) (\<lambda>sync.
           bind_res (config_duration V getenv ''SCORECARD_SCAN_TIMEOUT'' (5 * minute_ns)) (\<lambda>scn.
           bind_res (config_duration V getenv ''SCORECARD_RETRY_AFTER'' (10 * second_ns)) (\<lambda>retry.
           bind_res (config_duration V getenv ''SCORECARD_FALLBACK_TIMEOUT'' (5 * second_ns)) (\<lambda>fbt.
           bind_res (config_duration V getenv ''SCORECARD_FALLBACK_MAX_AGE'' (7 * 24 * hour_ns)) (\<lambda>fba.
           bind_res (positive_int getenv ''SCORECARD_SCAN_CONCURRENCY'' 4) (\<lambda>conc.
           bind_res (positive_int getenv ''SCORECARD_HOST_RATE_BURST'' 1) (\<lambda>burst.
           bind_res (non_negative_float V getenv ''SCORECARD_HOST_RATE_PER_SECOND'' 0) (\<lambda>rate.
             let c = \<lparr>cf_bucket_url = bucket, cf_listen_addr = listen_addr getenv '':8080'',
                      cf_log_level = (if level \<noteq> [] then level else ''info''),
                      cf_flags_provider = (if prov \<noteq> [] then prov else ''static''),
                      cf_fallback_url = getenv ''SCORECARD_FALLBACK_URL'',
                      cf_enabled_checks = split_list (getenv ''SCORECARD_ENABLED_CHECKS''),
                      cf_github_tokens =
                        (if tokens = [] then split_list (getenv ''GITHUB_AUTH_TOKEN'') else tokens),
                      cf_latest_ttl = ttl, cf_sync_timeout = sync, cf_scan_timeout = scn,
                      cf_retry_after = retry, cf_fallback_timeout = fbt, cf_fallback_max_age = fba,
                      cf_host_rate = rate, cf_concurrency = conc, cf_host_burst = burst\<rparr>
             in case validate_config V c of Some e \<Rightarrow> Inl e | None \<Rightarrow> Inr c))))))))))"

section \<open>Wiring the server\<close>

definition fallback_flag_defs :: "flag_definition list" where
  "fallback_flag_defs =
     [\<lparr>fd_default = AnyBool True, fd_key = FlagEnabled, fd_env = [], fd_allowed = [], fd_kind = KindBool\<rparr>,
      \<lparr>fd_default = AnyString ModeFetchFirst, fd_key = FlagMode, fd_env = [],
       fd_allowed = [ModeFetchFirst, ModeSafetyNet], fd_kind = KindString\<rparr>]"

text \<open>The process environment and the third-party services \<open>run\<close> works with.\<close>

record ('u, 'b, 'p, 'k, 't) platform =
  pf_getenv :: "string \<Rightarrow> string"
  pf_set_provider :: "string \<Rightarrow> seeded \<Rightarrow> err option"
  pf_bool_value :: "seeded \<Rightarrow> string \<Rightarrow> bool \<Rightarrow> bool res"
  pf_string_value :: "seeded \<Rightarrow> string \<Rightarrow> string \<Rightarrow> string res"
  pf_setenv :: "string \<Rightarrow> string \<Rightarrow> err option"
  pf_url_parse :: "string \<Rightarrow> 'u url res"
  pf_url_string :: "'u url \<Rightarrow> string"
  pf_open_bucket :: "string \<Rightarrow> 'b res"
  pf_blob :: "'b blob"
  pf_docs_read :: "err option"
  pf_engine :: "('p, 'k, 't) engine_deps"
  pf_new_request :: "string \<Rightarrow> err option"
  pf_http_do :: "http_request \<Rightarrow> http_response res"
  pf_conversions :: conversions

text \<open>
  What \<open>run\<close> has built when it starts to listen: the bucket, the orchestrator (for a
  given time and a given sleep of the retries), the capabilities, the address, and the
  value \<open>GITHUB_AUTH_TOKEN\<close> was set to.
\<close>

record ('b, 'l) wired =
  wi_bucket :: 'b
  wi_engine :: "'l engine_scanner"
  wi_orchestrator :: "instant \<Rightarrow> 'b orchestrator"
  wi_caps :: capabilities
  wi_addr :: string
  wi_auth :: "string option"

definition run_wiring ::
  "('u, 'b, 'p, 'k, 't) platform \<Rightarrow> (limit \<Rightarrow> int \<Rightarrow> 'l) \<Rightarrow> ('l \<Rightarrow> err option \<times> 'l) \<Rightarrow> (int \<Rightarrow> err option)
     \<Rightarrow> ('b, 'l) wired res" where
  "run_wiring P nlm wait ctx =
     (case config_load (pf_conversions P) (pf_getenv P) of Inl e \<Rightarrow> Inl e | Inr cfg \<Rightarrow>
      case flags_new (pf_set_provider P) (pf_getenv P)
             \<lparr>fc_provider = cf_flags_provider cfg, fc_domain = []\<rparr> fallback_flag_defs of
        Inl e \<Rightarrow> Inl (errorf [L ''initializing feature flags: '', W e])
      | Inr (dmn, seeded) \<Rightarrow>
      let pool = new_pat_pool (cf_github_tokens cfg);
          auth = (if pool_len pool = 0 then None else Some (pool_joined pool))
      in case (case auth of None \<Rightarrow> None | Some v \<Rightarrow> pf_setenv P ''GITHUB_AUTH_TOKEN'' v) of
        Some e \<Rightarrow> Inl (errorf [L ''setting GITHUB_AUTH_TOKEN: '', W e])
      | None \<Rightarrow>
      case store_open (pf_url_parse P) (pf_url_string P) (pf_open_bucket P) (cf_bucket_url cfg) of
        Inl e \<Rightarrow> Inl (errorf [L ''opening result store: '', W e])
      | Inr st \<Rightarrow>
      case new_engine_scanner (pf_docs_read P)
             \<lparr>ec_limiter = Some (new_host_limiter (cf_host_rate cfg) (cf_host_burst cfg)),
              ec_checks = cf_enabled_checks cfg,
              ec_backoff = \<lparr>bc_max_attempts = 0, bc_base = 0, bc_max = 0\<rparr>\<rparr> of
        Inl e \<Rightarrow> Inl (errorf [L ''creating scanner: '', W e])
      | Inr eng \<Rightarrow>
      let flags = flags_source (pf_bool_value P) (pf_string_value P) seeded;
          caps0 = default_capabilities (cf_latest_ttl cfg);
          fb = (if cf_fallback_url cfg \<noteq> []
                then Some (new_fallback_client (cf_fallback_url cfg) (cf_fallback_timeout cfg)
                             (cf_fallback_max_age cfg))
                else None);
          opts = (\<lambda>now. with_flags (Some flags) #
                   (case fb of None \<Rightarrow> []
                    | Some c \<Rightarrow> [with_fallback (Some (fetch (pf_new_request P) (pf_http_do P)
                                   (ed_unmarshal (pf_engine P)) c now))]));
          orch = (\<lambda>now. new_orchestrator (pf_blob P) (ed_unmarshal (pf_engine P))
                    (\<lambda>r c. fst (engine_scan (pf_engine P) nlm wait ctx eng r c)) now
                    \<lparr>oc_ttl = cf_latest_ttl cfg, oc_sync_timeout = cf_sync_timeout cfg,
                     oc_scan_timeout = cf_scan_timeout cfg, oc_retry_after = cf_retry_after cfg,
                     oc_fallback_max_age = cf_fallback_max_age cfg,
                     oc_concurrency = cf_concurrency cfg\<rparr> (opts now))
      in Inr \<lparr>wi_bucket = st, wi_engine = eng, wi_orchestrator = orch,
              wi_caps = (if fb = None then caps0 else caps_with_fallback caps0),
              wi_addr = cf_listen_addr cfg, wi_auth = auth\<rparr>)"

text \<open>
  The rest of \<open>run\<close>, and \<open>main\<close>: the exit code and what it prints.  \<open>ev\<close> is what ends the
  server; the store and the scanner are closed on the way out, which can only add to the log.
\<close>

definition run_server ::
  "('u, 'b, 'p, 'k, 't) platform \<Rightarrow> (limit \<Rightarrow> int \<Rightarrow> 'l) \<Rightarrow> ('l \<Rightarrow> err option \<times> 'l) \<Rightarrow> (int \<Rightarrow> err option)
     \<Rightarrow> listen_event \<Rightarrow> err option" where
  "run_server P nlm wait ctx ev =
     (case run_wiring P nlm wait ctx of
        Inl e \<Rightarrow> Some e
      | Inr w \<Rightarrow> listen_and_serve ev)"

definition server_main ::
  "('u, 'b, 'p, 'k, 't) platform \<Rightarrow> (limit \<Rightarrow> int \<Rightarrow> 'l) \<Rightarrow> ('l \<Rightarrow> err option \<times> 'l) \<Rightarrow> (int \<Rightarrow> err option)
     \<Rightarrow> listen_event \<Rightarrow> nat \<times> string" where
  "server_main P nlm wait ctx ev =
     (case run_server P nlm wait ctx ev of
        Some e \<Rightarrow> (1, ''scorecard-api: '' @ err_text e @ nl)
      | None \<Rightarrow> (0, []))"

text \<open>The server that \<open>run\<close> starts answers over its orchestrator, which a request finds at its own time.\<close>

definition wired_server ::
  "('u, 'b, 'p, 'k, 't) platform \<Rightarrow> ('b, 'l) wired \<Rightarrow> wait_event \<Rightarrow> err option \<Rightarrow> 'b \<Rightarrow> instant \<Rightarrow> server" where
  "wired_server P w ev slot b now =
     new_server (\<lambda>r c. fst (get_or_produce (wi_orchestrator w now) ev slot b r c)) (wi_caps w)
       (ed_unmarshal (pf_engine P)) []"

lemma clean_exit:
  "fst (server_main P nlm wait ctx ev) = 0 \<longleftrightarrow>
     (\<exists>w. run_wiring P nlm wait ctx = Inr w) \<and>
     (ev = Interrupted None \<or> (\<exists>e. ev = ListenerEnded e \<and> errors_is (err_text ErrServerClosed) e))"
  by (auto simp: server_main_def run_server_def listen_and_serve_def split: sum.splits listen_event.splits option.splits)

section \<open>What a valid configuration gives\<close>

definition config_ok :: "server_config \<Rightarrow> bool" where
  "config_ok c \<longleftrightarrow>
     cf_bucket_url c \<noteq> [] \<and> 0 < cf_sync_timeout c \<and> 0 < cf_scan_timeout c \<and> 0 \<le> cf_latest_ttl c \<and>
     0 < cf_fallback_timeout c \<and> 0 < cf_fallback_max_age c \<and> 0 < cf_concurrency c \<and>
     0 < cf_host_burst c \<and> 0 \<le> cf_host_rate c"

lemma nonblank_parts_eq: "nonblank_parts ps = filter (\<lambda>p. p \<noteq> []) (map trim_space ps)"
  by (induction ps) (auto simp: Let_def)

lemma validate_config_None:
  "validate_config V c = None \<Longrightarrow>
     0 < cf_sync_timeout c \<and> 0 < cf_scan_timeout c \<and> 0 \<le> cf_latest_ttl c \<and>
     0 < cf_fallback_timeout c \<and> 0 < cf_fallback_max_age c"
  by (auto simp: validate_config_def split: if_splits)

lemma positive_int_pos: "positive_int getenv k d = Inr n \<Longrightarrow> 0 < d \<Longrightarrow> 0 < n"
  by (auto simp: positive_int_def Let_def split: if_splits option.splits)

lemma non_negative_float_nonneg: "non_negative_float V getenv k d = Inr f \<Longrightarrow> 0 \<le> d \<Longrightarrow> 0 \<le> f"
  by (auto simp: non_negative_float_def Let_def split: if_splits sum.splits)

lemma config_load_ok:
  assumes "config_load V getenv = Inr c"
  shows "config_ok c"
proof (cases "getenv ''SCORECARD_RESULTS_BUCKET_URL'' = []")
  case True
  with assms show ?thesis by (simp add: config_load_def Let_def)
next
  case False
  from assms obtain conc burst rate where
    conc: "positive_int getenv ''SCORECARD_SCAN_CONCURRENCY'' 4 = Inr conc" and
    burst: "positive_int getenv ''SCORECARD_HOST_RATE_BURST'' 1 = Inr burst" and
    rate: "non_negative_float V getenv ''SCORECARD_HOST_RATE_PER_SECOND'' 0 = Inr rate" and
    v: "validate_config V c = None" and
    c: "cf_bucket_url c = getenv ''SCORECARD_RESULTS_BUCKET_URL''" "cf_concurrency c = conc"
       "cf_host_burst c = burst" "cf_host_rate c = rate"
    unfolding config_load_def Let_def if_not_P [OF False] bind_res_Inr_iff
    by (elim exE conjE) (simp split: option.split_asm, fastforce)
  show ?thesis
    using False validate_config_None [OF v] positive_int_pos [OF conc] positive_int_pos [OF burst]
      non_negative_float_nonneg [OF rate]
    by (simp add: config_ok_def c)
qed

text \<open>The orchestrator \<open>run\<close> builds from a configuration, its scanner and the seeded flags.\<close>

definition wired_orchestrator ::
  "('u, 'b, 'p, 'k, 't) platform \<Rightarrow> (limit \<Rightarrow> int \<Rightarrow> 'l) \<Rightarrow> ('l \<Rightarrow> err option \<times> 'l) \<Rightarrow> (int \<Rightarrow> err option)
     \<Rightarrow> server_config \<Rightarrow> seeded \<Rightarrow> 'l engine_scanner \<Rightarrow> instant \<Rightarrow> 'b orchestrator" where
  "wired_orchestrator P nlm wait ctx cfg seeded eng now =
     \<lparr>or_blob = pf_blob P, or_unmarshal = ed_unmarshal (pf_engine P),
      or_scan = (\<lambda>r c. fst (engine_scan (pf_engine P) nlm wait ctx eng r c)),
      or_fallback =
        (if cf_fallback_url cfg \<noteq> [] then
           Some (fetch (pf_new_request P) (pf_http_do P) (ed_unmarshal (pf_engine P))
             (new_fallback_client (cf_fallback_url cfg) (cf_fallback_timeout cfg) (cf_fallback_max_age cfg)) now)
         else None),
      or_flags = Some (flags_source (pf_bool_value P) (pf_string_value P) seeded),
      or_pool = new_bounded (cf_concurrency cfg), or_now = now, or_ttl = cf_latest_ttl cfg,
      or_sync_timeout = cf_sync_timeout cfg, or_scan_timeout = cf_scan_timeout cfg,
      or_retry_after = (if cf_retry_after cfg \<le> 0 then 10 * second_ns else cf_retry_after cfg),
      or_fallback_max_age = cf_fallback_max_age cfg\<rparr>"

lemma run_wiring_Inr:
  assumes "run_wiring P nlm wait ctx = Inr w"
  obtains cfg dmn seeded where
    "config_load (pf_conversions P) (pf_getenv P) = Inr cfg"
    "flags_new (pf_set_provider P) (pf_getenv P)
       \<lparr>fc_provider = cf_flags_provider cfg, fc_domain = []\<rparr> fallback_flag_defs = Inr (dmn, seeded)"
    "wi_orchestrator w = wired_orchestrator P nlm wait ctx cfg seeded (wi_engine w)"
    "wi_caps w = (if cf_fallback_url cfg = [] then default_capabilities (cf_latest_ttl cfg)
                  else caps_with_fallback (default_capabilities (cf_latest_ttl cfg)))"
    "es_backoff (wi_engine w) = default_backoff" "wi_addr w = cf_listen_addr cfg"
    "wi_auth w = (if clean_tokens (cf_github_tokens cfg) = [] then None
                  else Some (join '','' (clean_tokens (cf_github_tokens cfg))))"
proof -
  obtain cfg where cfg: "config_load (pf_conversions P) (pf_getenv P) = Inr cfg"
    using assms unfolding run_wiring_def by (cases "config_load (pf_conversions P) (pf_getenv P)") auto
  obtain dmn seeded where fl: "flags_new (pf_set_provider P) (pf_getenv P)
       \<lparr>fc_provider = cf_flags_provider cfg, fc_domain = []\<rparr> fallback_flag_defs = Inr (dmn, seeded)"
    using assms unfolding run_wiring_def cfg
    by (cases "flags_new (pf_set_provider P) (pf_getenv P)
       \<lparr>fc_provider = cf_flags_provider cfg, fc_domain = []\<rparr> fallback_flag_defs") auto
  note ok = config_load_ok [OF cfg]
  show thesis
    using assms ok unfolding run_wiring_def cfg fl sum.case prod.case Let_def
    by (intro that [OF cfg fl])
      (auto simp: wired_orchestrator_def new_orchestrator_def with_flags_def with_fallback_def
        new_engine_scanner_def config_ok_def fun_eq_iff pool_len_def pool_joined_def new_pat_pool_def
        split: option.split_asm sum.split_asm if_split_asm)
qed

lemma wired_orchestrated:
  "blob_api (pf_blob P) \<Longrightarrow> orchestrated (wired_orchestrator P nlm wait ctx cfg seeded eng now)"
  by (rule orchestratedI)
    (auto simp: wired_orchestrator_def split: if_splits
      intro: engine.scanner_axioms upstream.scanner_axioms)

lemma wired_mode:
  assumes "flag_client (pf_bool_value P) (pf_string_value P)"
    and "flags_new sp getenv fc fallback_flag_defs = Inr (dmn, seeded)"
    and "fallback_decision (wired_orchestrator P nlm wait ctx cfg seeded eng now) c = (mode, True)"
  shows "mode \<in> {ModeFetchFirst, ModeSafetyNet}"
proof -
  let ?d = "\<lparr>fd_default = AnyString ModeFetchFirst, fd_key = FlagMode, fd_env = [],
       fd_allowed = [ModeFetchFirst, ModeSafetyNet], fd_kind = KindString\<rparr>"
  have "?d \<in> set fallback_flag_defs" "distinct (map fd_key fallback_flag_defs)"
    by (simp_all add: fallback_flag_defs_def FlagEnabled_def FlagMode_def)
  from flag_client.string_allowed [OF assms(1,2) this, of ModeFetchFirst]
  have "fs_string (flags_source (pf_bool_value P) (pf_string_value P) seeded) FlagMode ModeFetchFirst
          \<in> {ModeFetchFirst, ModeSafetyNet}" by simp
  with assms(3) show ?thesis
    by (auto simp: fallback_decision_def wired_orchestrator_def split: if_splits)
qed

section \<open>Properties\<close>


definition wplatform :: "(unit, mem_bucket, string, unit, unit) platform" where
  "wplatform =
     \<lparr>pf_getenv = (\<lambda>v. if v = ''SCORECARD_RESULTS_BUCKET_URL'' then ''mem://'' else []),
      pf_set_provider = (\<lambda>_ _. None), pf_bool_value = mem_boolean_value, pf_string_value = mem_string_value,
      pf_setenv = (\<lambda>_ _. None), pf_url_parse = (\<lambda>s. Inr \<lparr>u_scheme = ''mem'', u_query = Map.empty, u_rest = ()\<rparr>),
      pf_url_string = (\<lambda>_. []), pf_open_bucket = (\<lambda>_. Inr empty_bucket), pf_blob = mem_blob,
      pf_docs_read = None, pf_engine = wdeps, pf_new_request = (\<lambda>_. None),
      pf_http_do = (\<lambda>_. Inl ErrFallbackMiss),
      pf_conversions = \<lparr>cv_duration = (\<lambda>_. Inr 1), cv_float = (\<lambda>_. Inr 1), cv_url = (\<lambda>_. Inr ([], []))\<rparr>\<rparr>"

lemma wplatform_runs: "\<exists>w. run_wiring wplatform (\<lambda>_ _. ()) (\<lambda>l. (None, l)) (\<lambda>_. None) = Inr w"
proof -
  let ?cfg = "\<lparr>cf_bucket_url = ''mem://'', cf_listen_addr = '':8080'', cf_log_level = ''info'',
     cf_flags_provider = ''static'', cf_fallback_url = [], cf_enabled_checks = [], cf_github_tokens = [],
     cf_latest_ttl = 24 * hour_ns, cf_sync_timeout = 20 * second_ns, cf_scan_timeout = 5 * minute_ns,
     cf_retry_after = 10 * second_ns, cf_fallback_timeout = 5 * second_ns,
     cf_fallback_max_age = 7 * 24 * hour_ns, cf_host_rate = 0, cf_concurrency = 4, cf_host_burst = 1\<rparr>"
  have c: "config_load (pf_conversions wplatform) (pf_getenv wplatform) = Inr ?cfg"
    by (simp add: wplatform_def config_load_def Let_def config_duration_def positive_int_def
        non_negative_float_def split_list_def listen_addr_def validate_config_def duration_units)
  obtain m where f: "flags_new (pf_set_provider wplatform) (pf_getenv wplatform)
       \<lparr>fc_provider = cf_flags_provider ?cfg, fc_domain = []\<rparr> fallback_flag_defs = Inr (defaultDomain, m)"
    by (simp add: flags_new_def seed_def fallback_flag_defs_def resolve_def Let_def KindBool_def KindString_def
        validate_allowed_def ProviderStatic_def wplatform_def env_name_def envPrefix_def)
  show ?thesis
    unfolding run_wiring_def c f sum.case prod.case Let_def
    by (simp add: new_pat_pool_def pool_len_def store_open_def default_file_no_temp_dir_def)
      (simp add: wplatform_def new_engine_scanner_def)
qed


text \<open>
  Whatever the configuration, a result the started server answers with 200 is a document of the
  decoder, and its headers tell the commit, the date and the completeness of that document.
\<close>

theorem wired_server_serves_documents:
  assumes "run_wiring P nlm wait ctx = Inr w" "blob_api (pf_blob P)"
    and "re_status (handle_result (wired_server P w ev slot b now) q) = 200"
  shows "\<exists>body p. re_body (handle_result (wired_server P w ev slot b now) q) = Bytes body \<and>
    ed_unmarshal (pf_engine P) body = Inr p \<and>
    re_headers (handle_result (wired_server P w ev slot b now) q) headerCommit = Some (ri_commit (rs_repo p)) \<and>
    re_headers (handle_result (wired_server P w ev slot b now) q) headerDate = Some (rs_date p) \<and>
    re_headers (handle_result (wired_server P w ev slot b now) q) headerComplete =
      Some (format_bool (\<forall>k \<in> set (rs_checks p). 0 \<le> ck_score k))"
proof -
  obtain cfg dmn seeded where w: "wi_orchestrator w = wired_orchestrator P nlm wait ctx cfg seeded (wi_engine w)"
    by (rule run_wiring_Inr [OF assms(1)])
  have "orchestrated (wi_orchestrator w now)" unfolding w by (rule wired_orchestrated [OF assms(2)])
  then have "producer (or_unmarshal (wi_orchestrator w now))
      (\<lambda>r c. fst (get_or_produce (wi_orchestrator w now) ev slot b r c))"
    by (rule orchestrated_producer)
  moreover have "or_unmarshal (wi_orchestrator w now) = ed_unmarshal (pf_engine P)"
    by (simp add: w wired_orchestrator_def)
  ultimately show ?thesis
    using producer.result_headers [of "ed_unmarshal (pf_engine P)" _ "wired_server P w ev slot b now", OF _ _ assms(3)]
    by (simp add: wired_server_def new_server_def)
qed

end
