(* ===== verification/Diagnostics.thy ===== *)
theory Diagnostics
  imports GoStrings
begin

text \<open>
  \<open>api/app/server/verify_diagnostics.go\<close>: which diagnostics of the workflow parser are
  let through.  The YAML parser is a parameter; its node tree is modelled as the datatype
  the code walks.
\<close>

section \<open>Diagnostics and YAML nodes\<close>

record diagnostic =
  dg_kind :: string
  dg_message :: string
  dg_line :: int
  dg_column :: int
  dg_text :: string \<comment> \<open>what \<open>Error()\<close> prints\<close>

datatype ykind = DocumentNode | SequenceNode | MappingNode | ScalarNode | AliasNode

datatype ynode =
  YNode (yn_kind: ykind) (yn_line: int) (yn_column: int) (yn_value: string) (yn_content: "ynode list")

record reviewed_key =
  rk_key :: string
  rk_section :: string
  rk_value :: string

definition reviewed_keys :: "reviewed_key list" where
  "reviewed_keys =
     [\<lparr>rk_key = ''cache-mode'', rk_section = ''workflow'', rk_value = ''none''\<rparr>,
      \<lparr>rk_key = ''cache-mode'', rk_section = ''job'', rk_value = ''none''\<rparr>]"

text \<open>
  The two groups of the anchored pattern \<open>unexpected key "([^"]+)" for "([^"]+)" section\<close>.
\<close>

definition quoted_group :: "string \<Rightarrow> (string \<times> string) option" where
  "quoted_group s =
     (case s of
        [] \<Rightarrow> None
      | c # r \<Rightarrow>
          if c = CHR 0x22 then
            (case cut CHR 0x22 r of (g, rest, found) \<Rightarrow> if found \<and> g \<noteq> [] then Some (g, rest) else None)
          else None)"

definition unexpected_key :: "string \<Rightarrow> (string \<times> string) option" where
  "unexpected_key msg =
     (if prefix ''unexpected key '' msg then
        case quoted_group (drop (length ''unexpected key '') msg) of
          None \<Rightarrow> None
        | Some (k, r) \<Rightarrow>
            if prefix '' for '' r then
              (case quoted_group (drop (length '' for '') r) of
                 None \<Rightarrow> None
               | Some (sec, r2) \<Rightarrow> if prefix '' section'' r2 then Some (k, sec) else None)
            else None
      else None)"

section \<open>Finding the value\<close>

text \<open>The loop over a mapping's content, two nodes at a time.\<close>

fun entry_at :: "ynode list \<Rightarrow> int \<Rightarrow> int \<Rightarrow> string \<Rightarrow> ynode option" where
  "entry_at (k # v # rest) line column key =
     (if yn_line k = line \<and> yn_column k = column \<and> yn_value k = key then Some v
      else entry_at rest line column key)"
| "entry_at _ line column key = None"

fun value_at :: "ynode \<Rightarrow> int \<Rightarrow> int \<Rightarrow> string \<Rightarrow> ynode option"
  and value_in :: "ynode list \<Rightarrow> int \<Rightarrow> int \<Rightarrow> string \<Rightarrow> ynode option" where
  "value_at (YNode kind l c v content) line column key =
     (case (if kind = MappingNode then entry_at content line column key else None) of
        Some n \<Rightarrow> Some n
      | None \<Rightarrow> value_in content line column key)"
| "value_in [] line column key = None"
| "value_in (c # cs) line column key =
     (case value_at c line column key of
        Some n \<Rightarrow> Some n
      | None \<Rightarrow> value_in cs line column key)"

fun reviewed_loop :: "reviewed_key list \<Rightarrow> string \<Rightarrow> string \<Rightarrow> string \<Rightarrow> bool" where
  "reviewed_loop [] k sec v = False"
| "reviewed_loop (r # rs) k sec v =
     (if rk_key r = k \<and> rk_section r = sec \<and> rk_value r = v then True else reviewed_loop rs k sec v)"

definition is_reviewed :: "ynode \<Rightarrow> diagnostic \<Rightarrow> bool" where
  "is_reviewed root d =
     (if dg_kind d \<noteq> ''syntax-check'' then False
      else case unexpected_key (dg_message d) of
          None \<Rightarrow> False
        | Some (k, sec) \<Rightarrow>
            (case value_at root (dg_line d) (dg_column d) k of
               None \<Rightarrow> False
             | Some v \<Rightarrow>
                 if yn_kind v \<noteq> ScalarNode then False
                 else reviewed_loop reviewed_keys k sec (yn_value v)))"

definition unreviewed_diagnostics ::
  "(string \<Rightarrow> ynode res) \<Rightarrow> string \<Rightarrow> diagnostic list \<Rightarrow> diagnostic list" where
  "unreviewed_diagnostics yaml content diags =
     (if diags = [] then []
      else case yaml content of
          Inl e \<Rightarrow> diags
        | Inr root \<Rightarrow> filter (\<lambda>d. \<not> is_reviewed root d) diags)"

section \<open>The entries of a document\<close>

fun pairs :: "ynode list \<Rightarrow> (ynode \<times> ynode) list" where
  "pairs (k # v # rest) = (k, v) # pairs rest"
| "pairs _ = []"

text \<open>Every key and value of every mapping of a tree.\<close>

fun entries :: "ynode \<Rightarrow> (ynode \<times> ynode) list" where
  "entries (YNode kind l c v content) =
     (if kind = MappingNode then pairs content else []) @ concat (map entries content)"

lemma entry_at_pairs:
  "entry_at ns line column key = Some n \<Longrightarrow>
     \<exists>k. (k, n) \<in> set (pairs ns) \<and> yn_line k = line \<and> yn_column k = column \<and> yn_value k = key"
  by (induction ns line column key rule: entry_at.induct) (auto split: if_splits)

lemma value_at_entries:
  "value_at n line column key = Some v \<Longrightarrow>
     \<exists>k. (k, v) \<in> set (entries n) \<and> yn_line k = line \<and> yn_column k = column \<and> yn_value k = key"
  "value_in ns line column key = Some v \<Longrightarrow>
     \<exists>m \<in> set ns. \<exists>k. (k, v) \<in> set (entries m) \<and> yn_line k = line \<and> yn_column k = column \<and> yn_value k = key"
proof (induction n line column key and ns line column key rule: value_at_value_in.induct)
  case (1 kind l c v' content line column key)
  then show ?case
    by (auto split: option.splits if_splits dest!: entry_at_pairs)
qed (auto split: option.splits)

lemma reviewed_loop_iff:
  "reviewed_loop rs k sec v \<longleftrightarrow> (\<exists>r \<in> set rs. rk_key r = k \<and> rk_section r = sec \<and> rk_value r = v)"
  by (induction rs) auto

section \<open>Properties\<close>

text \<open>
  C18. Only capability-removing keys are let through: a parser diagnostic is dropped only
  if it is an unexpected-key diagnostic for \<open>cache-mode\<close> in the workflow or a job, and
  the document, parsed as YAML, has at the diagnostic's line and column a mapping entry
  with that key whose value is the scalar \<open>none\<close>; on malformed YAML nothing is dropped,
  and what is kept stays in order.
\<close>

theorem dropped_diagnostics_reviewed:
  assumes "d \<in> set diags" "d \<notin> set (unreviewed_diagnostics yaml content diags)"
  shows "\<exists>root k v sec. yaml content = Inr root \<and>
    dg_kind d = ''syntax-check'' \<and> unexpected_key (dg_message d) = Some (''cache-mode'', sec) \<and>
    sec \<in> {''workflow'', ''job''} \<and> (k, v) \<in> set (entries root) \<and>
    yn_line k = dg_line d \<and> yn_column k = dg_column d \<and> yn_value k = ''cache-mode'' \<and>
    yn_kind v = ScalarNode \<and> yn_value v = ''none'' \<and>
    unreviewed_diagnostics yaml content diags = filter (\<lambda>d. \<not> is_reviewed root d) diags"
proof -
  obtain root where root: "yaml content = Inr root" and rv: "is_reviewed root d"
    and f: "unreviewed_diagnostics yaml content diags = filter (\<lambda>d. \<not> is_reviewed root d) diags"
    using assms by (cases "diags = []") (auto simp: unreviewed_diagnostics_def split: sum.splits)
  from rv obtain key sec v where d: "dg_kind d = ''syntax-check''"
    "unexpected_key (dg_message d) = Some (key, sec)"
    "value_at root (dg_line d) (dg_column d) key = Some v" "yn_kind v = ScalarNode"
    "reviewed_loop reviewed_keys key sec (yn_value v)"
    by (auto simp: is_reviewed_def split: if_splits option.splits)
  moreover from d(5) have "key = ''cache-mode''" "sec \<in> {''workflow'', ''job''}" "yn_value v = ''none''"
    by (auto simp: reviewed_loop_iff reviewed_keys_def)
  moreover obtain k where "(k, v) \<in> set (entries root)" "yn_line k = dg_line d"
    "yn_column k = dg_column d" "yn_value k = key"
    using value_at_entries(1) [OF d(3)] by blast
  ultimately show ?thesis using root f by blast
qed

text \<open>A job that sets \<open>cache-mode: none\<close>, and the diagnostic for it.\<close>

definition wroot :: ynode where
  "wroot = YNode DocumentNode 1 1 []
     [YNode MappingNode 1 1 []
        [YNode ScalarNode 1 1 ''cache-mode'' [], YNode ScalarNode 1 13 ''none'' []]]"

definition wdiag :: diagnostic where
  "wdiag = \<lparr>dg_kind = ''syntax-check'',
     dg_message = ''unexpected key '' @ [CHR 0x22] @ ''cache-mode'' @ [CHR 0x22] @ '' for '' @ [CHR 0x22] @
       ''workflow'' @ [CHR 0x22] @ '' section. expected one of'',
     dg_line = 1, dg_column = 1, dg_text = []\<rparr>"

lemma wdiag_dropped: "unreviewed_diagnostics (\<lambda>_. Inr wroot) [] [wdiag] = []"
  by code_simp

theorem dropped_diagnostics_reviewed_witness:
  "\<exists>k v. (k, v) \<in> set (entries wroot) \<and> yn_value k = ''cache-mode'' \<and> yn_value v = ''none''"
proof -
  have "wdiag \<in> set [wdiag]" "wdiag \<notin> set (unreviewed_diagnostics (\<lambda>_. Inr wroot) [] [wdiag])"
    by (simp_all add: wdiag_dropped)
  from dropped_diagnostics_reviewed [OF this] show ?thesis by (metis sum.inject(2))
qed

end
