(* ===== verification/ObjectStore.thy ===== *)
theory ObjectStore
  imports GoStrings
begin

text \<open>
  \<open>cron/data/blob.go\<close>, its operations on a bucket: listing, reading, testing and
  writing one object of the bucket that a URL names.  \<open>gocloud.dev/blob\<close> is a
  parameter, a record of operations on an abstract storage state; the documented
  laws the code relies on are the locale \<open>object_laws\<close>.
\<close>

section \<open>The storage interface\<close>

record 's object_store =
  os_open :: "'s \<Rightarrow> string \<Rightarrow> err option" \<comment> \<open>the error of \<open>blob.OpenBucket\<close>\<close>
  os_list :: "'s \<Rightarrow> string \<Rightarrow> string \<Rightarrow> string list \<times> err option"
    \<comment> \<open>the keys \<open>ListIterator.Next\<close> gives, then its error, \<open>None\<close> for \<open>io.EOF\<close>\<close>
  os_read_all :: "'s \<Rightarrow> string \<Rightarrow> string \<Rightarrow> string res"
  os_exists :: "'s \<Rightarrow> string \<Rightarrow> string \<Rightarrow> bool res"
  os_new_writer :: "'s \<Rightarrow> string \<Rightarrow> string \<Rightarrow> err option"
  os_write :: "'s \<Rightarrow> string \<Rightarrow> string \<Rightarrow> string \<Rightarrow> err option" \<comment> \<open>\<open>Writer.Write\<close>\<close>
  os_finish :: "'s \<Rightarrow> string \<Rightarrow> string \<Rightarrow> string \<Rightarrow> err option \<times> 's" \<comment> \<open>\<open>Writer.Close\<close>, which stores\<close>

definition open_error :: "err \<Rightarrow> err" where
  "open_error e = errorf [L ''error from blob.OpenBucket: '', W e]"

section \<open>Operations\<close>

definition blob_keys_prefix :: "'s object_store \<Rightarrow> 's \<Rightarrow> string \<Rightarrow> string \<Rightarrow> string list res" where
  "blob_keys_prefix B s url p =
     (case os_list B s url p of
        (keys, None) \<Rightarrow> Inr keys
      | (keys, Some e) \<Rightarrow> Inl (errorf [L ''error during iter.Next: '', W e]))"

definition get_blob_keys_with_prefix :: "'s object_store \<Rightarrow> 's \<Rightarrow> string \<Rightarrow> string \<Rightarrow> string list res" where
  "get_blob_keys_with_prefix B s url p =
     (case os_open B s url of
        Some e \<Rightarrow> Inl (open_error e)
      | None \<Rightarrow> blob_keys_prefix B s url p)"

definition get_blob_keys :: "'s object_store \<Rightarrow> 's \<Rightarrow> string \<Rightarrow> string list res" where
  "get_blob_keys B s url = get_blob_keys_with_prefix B s url []"

definition get_blob_content :: "'s object_store \<Rightarrow> 's \<Rightarrow> string \<Rightarrow> string \<Rightarrow> string res" where
  "get_blob_content B s url k =
     (case os_open B s url of
        Some e \<Rightarrow> Inl (open_error e)
      | None \<Rightarrow>
          (case os_read_all B s url k of
             Inl e \<Rightarrow> Inl (errorf [L ''error during bucket.ReadAll: '', W e])
           | Inr d \<Rightarrow> Inr d))"

definition blob_exists :: "'s object_store \<Rightarrow> 's \<Rightarrow> string \<Rightarrow> string \<Rightarrow> bool res" where
  "blob_exists B s url k =
     (case os_open B s url of
        Some e \<Rightarrow> Inl (open_error e)
      | None \<Rightarrow>
          (case os_exists B s url k of
             Inl e \<Rightarrow> Inl (errorf [L ''error during bucket.Exists: '', W e])
           | Inr b \<Rightarrow> Inr b))"

definition write_to_blob_store ::
  "'s object_store \<Rightarrow> 's \<Rightarrow> string \<Rightarrow> string \<Rightarrow> string \<Rightarrow> err option \<times> 's" where
  "write_to_blob_store B s url filename d =
     (case os_open B s url of
        Some e \<Rightarrow> (Some (open_error e), s)
      | None \<Rightarrow>
      case os_new_writer B s url filename of
        Some e \<Rightarrow> (Some (errorf [L ''error from bucket.NewWriter: '', W e]), s)
      | None \<Rightarrow>
      case os_write B s url filename d of
        Some e \<Rightarrow> (Some (errorf [L ''error from blobWriter.Write: '', W e]), s)
      | None \<Rightarrow>
      case os_finish B s url filename d of
        (Some e, s') \<Rightarrow> (Some (errorf [L ''error from blobWriter.Close: '', W e]), s')
      | (None, s') \<Rightarrow> (None, s'))"

lemma write_to_blob_store_None:
  "write_to_blob_store B s url k d = (None, s') \<longleftrightarrow>
     os_open B s url = None \<and> os_new_writer B s url k = None \<and> os_write B s url k d = None \<and>
     os_finish B s url k d = (None, s')"
  by (auto simp: write_to_blob_store_def split: option.splits prod.splits)

section \<open>The contract of the storage\<close>

locale object_laws =
  fixes B :: "'s object_store"
  assumes read_finished:
      "os_finish B s u k d = (None, s') \<Longrightarrow> os_read_all B s' u k = Inr x \<Longrightarrow> x = d"
    and exists_finished:
      "os_finish B s u k d = (None, s') \<Longrightarrow> os_exists B s' u k = Inr b \<Longrightarrow> b"
    and listed_finished:
      "os_finish B s u k d = (None, s') \<Longrightarrow> os_list B s' u p = (ks, None) \<Longrightarrow>
         (k \<in> set ks \<longleftrightarrow> (\<exists>q. k = p @ q))"
    and read_other:
      "os_finish B s u k d = (e, s') \<Longrightarrow> (u', k') \<noteq> (u, k) \<Longrightarrow>
         os_read_all B s' u' k' = os_read_all B s u' k'"
    and exists_other:
      "os_finish B s u k d = (e, s') \<Longrightarrow> (u', k') \<noteq> (u, k) \<Longrightarrow> os_exists B s' u' k' = os_exists B s u' k'"
begin

lemma write_read:
  "write_to_blob_store B s u k d = (None, s') \<Longrightarrow> os_read_all B s' u k = Inr x \<Longrightarrow> x = d"
  by (auto simp: write_to_blob_store_None intro: read_finished)

lemma write_exists:
  "write_to_blob_store B s u k d = (None, s') \<Longrightarrow> blob_exists B s' u k = Inr b \<Longrightarrow> b"
  by (auto simp: write_to_blob_store_None blob_exists_def intro: exists_finished split: option.splits sum.splits)

lemma write_read_other:
  "write_to_blob_store B s u k d = (e, s') \<Longrightarrow> (u', k') \<noteq> (u, k) \<Longrightarrow>
     os_read_all B s' u' k' = os_read_all B s u' k'"
  by (auto simp: write_to_blob_store_def read_other split: option.splits prod.splits)

lemma write_exists_other:
  "write_to_blob_store B s u k d = (e, s') \<Longrightarrow> (u', k') \<noteq> (u, k) \<Longrightarrow>
     os_exists B s' u' k' = os_exists B s u' k'"
  by (auto simp: write_to_blob_store_def exists_other split: option.splits prod.splits)

end

text \<open>Storage in memory: an association list of the objects written, last write first.\<close>

record mem_storage =
  ms_objects :: "((string \<times> string) \<times> string) list"
  ms_closed :: "string list" \<comment> \<open>bucket URLs that do not open\<close>

definition mem_store :: "mem_storage object_store" where
  "mem_store =
     \<lparr>os_open = (\<lambda>s u. if u \<in> set (ms_closed s) then Some (Sentinel ''no such bucket'') else None),
      os_list = (\<lambda>s u p. (map (\<lambda>kv. snd (fst kv)) (filter (\<lambda>kv. fst (fst kv) = u \<and> prefix p (snd (fst kv))) (ms_objects s)), None)),
      os_read_all = (\<lambda>s u k. case map_of (ms_objects s) (u, k) of
                        None \<Rightarrow> Inl (Sentinel ''blob not found'') | Some d \<Rightarrow> Inr d),
      os_exists = (\<lambda>s u k. Inr (map_of (ms_objects s) (u, k) \<noteq> None)),
      os_new_writer = (\<lambda>s u k. None),
      os_write = (\<lambda>s u k d. None),
      os_finish = (\<lambda>s u k d. (None, s\<lparr>ms_objects := ((u, k), d) # ms_objects s\<rparr>))\<rparr>"

definition empty_storage :: mem_storage where
  "empty_storage = \<lparr>ms_objects = [], ms_closed = []\<rparr>"

interpretation mem_objects: object_laws mem_store
  by unfold_locales (auto simp: mem_store_def prefix_def split: option.splits if_splits)

end
