(* ===== verification/Cdn.thy ===== *)
theory Cdn
  imports ObjectStore Fallback
begin

text \<open>
  \<open>api/app/server/internal/cdn/cdn.go\<close>, \<open>github_transport.go\<close> and \<open>getPurger\<close> of
  \<open>post_results.go\<close>: the CDN clients (\<open>cron/internal/cdn/client.go\<close> is the same code), and the client they and the rest of the API
  send requests with.  \<open>http.DefaultClient\<close> is one value shared by the process, whose
  \<open>Transport\<close> the publish path assigns; it is part of the state here.
\<close>

section \<open>The shared HTTP client\<close>

record api_request =
  aq_method :: string
  aq_url :: string
  aq_headers :: "(string \<times> string) list"
  aq_body :: string

record api_response = http_response +
  rp_status_text :: string

text \<open>
  The world a request handler runs in: the token of the \<open>githubTransport\<close> that
  \<open>http.DefaultClient.Transport\<close> holds (\<open>None\<close> while it is nil), the requests sent so
  far by that client, and the object storage.
\<close>

record 's world =
  wd_token :: "string option"
  wd_sent :: "api_request list"
  wd_store :: 's

text \<open>What the network answers, given the requests sent before.\<close>

type_synonym network = "api_request list \<Rightarrow> api_request \<Rightarrow> api_response res"

definition add_header :: "string \<Rightarrow> string \<Rightarrow> api_request \<Rightarrow> api_request" where
  "add_header k v r = r\<lparr>aq_headers := aq_headers r @ [(k, v)]\<rparr>"

definition bearer :: "string \<Rightarrow> string \<times> string" where
  "bearer token = (''Authorization'', ''Bearer '' @ token)"

definition round_trip :: "string \<Rightarrow> api_request \<Rightarrow> api_request" where
  "round_trip token r = add_header (fst (bearer token)) (snd (bearer token)) r"

definition default_client_do ::
  "network \<Rightarrow> 's world \<Rightarrow> api_request \<Rightarrow> api_response res \<times> 's world" where
  "default_client_do net w r =
     (let r' = (case wd_token w of None \<Rightarrow> r | Some token \<Rightarrow> round_trip token r)
      in (net (wd_sent w) r', w\<lparr>wd_sent := wd_sent w @ [r']\<rparr>))"

section \<open>Purging\<close>

definition errPurgeFailed :: err where "errPurgeFailed = Sentinel ''purge failed''"

datatype purger = NoOpClient | FastlyClient (fc_token: string) (fc_base_url: string)

definition new_fastly_client :: "string \<Rightarrow> string \<Rightarrow> purger" where
  "new_fastly_client token base_url = FastlyClient token (trim_suffix ''/'' base_url)"

definition purge_request :: "string \<Rightarrow> string \<Rightarrow> string \<Rightarrow> api_request" where
  "purge_request token base_url path =
     \<lparr>aq_method = ''PURGE'', aq_url = base_url @ path, aq_headers = [(''Fastly-Key'', token)], aq_body = []\<rparr>"

text \<open>\<open>new_request\<close> is the error of \<open>http.NewRequestWithContext\<close> for a URL.\<close>

fun purge ::
  "(string \<Rightarrow> err option) \<Rightarrow> network \<Rightarrow> purger \<Rightarrow> 's world \<Rightarrow> string \<Rightarrow> err option \<times> 's world" where
  "purge new_request net NoOpClient w path = (None, w)"
| "purge new_request net (FastlyClient token base_url) w path =
     (case new_request (base_url @ path) of
        Some e \<Rightarrow> (Some (errorf [L ''http.NewRequest: '', W e]), w)
      | None \<Rightarrow>
          (case default_client_do net w (purge_request token base_url path) of
             (Inl e, w') \<Rightarrow> (Some (errorf [L ''http.Do: '', W e]), w')
           | (Inr resp, w') \<Rightarrow>
               if rp_status resp \<noteq> 200 then
                 (Some (errorf [W errPurgeFailed, L '': '', L (rp_status_text resp)]), w')
               else (None, w')))"

definition get_purger :: "(string \<Rightarrow> string) \<Rightarrow> purger" where
  "get_purger getenv =
     (if getenv ''STORAGE_EMULATOR_HOST'' \<noteq> [] then NoOpClient
      else if getenv ''API_BASE_URL'' = [] then NoOpClient
      else if getenv ''FASTLY_PURGE_TOKEN'' = [] then NoOpClient
      else new_fastly_client (getenv ''FASTLY_PURGE_TOKEN'') (getenv ''API_BASE_URL''))"

section \<open>What sending a request leaves alone\<close>

text \<open>
  Every step of a handler extends the log of sent requests.  \<open>extends\<close> relates the
  worlds before and after a step that leaves token and storage alone and sends only
  requests that carry the token in force.
\<close>

definition authorised :: "string option \<Rightarrow> api_request \<Rightarrow> bool" where
  "authorised token r = (\<forall>t. token = Some t \<longrightarrow> bearer t \<in> set (aq_headers r))"

definition extends :: "'s world \<Rightarrow> 's world \<Rightarrow> bool" where
  "extends w w' \<longleftrightarrow>
     wd_token w' = wd_token w \<and> wd_store w' = wd_store w \<and>
     (\<exists>new. wd_sent w' = wd_sent w @ new \<and> list_all (authorised (wd_token w)) new)"

lemma extends_refl [simp, intro]: "extends w w"
  by (simp add: extends_def)

lemma extends_trans: "extends w1 w2 \<Longrightarrow> extends w2 w3 \<Longrightarrow> extends w1 w3"
  by (force simp: extends_def)

lemma extends_token: "extends w w' \<Longrightarrow> wd_token w' = wd_token w"
  and extends_store: "extends w w' \<Longrightarrow> wd_store w' = wd_store w"
  by (simp_all add: extends_def)

lemma do_extends: "default_client_do net w r = (a, w') \<Longrightarrow> extends w w'"
  by (auto simp: default_client_do_def extends_def Let_def authorised_def round_trip_def add_header_def
      bearer_def split: option.splits)

lemma purge_extends: "purge nr net p w path = (e, w') \<Longrightarrow> extends w w'"
  by (cases p) (auto intro: do_extends split: option.splits prod.splits sum.splits if_splits)

end
