(* ===== verification/CertCheck.thy ===== *)
theory CertCheck
  imports Cdn
begin

text \<open>
  The transparency-log half of \<open>api/app/server/post_results.go\<close>, with
  \<open>internal/hashedrekord\<close>: finding the log entry of a payload, checking that it is
  about the payload, checking its inclusion proof and signed timestamp, and
  extracting and checking the certificate of its signer.  Hashes, signatures,
  certificate chains, PEM and JSON are parameters (the record \<open>libs\<close>).
\<close>

section \<open>Data\<close>

record inclusion_proof =
  ip_hashes :: "string list"
  ip_root_hash :: string
  ip_tree_size :: nat
  ip_log_index :: nat

record verification =
  ve_inclusion_proof :: "inclusion_proof option"
  ve_set :: string \<comment> \<open>\<open>SignedEntryTimestamp\<close>\<close>

record tlog_entry =
  te_body :: string
  te_integrated_time :: int
  te_log_id :: string
  te_log_index :: int
  te_verification :: "verification option"

record rekord_body =
  rk_api_version :: string
  rk_kind :: string
  rk_hash_algorithm :: string \<comment> \<open>\<open>Spec.Data.Hash\<close>\<close>
  rk_hash_value :: string
  rk_signature :: string \<comment> \<open>\<open>Spec.Signature.Content\<close>\<close>
  rk_public_key :: string \<comment> \<open>\<open>Spec.Signature.PublicKey.Content\<close>\<close>

text \<open>An \<open>x509.Certificate\<close>: the fields the code reads, and the rest.\<close>

record certificate =
  ct_not_before :: instant
  ct_not_after :: instant
  ct_extensions :: "(string \<times> string) list" \<comment> \<open>the text of the identifier, and the value\<close>
  ct_uri_paths :: "string list" \<comment> \<open>\<open>Path\<close> of each of \<open>URIs\<close>\<close>
  ct_raw :: string

datatype 'k public_key = EcdsaKey 'k | OtherKey

text \<open>
  The parts of the standard library and of third-party packages the checks call.
  \<open>pem.Decode\<close> finds a block and gives its bytes and the rest of the input, a proper
  suffix: \<open>Some (der, n)\<close> stands for the rest after \<open>n + 1\<close> bytes.
\<close>

record ('k, 'p) libs =
  lb_sha256 :: "string \<Rightarrow> string"
  lb_base64_decode :: "string \<Rightarrow> string res"
  lb_unmarshal_rekord :: "string \<Rightarrow> rekord_body res"
  lb_decode_uuids :: "api_response \<Rightarrow> string list res"
  lb_decode_entries :: "api_response \<Rightarrow> (string \<times> tlog_entry) list res" \<comment> \<open>a map, in the order of \<open>range\<close>\<close>
  lb_marshal_set :: "string \<Rightarrow> int \<Rightarrow> string \<Rightarrow> int \<Rightarrow> string res"
  lb_canonical :: "string \<Rightarrow> string res"
  lb_pem_decode :: "string \<Rightarrow> (string \<times> nat) option"
  lb_parse_certificate :: "string \<Rightarrow> certificate res"
  lb_parse_pkix :: "string \<Rightarrow> 'k public_key res"
  lb_verify_inclusion :: "nat \<Rightarrow> nat \<Rightarrow> string \<Rightarrow> string list \<Rightarrow> string \<Rightarrow> err option"
  lb_verify_asn1 :: "'k \<Rightarrow> string \<Rightarrow> string \<Rightarrow> bool"
  lb_append_certs :: "string \<Rightarrow> 'p option"
  lb_verify_chain :: "certificate \<Rightarrow> instant \<Rightarrow> 'p \<Rightarrow> 'p \<Rightarrow> err option" \<comment> \<open>for code signing\<close>
  lb_rekor_pub :: string
  lb_fulcio_root :: string
  lb_fulcio_intermediate :: string
  lb_time_text :: "instant \<Rightarrow> string"

section \<open>Hexadecimal\<close>

definition hex_val :: "char \<Rightarrow> nat option" where
  "hex_val c =
     (if is_digit c then Some (ord c - 48)
      else if 97 \<le> ord c \<and> ord c \<le> 102 then Some (ord c - 87)
      else if 65 \<le> ord c \<and> ord c \<le> 70 then Some (ord c - 55)
      else None)"

text \<open>\<open>%#U\<close> of a byte as a code point, after \<open>U+00\<close>: its digits and, when printable, itself.\<close>

definition rune_text :: "char \<Rightarrow> string" where
  "rune_text c =
     map upper_char [hex_digit (ord c div 16), hex_digit (ord c mod 16)] @
     (if 32 \<le> ord c \<and> ord c < 127 then '' '' @ [CHR 0x27, c, CHR 0x27]
      else if 161 \<le> ord c \<and> ord c \<noteq> 173
      then '' '' @ [CHR 0x27, char_of (192 + ord c div 64), char_of (128 + ord c mod 64), CHR 0x27]
      else [])"

definition invalid_byte_error :: "char \<Rightarrow> err" where
  "invalid_byte_error c = Typed ''hex.InvalidByteError'' (''encoding/hex: invalid byte: U+00'' @ rune_text c) []"

definition errLength :: err where "errLength = Sentinel ''encoding/hex: odd length hex string''"

fun hex_decode :: "string \<Rightarrow> string res" where
  "hex_decode [] = Inr []"
| "hex_decode [p] = (case hex_val p of None \<Rightarrow> Inl (invalid_byte_error p) | Some _ \<Rightarrow> Inl errLength)"
| "hex_decode (p # q # s) =
     (case hex_val p of
        None \<Rightarrow> Inl (invalid_byte_error p)
      | Some a \<Rightarrow>
      case hex_val q of
        None \<Rightarrow> Inl (invalid_byte_error q)
      | Some b \<Rightarrow> (case hex_decode s of Inl e \<Rightarrow> Inl e | Inr ds \<Rightarrow> Inr (char_of (16 * a + b) # ds)))"

fun hex_encode :: "string \<Rightarrow> string" where
  "hex_encode [] = []"
| "hex_encode (c # s) = hex_digit (ord c div 16) # hex_digit (ord c mod 16) # hex_encode s"

section \<open>Log entries: \<open>internal/hashedrekord\<close> and \<open>rekord\<close>\<close>

definition hashedrekord_kind :: string where "hashedrekord_kind = ''hashedrekord''"
definition sha256AlgorithmName :: string where "sha256AlgorithmName = ''sha256''"

definition sha256_hex :: "('k, 'p) libs \<Rightarrow> string \<Rightarrow> string" where
  "sha256_hex lb d = hex_encode (lb_sha256 lb d)"

definition rekord_matches :: "('k, 'p) libs \<Rightarrow> rekord_body \<Rightarrow> string \<Rightarrow> bool" where
  "rekord_matches lb b d =
     (if rk_hash_algorithm b \<noteq> sha256AlgorithmName then False
      else sha256_hex lb d = rk_hash_value b)"

function certs_loop :: "('k, 'p) libs \<Rightarrow> string \<Rightarrow> certificate list \<Rightarrow> certificate list res" where
  "certs_loop lb remaining result =
     (if remaining = [] then Inr result
      else case lb_pem_decode lb remaining of
          None \<Rightarrow> Inl (errorf [L ''error during PEM decoding: %!w(<nil>)''])
        | Some (der, n) \<Rightarrow>
            (case lb_parse_certificate lb der of
               Inl e \<Rightarrow> Inl (errorf [L ''error during certificate parsing: '', W e])
             | Inr cert \<Rightarrow> certs_loop lb (drop (Suc n) remaining) (result @ [cert])))"
  by pat_completeness auto
termination by (relation "measure (\<lambda>(lb, remaining, result). length remaining)") auto

declare certs_loop.simps [simp del]

definition rekord_certs :: "('k, 'p) libs \<Rightarrow> rekord_body \<Rightarrow> certificate list res" where
  "rekord_certs lb b =
     (case lb_base64_decode lb (rk_public_key b) of
        Inl e \<Rightarrow> Inl (errorf [L ''decode rekord public key: '', W e])
      | Inr public_key \<Rightarrow> certs_loop lb public_key [])"

definition errNotRekordEntry :: err where "errNotRekordEntry = Sentinel ''not a rekord entry''"

definition entry_rekord :: "('k, 'p) libs \<Rightarrow> tlog_entry \<Rightarrow> rekord_body res" where
  "entry_rekord lb t =
     (case lb_base64_decode lb (te_body t) of
        Inl e \<Rightarrow> Inl (errorf [L ''decode rekord body: '', W e])
      | Inr b \<Rightarrow>
      case lb_unmarshal_rekord lb b of
        Inl e \<Rightarrow> Inl (errorf [L ''unmarshal rekord body: '', W e])
      | Inr body \<Rightarrow> if rk_kind body \<noteq> hashedrekord_kind then Inl errNotRekordEntry else Inr body)"

section \<open>Looking entries up\<close>

definition errRekorSearchUnavailable :: err where
  "errRekorSearchUnavailable = Sentinel ''rekor search index unavailable''"
definition errNoTlogEntry :: err where "errNoTlogEntry = Sentinel ''no transparency log entry found''"
definition errMismatchedTlogEntry :: err where
  "errMismatchedTlogEntry = Sentinel ''tlog entry does not match payload''"
definition errMultipleCerts :: err where
  "errMultipleCerts = Sentinel ''multiple certificates found for the entry''"

definition noTlogIndex :: int where "noTlogIndex = 0"

definition dquote :: string where "dquote = [CHR 0x22]"

definition search_request :: "('k, 'p) libs \<Rightarrow> string \<Rightarrow> api_request" where
  "search_request lb payload =
     \<lparr>aq_method = ''POST'', aq_url = ''https://rekor.sigstore.dev/api/v1/index/retrieve'',
      aq_headers = [(''Content-Type'', ''application/json''), (''accept'', ''application/json'')],
      aq_body = ''{'' @ dquote @ ''hash'' @ dquote @ '':'' @ dquote @ ''sha256:'' @ sha256_hex lb payload @ dquote @ ''}''\<rparr>"

definition get_uuids_by_payload ::
  "('k, 'p) libs \<Rightarrow> network \<Rightarrow> 's world \<Rightarrow> string \<Rightarrow> string list res \<times> 's world" where
  "get_uuids_by_payload lb net w payload =
     (case default_client_do net w (search_request lb payload) of
        (Inl e, w') \<Rightarrow> (Inl (errorf [L ''looking up Rekor index: '', W e]), w')
      | (Inr resp, w') \<Rightarrow>
          (if rp_status resp \<noteq> 200 then
             Inl (errorf [W errRekorSearchUnavailable, L '': status '', L (itoa (rp_status resp)), L '': '',
               L (trim_space (take 512 (rp_body resp)))])
           else case lb_decode_uuids lb resp of
               Inl e \<Rightarrow> Inl (errorf [W errRekorSearchUnavailable, L '': decoding response: '', W e])
             | Inr uuids \<Rightarrow> Inr uuids, w'))"

definition entries_request :: "string \<Rightarrow> api_request" where
  "entries_request url =
     \<lparr>aq_method = ''GET'', aq_url = url, aq_headers = [(''accept'', ''application/json'')], aq_body = []\<rparr>"

definition get_tlog_entry_from_url ::
  "('k, 'p) libs \<Rightarrow> (string \<Rightarrow> err option) \<Rightarrow> network \<Rightarrow> 's world \<Rightarrow> string
     \<Rightarrow> (string \<times> tlog_entry) res \<times> 's world" where
  "get_tlog_entry_from_url lb new_request net w url =
     (case new_request url of
        Some e \<Rightarrow> (Inl (errorf [L ''creating new HTTP request: '', W e]), w)
      | None \<Rightarrow>
          (case default_client_do net w (entries_request url) of
             (Inl e, w') \<Rightarrow> (Inl (errorf [L ''looking up Rekor index: '', W e]), w')
           | (Inr resp, w') \<Rightarrow>
               (case lb_decode_entries lb resp of
                  Inl e \<Rightarrow> Inl (errorf [L ''decoding Rekor response: '', W e])
                | Inr [] \<Rightarrow> Inl errNoTlogEntry
                | Inr ((uuid, res) # rest) \<Rightarrow> Inr (uuid, res), w')))"

definition get_tlog_entry_by_index ::
  "('k, 'p) libs \<Rightarrow> (string \<Rightarrow> err option) \<Rightarrow> network \<Rightarrow> 's world \<Rightarrow> int
     \<Rightarrow> (string \<times> tlog_entry) res \<times> 's world" where
  "get_tlog_entry_by_index lb new_request net w index =
     get_tlog_entry_from_url lb new_request net w
       (''https://rekor.sigstore.dev/api/v1/log/entries?logIndex='' @ itoa index)"

definition get_tlog_entry_by_uuid ::
  "('k, 'p) libs \<Rightarrow> (string \<Rightarrow> err option) \<Rightarrow> network \<Rightarrow> 's world \<Rightarrow> string
     \<Rightarrow> tlog_entry res \<times> 's world" where
  "get_tlog_entry_by_uuid lb new_request net w uuid =
     apfst (map_sum id snd)
       (get_tlog_entry_from_url lb new_request net w (''https://rekor.sigstore.dev/api/v1/log/entries/'' @ uuid))"

section \<open>The inclusion proof and the certificate\<close>

fun decode_hashes :: "string list \<Rightarrow> string list res" where
  "decode_hashes [] = Inr []"
| "decode_hashes (h # hs) =
     (case hex_decode h of
        Inl e \<Rightarrow> Inl (errorf [L ''error decoding inclusion proof hashes: '', W e])
      | Inr hb \<Rightarrow> (case decode_hashes hs of Inl e \<Rightarrow> Inl e | Inr hbs \<Rightarrow> Inr (hb # hbs)))"

definition check_timestamp :: "('k, 'p) libs \<Rightarrow> tlog_entry \<Rightarrow> verification \<Rightarrow> err option" where
  "check_timestamp lb e v =
     (case lb_pem_decode lb (lb_rekor_pub lb) of
        None \<Rightarrow> Some (errorf [L ''PEM decoding failed''])
      | Some (der, n) \<Rightarrow>
      case lb_parse_pkix lb der of
        Inl er \<Rightarrow> Some (errorf [L ''parsing Rekor pub key: '', W er])
      | Inr OtherKey \<Rightarrow> Some (errorf [L ''public key retrieved from Rekor is not an ECDSA key''])
      | Inr (EcdsaKey pub) \<Rightarrow>
      case lb_marshal_set lb (te_body e) (te_integrated_time e) (te_log_id e) (te_log_index e) of
        Inl er \<Rightarrow> Some (errorf [L ''json marshalling Rekor payload: '', W er])
      | Inr json \<Rightarrow>
      case lb_canonical lb json of
        Inl er \<Rightarrow> Some (errorf [L ''json canonicalizer: '', W er])
      | Inr canonical \<Rightarrow>
          if \<not> lb_verify_asn1 lb pub (lb_sha256 lb canonical) (ve_set v) then Some (errorf [L ''unable to verify''])
          else None)"

definition leaf_of :: "string \<Rightarrow> string" where
  "leaf_of bytes = (if 32 < length bytes then drop (length bytes - 32) bytes else bytes)"

definition verify_inclusion_proof :: "('k, 'p) libs \<Rightarrow> string \<Rightarrow> tlog_entry \<Rightarrow> err option" where
  "verify_inclusion_proof lb uuid e =
     (case te_verification e of
        None \<Rightarrow> Some (errorf [L ''no inclusion proof provided''])
      | Some v \<Rightarrow>
      case ve_inclusion_proof v of
        None \<Rightarrow> Some (errorf [L ''no inclusion proof provided''])
      | Some p \<Rightarrow>
      case hex_decode (ip_root_hash p) of
        Inl er \<Rightarrow> Some (errorf [L ''error decoding hex encoded root hash: '', W er])
      | Inr root_hash \<Rightarrow>
      case hex_decode uuid of
        Inl er \<Rightarrow> Some (errorf [L ''error decoding hex encoded leaf hash: '', W er])
      | Inr leaf \<Rightarrow>
          if length leaf < 32 then
            Some (errorf [L ''leafHash has unexpected size '', L (itoa (int (length leaf))), L '', want 32''])
          else case decode_hashes (ip_hashes p) of
              Inl er \<Rightarrow> Some er
            | Inr hashes \<Rightarrow>
                (case lb_verify_inclusion lb (ip_log_index p) (ip_tree_size p) (leaf_of leaf) hashes root_hash of
                   Some er \<Rightarrow> Some (errorf [W er, L '': verifying inclusion proof''])
                 | None \<Rightarrow> check_timestamp lb e v))"

definition get_cert_pool :: "('k, 'p) libs \<Rightarrow> string \<Rightarrow> 'p res" where
  "get_cert_pool lb cert =
     (case lb_append_certs lb cert of
        None \<Rightarrow> Inl (errorf [L ''unmarshalling PEM certificate''])
      | Some pool \<Rightarrow> Inr pool)"

definition verify_cert :: "('k, 'p) libs \<Rightarrow> certificate \<Rightarrow> instant \<Rightarrow> err option" where
  "verify_cert lb cert integrated =
     (case get_cert_pool lb (lb_fulcio_root lb) of
        Inl e \<Rightarrow> Some (errorf [L ''retrieving Fulcio root: '', W e])
      | Inr roots \<Rightarrow>
      case get_cert_pool lb (lb_fulcio_intermediate lb) of
        Inl e \<Rightarrow> Some (errorf [L ''retrieving Fulcio root: '', W e])
      | Inr intermediates \<Rightarrow>
      case lb_verify_chain lb cert (ct_not_before cert) roots intermediates of
        Some e \<Rightarrow> Some (errorf [L ''verifying Fulcio issued certificate: '', W e])
      | None \<Rightarrow>
          if ct_not_after cert < integrated then
            Some (errorf [L ''certificate expired before signatures were entered in log: '',
              L (lb_time_text lb (ct_not_after cert)), L '' is before '', L (lb_time_text lb integrated)])
          else if integrated < ct_not_before cert then
            Some (errorf [L ''certificate was issued after signatures were entered in log: '',
              L (lb_time_text lb (ct_not_after cert)), L '' is after '', L (lb_time_text lb integrated)])
          else None)"

text \<open>\<open>time.Unix(s, 0)\<close>: seconds are kept from the year 1 in an \<open>int64\<close>.\<close>

definition time_unix :: "int \<Rightarrow> instant" where
  "time_unix s = (i64 (s + 62135596800) - 62135596800) * second_ns"

text \<open>\<open>extractAndVerifyCertForPayload\<close> once the entry has been fetched.\<close>

definition check_entry ::
  "('k, 'p) libs \<Rightarrow> string \<Rightarrow> string \<Rightarrow> tlog_entry \<Rightarrow> certificate res" where
  "check_entry lb payload uuid entry =
     (case entry_rekord lb entry of
        Inl e \<Rightarrow> Inl e
      | Inr body \<Rightarrow>
          if \<not> rekord_matches lb body payload then Inl errMismatchedTlogEntry
          else case verify_inclusion_proof lb uuid entry of
              Some e \<Rightarrow> Inl (errorf [L ''unable to verify rekor inclusion proof: '', W e])
            | None \<Rightarrow>
          case rekord_certs lb body of
            Inl e \<Rightarrow> Inl (errorf [L ''error extracting certificate from entry: '', W e])
          | Inr [] \<Rightarrow> Inl (errorf [L ''error extracting certificate from entry: %!w(<nil>)''])
          | Inr (cert # cert' # rest) \<Rightarrow> Inl errMultipleCerts
          | Inr [cert] \<Rightarrow>
              (case verify_cert lb cert (time_unix (te_integrated_time entry)) of
                 Some e \<Rightarrow> Inl (errorf [L ''verifying cert: '', W e])
               | None \<Rightarrow> Inr cert))"

definition extract_and_verify_cert_for_payload ::
  "('k, 'p) libs \<Rightarrow> (string \<Rightarrow> err option) \<Rightarrow> network \<Rightarrow> 's world \<Rightarrow> string \<Rightarrow> int
     \<Rightarrow> certificate res \<times> 's world" where
  "extract_and_verify_cert_for_payload lb new_request net w payload tlog_index =
     (if tlog_index = noTlogIndex then
        (case get_uuids_by_payload lb net w payload of
           (Inl e, w1) \<Rightarrow> (Inl (errorf [L ''error finding tlog entries corresponding to payload: '', W e]), w1)
         | (Inr uuids, w1) \<Rightarrow>
             if uuids = [] then
               (Inl (errorf [L ''error finding tlog entries corresponding to payload: %!w(<nil>)'']), w1)
             else
               (case get_tlog_entry_by_uuid lb new_request net w1 (last uuids) of
                  (Inl e, w2) \<Rightarrow> (Inl (errorf [L ''error fetching tlog entry: '', W e]), w2)
                | (Inr entry, w2) \<Rightarrow> (check_entry lb payload (last uuids) entry, w2)))
      else
        (case get_tlog_entry_by_index lb new_request net w tlog_index of
           (Inl e, w1) \<Rightarrow> (Inl (errorf [L ''error fetching tlog entry: '', W e]), w1)
         | (Inr (uuid, entry), w1) \<Rightarrow> (check_entry lb payload uuid entry, w1)))"

end
