(* ===== verification/WorkflowVerify.thy ===== *)
theory WorkflowVerify
  imports Diagnostics ResultStore
begin

text \<open>
  \<open>api/app/server/verify_workflow.go\<close>: the restrictions a workflow must satisfy before
  the results it uploads are accepted.  The workflow parser is a parameter; maps whose
  iteration order matters are lists in the order they are iterated.
\<close>

section \<open>Workflows\<close>

record wf_permissions =
  wp_all :: "string option"
  wp_scopes :: "(string \<times> string) list"

text \<open>
  What a step executes: nothing (a nil \<open>Exec\<close>, or a nil action in it), a script, or an action
  with its \<open>uses\<close>, if it has one.
\<close>

datatype wf_step = NoExec | ExecRun | ExecAction "string option"

text \<open>
  A job: its steps, the labels of \<open>runs-on\<close> (\<open>None\<close> when there is no such key), and the number of services.
\<close>

record wf_job =
  wj_permissions :: "wf_permissions option"
  wj_container :: bool
  wj_services :: "nat option"
  wj_runs_on :: "string list option"
  wj_env :: bool
  wj_defaults :: bool
  wj_steps :: "wf_step list"

record workflow =
  wf_env :: bool
  wf_defaults :: bool
  wf_permissions :: "wf_permissions option"
  wf_jobs :: "(string \<times> wf_job option) list"

record commit =
  cm_owner :: string
  cm_repo :: string
  cm_hash :: string

section \<open>Errors\<close>

definition errWorkflowParse :: err where
  "errWorkflowParse = Sentinel ''unable to parse github workflow''"
definition errGlobalVarsOrDefaults :: err where
  "errGlobalVarsOrDefaults = Sentinel ''workflow contains global env vars or defaults''"
definition errGlobalWriteAll :: err where
  "errGlobalWriteAll = Sentinel ''global perm is set to write-all''"
definition errGlobalWrite :: err where
  "errGlobalWrite = Sentinel ''global perm is set to write''"
definition errScorecardJobNotFound :: err where
  "errScorecardJobNotFound = Sentinel ''workflow has no job that calls ossf/scorecard-action''"
definition errNonScorecardJobHasTokenWrite :: err where
  "errNonScorecardJobHasTokenWrite =
     Sentinel ''workflow has a non-scorecard job with id-token permissions''"
definition errJobHasContainerOrServices :: err where
  "errJobHasContainerOrServices = Sentinel ''job contains container or service''"
definition errScorecardJobRunsOn :: err where
  "errScorecardJobRunsOn =
     Sentinel (''scorecard job should have exactly 1 '' @ [CHR 0x27] @ ''Ubuntu'' @ [CHR 0x27] @ '' virtual environment'')"
definition errInvalidRunnerLabel :: err where
  "errInvalidRunnerLabel = Sentinel ''scorecard job has invalid runner label''"
definition errUnallowedStepName :: err where
  "errUnallowedStepName = Sentinel ''job has unallowed step''"
definition errScorecardJobEnvVars :: err where
  "errScorecardJobEnvVars = Sentinel ''scorecard job contains env vars''"
definition errScorecardJobDefaults :: err where
  "errScorecardJobDefaults = Sentinel ''scorecard job must not have defaults set''"
definition errEmptyStepUses :: err where
  "errEmptyStepUses = Sentinel ''scorecard job must only have steps with `uses`''"
definition errNoDefaultBranch :: err where
  "errNoDefaultBranch = Sentinel ''no default branch''"

definition workflowRestrictionLink :: string where
  "workflowRestrictionLink = ''https://github.com/ossf/scorecard-action#workflow-restrictions''"

definition verification_error :: "err \<Rightarrow> err" where
  "verification_error e =
     Typed ''verificationError''
       (''workflow verification failed: '' @ err_text e @ '', see '' @ workflowRestrictionLink @ '' for details.'') [e]"

definition imposter_commit_error :: "string \<Rightarrow> string \<Rightarrow> err" where
  "imposter_commit_error action rf =
     Typed ''imposterCommitError'' (''imposter commit: '' @ rf @ '' does not belong to '' @ action) []"

section \<open>Steps and runners\<close>

text \<open>
  \<open>parseStep\<close>: the two anchored patterns \<open>([^@]*)@(.*)\<close> and \<open>docker://([^:]*):.*\<close>,
  whose dot does not match a newline.
\<close>

definition no_newline :: "string \<Rightarrow> bool" where
  "no_newline s \<longleftrightarrow> CHR 0x0A \<notin> set s"

definition parse_step :: "string \<Rightarrow> string \<times> string" where
  "parse_step step =
     (case cut CHR ''@'' step of
        (nm, rf, found) \<Rightarrow>
          if found \<and> no_newline rf then (nm, rf)
          else if prefix ''docker://'' step then
            (case cut CHR '':'' (drop (length ''docker://'') step) of
               (img, tag, f2) \<Rightarrow> if f2 \<and> no_newline tag then (img, []) else ([], []))
          else ([], []))"

definition is_commit_hash :: "string \<Rightarrow> bool" where
  "is_commit_hash s \<longleftrightarrow> length s = 40 \<and> list_all is_hex s"

definition minUbuntuVersion :: string where "minUbuntuVersion = ''22.04''"

text \<open>
  The first group of \<open>ubuntu-(latest|dd.dd)(-arm)?\<close>, anchored at both ends: the version.
\<close>

definition is_version :: "string \<Rightarrow> bool" where
  "is_version v \<longleftrightarrow>
     v = ''latest'' \<or>
     (length v = 5 \<and> v ! 2 = CHR ''.'' \<and> list_all is_digit (take 2 v) \<and> list_all is_digit (drop 3 v))"

definition ubuntu_version :: "string \<Rightarrow> string option" where
  "ubuntu_version label =
     (if prefix ''ubuntu-'' label then
        (let v = drop (length ''ubuntu-'') label
         in if is_version v then Some v
            else if suffix ''-arm'' v \<and> is_version (take (length v - length ''-arm'') v)
            then Some (take (length v - length ''-arm'') v)
            else None)
      else None)"

definition is_supported_ubuntu_runner :: "string \<Rightarrow> bool" where
  "is_supported_ubuntu_runner label =
     (case ubuntu_version label of
        None \<Rightarrow> False
      | Some version \<Rightarrow> if version = ''latest'' then True else minUbuntuVersion \<le> version)"

definition get_step_uses :: "wf_step \<Rightarrow> string option" where
  "get_step_uses step =
     (case step of NoExec \<Rightarrow> None | ExecRun \<Rightarrow> None | ExecAction uses \<Rightarrow> uses)"

lemma get_step_uses_simps [simp]:
  "get_step_uses NoExec = None" "get_step_uses ExecRun = None" "get_step_uses (ExecAction uses) = uses"
  by (simp_all add: get_step_uses_def)

definition has_services :: "wf_job \<Rightarrow> bool" where
  "has_services j = (case wj_services j of None \<Rightarrow> False | Some n \<Rightarrow> 0 < n)"

section \<open>The Scorecard job\<close>

definition scorecard_actions :: "string list" where
  "scorecard_actions =
     [''ossf/scorecard-action'', ''gcr.io/openssf/scorecard-action'', ''ghcr.io/ossf/scorecard-action'']"

fun calls_scorecard :: "wf_step list \<Rightarrow> bool" where
  "calls_scorecard [] = False"
| "calls_scorecard (s # ss) =
     (case get_step_uses s of
        None \<Rightarrow> calls_scorecard ss
      | Some uses \<Rightarrow>
          if fst (parse_step uses) \<in> set scorecard_actions then True else calls_scorecard ss)"

text \<open>The id of the job that the iteration finds first.\<close>

fun find_scorecard_job :: "(string \<times> wf_job option) list \<Rightarrow> (string \<times> wf_job) option" where
  "find_scorecard_job [] = None"
| "find_scorecard_job ((i, j) # js) =
     (case j of
        None \<Rightarrow> find_scorecard_job js
      | Some job \<Rightarrow> if calls_scorecard (wj_steps job) then Some (i, job) else find_scorecard_job js)"

fun check_global_scopes :: "(string \<times> string) list \<Rightarrow> err option" where
  "check_global_scopes [] = None"
| "check_global_scopes ((perm, val) # ps) =
     (if val = ''write'' then
        Some (verification_error (errorf [W errGlobalWrite, L '': permission for '', L perm,
                                          L '' is set to write'']))
      else check_global_scopes ps)"

text \<open>The second loop over the jobs dereferences each of them.\<close>

fun check_other_jobs :: "string \<Rightarrow> (string \<times> wf_job option) list \<Rightarrow> err option outcome" where
  "check_other_jobs sj [] = Ret None"
| "check_other_jobs sj ((i, j) # js) =
     (if i = sj then check_other_jobs sj js
      else case j of
          None \<Rightarrow> Panic ''nil pointer dereference: job''
        | Some job \<Rightarrow>
            (case wj_permissions job of
               None \<Rightarrow> check_other_jobs sj js
             | Some p \<Rightarrow>
                 if map_of (wp_scopes p) ''id-token'' = Some ''write''
                 then Ret (Some (verification_error errNonScorecardJobHasTokenWrite))
                 else check_other_jobs sj js))"

section \<open>Verifying the steps\<close>

text \<open>The interface \<open>commitVerifier\<close>; a verifier may keep state and may panic.\<close>

type_synonym 's verifier = "'s \<Rightarrow> commit \<Rightarrow> (bool res \<times> 's) outcome"

definition pinned_steps :: "string list" where
  "pinned_steps =
     [''actions/checkout'', ''actions/create-github-app-token'', ''ossf/scorecard-action'',
      ''actions/upload-artifact'', ''github/codeql-action/upload-sarif'', ''step-security/harden-runner'']"

definition step_commit :: "string \<Rightarrow> string \<Rightarrow> commit" where
  "step_commit nm rf =
     (let s = split_on CHR ''/'' nm in \<lparr>cm_owner = s ! 0, cm_repo = s ! 1, cm_hash = rf\<rparr>)"

fun check_steps :: "'s verifier \<Rightarrow> 's \<Rightarrow> wf_step list \<Rightarrow> (err option \<times> 's) outcome" where
  "check_steps ver s [] = Ret (None, s)"
| "check_steps ver s (step # ss) =
     (case get_step_uses step of
        None \<Rightarrow> Ret (Some (verification_error errEmptyStepUses), s)
      | Some uses \<Rightarrow>
      case parse_step uses of
        (nm, rf) \<Rightarrow>
          if nm \<in> set pinned_steps then
            (if is_commit_hash rf then
               (case ver s (step_commit nm rf) of
                  Panic m \<Rightarrow> Panic m
                | Ret (Inl e, s') \<Rightarrow> Ret (Some e, s')
                | Ret (Inr cont, s') \<Rightarrow>
                    if \<not> cont
                    then Ret (Some (verification_error (imposter_commit_error nm rf)), s')
                    else check_steps ver s' ss)
             else check_steps ver s ss)
          else if nm \<in> {''gcr.io/openssf/scorecard-action'', ''ghcr.io/ossf/scorecard-action''}
          then check_steps ver s ss
          else Ret (Some (verification_error (errorf [W errUnallowedStepName, L '': '', L nm])), s))"

definition check_scorecard_job :: "'s verifier \<Rightarrow> 's \<Rightarrow> wf_job \<Rightarrow> (err option \<times> 's) outcome" where
  "check_scorecard_job ver s job =
     (if wj_container job \<or> has_services job then
        Ret (Some (verification_error errJobHasContainerOrServices), s)
      else case wj_runs_on job of
          None \<Rightarrow> Panic ''nil pointer dereference: RunsOn''
        | Some labels \<Rightarrow>
            if length labels \<noteq> 1 then Ret (Some (verification_error errScorecardJobRunsOn), s)
            else if \<not> is_supported_ubuntu_runner (hd labels) then
              Ret (Some (verification_error
                (errorf [W errInvalidRunnerLabel, L ('': '' @ [CHR 0x27]), L (hd labels), L [CHR 0x27]])), s)
            else if wj_env job then Ret (Some (verification_error errScorecardJobEnvVars), s)
            else if wj_defaults job then Ret (Some (verification_error errScorecardJobDefaults), s)
            else check_steps ver s (wj_steps job))"

definition check_workflow :: "'s verifier \<Rightarrow> 's \<Rightarrow> workflow \<Rightarrow> (err option \<times> 's) outcome" where
  "check_workflow ver s w =
     (if wf_env w \<or> wf_defaults w then Ret (Some (verification_error errGlobalVarsOrDefaults), s)
      else
        case (case wf_permissions w of
                None \<Rightarrow> None
              | Some p \<Rightarrow>
                  if wp_all p = Some ''write-all'' then Some (verification_error errGlobalWriteAll)
                  else check_global_scopes (wp_scopes p)) of
          Some e \<Rightarrow> Ret (Some e, s)
        | None \<Rightarrow>
            (case find_scorecard_job (wf_jobs w) of
               None \<Rightarrow> Ret (Some (verification_error errScorecardJobNotFound), s)
             | Some (i, job) \<Rightarrow>
                 (case check_other_jobs i (wf_jobs w) of
                    Panic m \<Rightarrow> Panic m
                  | Ret (Some e) \<Rightarrow> Ret (Some e, s)
                  | Ret None \<Rightarrow> check_scorecard_job ver s job)))"

text \<open>
  \<open>verifyScorecardWorkflow\<close>: \<open>lint\<close> is \<open>actionlint.Parse\<close>, a workflow unless it is nil
  and the diagnostics; \<open>yaml\<close> is the YAML parser.
\<close>

definition verify_scorecard_workflow ::
  "(string \<Rightarrow> workflow option \<times> diagnostic list) \<Rightarrow> (string \<Rightarrow> ynode res) \<Rightarrow> 's verifier \<Rightarrow> 's
     \<Rightarrow> string \<Rightarrow> (err option \<times> 's) outcome" where
  "verify_scorecard_workflow lint yaml ver s content =
     (case lint content of
        (w, diags) \<Rightarrow>
          let kept = unreviewed_diagnostics yaml content diags
          in if kept \<noteq> [] \<or> w = None then
               Ret (Some (errorf [W errWorkflowParse, L '': ['', L (join '' '' (map dg_text kept)), L '']'']), s)
             else check_workflow ver s (the w))"

section \<open>What an accepted workflow looks like\<close>

definition step_ok :: "(commit \<Rightarrow> bool) \<Rightarrow> wf_step \<Rightarrow> bool" where
  "step_ok belongs st \<longleftrightarrow>
     (\<exists>uses nm rf. get_step_uses st = Some uses \<and> parse_step uses = (nm, rf) \<and>
        (nm \<in> set pinned_steps \<and> (is_commit_hash rf \<longrightarrow> belongs (step_commit nm rf)) \<or>
         nm \<in> {''gcr.io/openssf/scorecard-action'', ''ghcr.io/ossf/scorecard-action''}))"

definition job_ok :: "(commit \<Rightarrow> bool) \<Rightarrow> wf_job \<Rightarrow> bool" where
  "job_ok belongs job \<longleftrightarrow>
     \<not> wj_container job \<and> \<not> has_services job \<and> \<not> wj_env job \<and> \<not> wj_defaults job \<and>
     (\<exists>label. wj_runs_on job = Some [label] \<and> is_supported_ubuntu_runner label) \<and>
     (\<forall>st \<in> set (wj_steps job). step_ok belongs st)"

definition global_ok :: "workflow \<Rightarrow> bool" where
  "global_ok w \<longleftrightarrow>
     \<not> wf_env w \<and> \<not> wf_defaults w \<and>
     (\<forall>p. wf_permissions w = Some p \<longrightarrow>
        wp_all p \<noteq> Some ''write-all'' \<and> (\<forall>(perm, val) \<in> set (wp_scopes p). val \<noteq> ''write''))"

definition no_id_token_write :: "wf_job \<Rightarrow> bool" where
  "no_id_token_write job \<longleftrightarrow>
     (\<forall>p. wj_permissions job = Some p \<longrightarrow> map_of (wp_scopes p) ''id-token'' \<noteq> Some ''write'')"

definition accepted :: "(commit \<Rightarrow> bool) \<Rightarrow> workflow \<Rightarrow> bool" where
  "accepted belongs w \<longleftrightarrow>
     global_ok w \<and>
     (\<exists>i job. find_scorecard_job (wf_jobs w) = Some (i, job) \<and>
        (\<forall>(i', j') \<in> set (wf_jobs w). i' \<noteq> i \<longrightarrow> (\<exists>j. j' = Some j \<and> no_id_token_write j)) \<and>
        job_ok belongs job)"

lemma calls_scorecard_iff:
  "calls_scorecard ss \<longleftrightarrow> (\<exists>st \<in> set ss. \<exists>uses. get_step_uses st = Some uses \<and> fst (parse_step uses) \<in> set scorecard_actions)"
  by (induction ss) (auto split: option.splits if_splits)

lemma find_scorecard_job_Some:
  "find_scorecard_job js = Some (i, job) \<Longrightarrow> (i, Some job) \<in> set js \<and> calls_scorecard (wj_steps job)"
  by (induction js rule: find_scorecard_job.induct) (auto split: option.splits if_splits)

lemma find_scorecard_job_append:
  "find_scorecard_job js = Some x \<Longrightarrow> find_scorecard_job (js @ ks) = Some x"
  by (induction js rule: find_scorecard_job.induct) (auto split: option.splits if_splits)

lemma check_global_scopes_None:
  "check_global_scopes ps = None \<longleftrightarrow> (\<forall>(perm, val) \<in> set ps. val \<noteq> ''write'')"
  by (induction ps rule: check_global_scopes.induct) auto

lemma check_other_jobs_None:
  "check_other_jobs sj js = Ret None \<longleftrightarrow>
     (\<forall>(i, j') \<in> set js. i \<noteq> sj \<longrightarrow> (\<exists>j. j' = Some j \<and> no_id_token_write j))"
  by (induction sj js rule: check_other_jobs.induct)
    (auto simp: no_id_token_write_def split: option.splits)

text \<open>
  What the verification asks of a verifier: from a state that satisfies its invariant it
  affirms only commits that belong to their repository, and keeps the invariant.
\<close>

locale commit_verifier =
  fixes ver :: "'s verifier" and belongs :: "commit \<Rightarrow> bool" and inv :: "'s \<Rightarrow> bool"
  assumes contains_sound: "inv s \<Longrightarrow> ver s c = Ret (Inr True, s') \<Longrightarrow> belongs c"
    and contains_inv: "inv s \<Longrightarrow> ver s c = Ret (r, s') \<Longrightarrow> inv s'"
begin

lemma check_steps_sound:
  "inv s \<Longrightarrow> check_steps ver s ss = Ret (None, s') \<Longrightarrow> (\<forall>st \<in> set ss. step_ok belongs st) \<and> inv s'"
proof (induction ss arbitrary: s)
  case (Cons st ss)
  then obtain uses where st: "get_step_uses st = Some uses" by (cases "get_step_uses st") auto
  obtain nm rf where ps: "parse_step uses = (nm, rf)" by fastforce
  show ?case
  proof (cases "nm \<in> set pinned_steps \<and> is_commit_hash rf")
    case True
    then obtain s1 where v: "ver s (step_commit nm rf) = Ret (Inr True, s1)"
      and rest: "check_steps ver s1 ss = Ret (None, s')"
      using Cons.prems(2) st ps by (auto split: outcome.splits sum.splits if_splits)
    have "(\<forall>st \<in> set ss. step_ok belongs st) \<and> inv s'"
      by (rule Cons.IH [OF contains_inv [OF Cons.prems(1) v] rest])
    moreover have "step_ok belongs st"
      using True contains_sound [OF Cons.prems(1) v] st ps by (simp add: step_ok_def)
    ultimately show ?thesis by simp
  next
    case False
    then have "check_steps ver s ss = Ret (None, s')" and "step_ok belongs st"
      using Cons.prems(2) st ps by (auto simp: step_ok_def split: if_splits)
    with Cons.IH [OF Cons.prems(1)] show ?thesis by simp
  qed
qed simp

lemma check_workflow_sound:
  assumes "inv s" "check_workflow ver s w = Ret (None, s')"
  shows "accepted belongs w"
proof -
  from assms(2) obtain i job where
    g: "global_ok w" and j: "find_scorecard_job (wf_jobs w) = Some (i, job)"
    and o: "check_other_jobs i (wf_jobs w) = Ret None"
    and c: "check_scorecard_job ver s job = Ret (None, s')"
    by (auto simp: check_workflow_def global_ok_def check_global_scopes_None
        split: option.splits outcome.splits if_splits)
  from c assms(1) have "job_ok belongs job"
    by (auto simp: check_scorecard_job_def job_ok_def length_Suc_conv dest: check_steps_sound
        split: option.splits if_splits)
  with g j o show ?thesis unfolding accepted_def check_other_jobs_None by blast
qed

lemma verify_sound:
  assumes "inv s" "verify_scorecard_workflow lint yaml ver s content = Ret (None, s')"
  shows "\<exists>w diags. lint content = (Some w, diags) \<and> unreviewed_diagnostics yaml content diags = [] \<and>
    accepted belongs w"
  using assms check_workflow_sound
  by (auto simp: verify_scorecard_workflow_def Let_def split: prod.splits if_splits)

end

end
