(* ===== verification/GithubVerifier.thy ===== *)
theory GithubVerifier
  imports WorkflowVerify
begin

text \<open>
  \<open>api/app/server/github_verifier.go\<close>: deciding through the GitHub API whether a pinned
  commit belongs to the repository of the action it is pinned for.  The API client and
  the \<open>semver\<close> package are parameters.
\<close>

section \<open>The API client\<close>

record gh_tag =
  tg_name :: string
  tg_sha :: "string option" \<comment> \<open>\<open>None\<close> when the commit or its SHA is nil\<close>

text \<open>
  A comparison gives its status, or fails with an error and the response's status code;
  \<open>None\<close> when there is no response, as after a transport error.
\<close>

datatype comparison = Compared string | CompareFailed "int option" err

record gh_client =
  gh_tags :: "string \<Rightarrow> string \<Rightarrow> gh_tag list res"
  gh_default :: "string \<Rightarrow> string \<Rightarrow> string option res"
  gh_compare :: "string \<Rightarrow> string \<Rightarrow> string \<Rightarrow> string \<Rightarrow> comparison"
  gh_releases :: "string \<Rightarrow> string \<Rightarrow> string option list res" \<comment> \<open>the target of each release\<close>
  sv_valid :: "string \<Rightarrow> bool"
  sv_compare :: "string \<Rightarrow> string \<Rightarrow> int"
  sv_major :: "string \<Rightarrow> string"

record gh_state =
  gs_cached :: "commit set"
  gs_codeql_major :: string

definition new_github_verifier :: gh_state where
  "new_github_verifier = \<lparr>gs_cached = {}, gs_codeql_major = []\<rparr>"

definition errInvalidCodeQLVersion :: err where
  "errInvalidCodeQLVersion = Sentinel ''codeql version invalid''"

definition is_codeql :: "string \<Rightarrow> string \<Rightarrow> bool" where
  "is_codeql owner repo \<longleftrightarrow> owner = ''github'' \<and> repo = ''codeql-action''"

section \<open>Operations\<close>

definition mark_contains :: "string \<Rightarrow> string \<Rightarrow> string \<Rightarrow> gh_state \<Rightarrow> gh_state" where
  "mark_contains owner repo sha g =
     g\<lparr>gs_cached := insert \<lparr>cm_owner = owner, cm_repo = repo, cm_hash = to_lower sha\<rparr> (gs_cached g)\<rparr>"

fun tags_loop :: "gh_client \<Rightarrow> string \<Rightarrow> string \<Rightarrow> gh_tag list \<Rightarrow> gh_state \<Rightarrow> gh_state" where
  "tags_loop C owner repo [] g = g"
| "tags_loop C owner repo (t # ts) g =
     (let g1 = (case tg_sha t of None \<Rightarrow> g | Some sha \<Rightarrow> mark_contains owner repo sha g);
          version = tg_name t;
          g2 = (if is_codeql owner repo \<and> sv_valid C version \<and> sv_compare C version (gs_codeql_major g1) = 1
                then g1\<lparr>gs_codeql_major := sv_major C version\<rparr> else g1)
      in tags_loop C owner repo ts g2)"

definition get_tags :: "gh_client \<Rightarrow> gh_state \<Rightarrow> string \<Rightarrow> string \<Rightarrow> err option \<times> gh_state" where
  "get_tags C g owner repo =
     (case gh_tags C owner repo of
        Inl e \<Rightarrow> (Some (errorf [L ''fetch tags: '', W e]), g)
      | Inr tags \<Rightarrow> (None, tags_loop C owner repo tags g))"

definition default_branch :: "gh_client \<Rightarrow> string \<Rightarrow> string \<Rightarrow> string res" where
  "default_branch C owner repo =
     (case gh_default C owner repo of
        Inl e \<Rightarrow> Inl (errorf [L ''fetching repository info: '', W e])
      | Inr None \<Rightarrow> Inl errNoDefaultBranch
      | Inr (Some b) \<Rightarrow> Inr b)"

definition branch_contains ::
  "gh_client \<Rightarrow> gh_state \<Rightarrow> string \<Rightarrow> string \<Rightarrow> string \<Rightarrow> string \<Rightarrow> (bool res \<times> gh_state) outcome" where
  "branch_contains C g branch owner repo sha =
     (case gh_compare C owner repo branch sha of
        CompareFailed None e \<Rightarrow> Panic ''nil pointer dereference: resp''
      | CompareFailed (Some code) e \<Rightarrow>
          if code = 404 then Ret (Inr False, g)
          else Ret (Inl (errorf [L ''error comparing revisions: '', W e]), g)
      | Compared st \<Rightarrow>
          if st = ''behind'' \<or> st = ''identical'' then Ret (Inr True, mark_contains owner repo sha g)
          else Ret (Inr False, g))"

definition parse_codeql_version :: "string \<Rightarrow> int res" where
  "parse_codeql_version version =
     (if \<not> prefix ''v'' version then Inl (errorf [W errInvalidCodeQLVersion, L '': '', L version])
      else case atoi (drop 1 version) of
          None \<Rightarrow> Inl (errorf [W errInvalidCodeQLVersion, L '': '', L version])
        | Some major \<Rightarrow>
            if major < 1 then Inl (errorf [W errInvalidCodeQLVersion, L '': '', L version])
            else Inr major)"

definition codeql_release_branches :: "gh_state \<Rightarrow> string list res" where
  "codeql_release_branches g =
     (if gs_codeql_major g = [] then Inr []
      else case parse_codeql_version (gs_codeql_major g) of
          Inl e \<Rightarrow> Inl e
        | Inr version \<Rightarrow> Inr (map (\<lambda>i. ''releases/v'' @ itoa (version - int i)) [0..<nat version]))"

fun releases_loop ::
  "string \<Rightarrow> string \<Rightarrow> string option list \<Rightarrow> gh_state \<Rightarrow> string list \<Rightarrow> gh_state \<times> string list" where
  "releases_loop owner repo [] g branches = (g, branches)"
| "releases_loop owner repo (r # rs) g branches =
     (case r of
        None \<Rightarrow> releases_loop owner repo rs g branches
      | Some target \<Rightarrow>
          if is_commit_hash target then releases_loop owner repo rs (mark_contains owner repo target g) branches
          else if target \<in> set branches then releases_loop owner repo rs g branches
          else releases_loop owner repo rs g (branches @ [target]))"

definition get_release_branches ::
  "gh_client \<Rightarrow> gh_state \<Rightarrow> string \<Rightarrow> string \<Rightarrow> string list res \<times> gh_state" where
  "get_release_branches C g owner repo =
     (case gh_releases C owner repo of
        Inl e \<Rightarrow> (Inl (errorf [L ''fetch releases: '', W e]), g)
      | Inr rels \<Rightarrow> (case releases_loop owner repo rels g [] of (g', branches) \<Rightarrow> (Inr branches, g')))"

fun branches_loop ::
  "gh_client \<Rightarrow> string \<Rightarrow> string \<Rightarrow> string \<Rightarrow> string \<Rightarrow> nat \<Rightarrow> nat \<Rightarrow> string list \<Rightarrow> gh_state
     \<Rightarrow> (bool res \<times> gh_state) outcome" where
  "branches_loop C owner repo sha def limit analyzed [] g = Ret (Inr False, g)"
| "branches_loop C owner repo sha def limit analyzed (b # bs) g =
     (if limit \<le> analyzed then Ret (Inr False, g)
      else if b = def then branches_loop C owner repo sha def limit analyzed bs g
      else case branch_contains C g b owner repo sha of
          Panic m \<Rightarrow> Panic m
        | Ret (Inl e, g') \<Rightarrow> Ret (Inl e, g')
        | Ret (Inr cont, g') \<Rightarrow>
            if cont then Ret (Inr True, g')
            else branches_loop C owner repo sha def limit (analyzed + 1) bs g')"

definition check_release_branches ::
  "gh_client \<Rightarrow> gh_state \<Rightarrow> string \<Rightarrow> string \<Rightarrow> string \<Rightarrow> string \<Rightarrow> nat \<Rightarrow> (bool res \<times> gh_state) outcome" where
  "check_release_branches C g owner repo sha def limit =
     (if is_codeql owner repo then
        (case codeql_release_branches g of
           Inl e \<Rightarrow> Ret (Inl e, g)
         | Inr branches \<Rightarrow> branches_loop C owner repo sha def limit 0 branches g)
      else
        (case get_release_branches C g owner repo of
           (Inl e, g') \<Rightarrow> Ret (Inl e, g')
         | (Inr branches, g') \<Rightarrow>
             if \<lparr>cm_owner = owner, cm_repo = repo, cm_hash = sha\<rparr> \<in> gs_cached g' then Ret (Inr True, g')
             else branches_loop C owner repo sha def limit 0 branches g'))"

definition gh_contains :: "gh_client \<Rightarrow> gh_state verifier" where
  "gh_contains C g c =
     (if c \<in> gs_cached g then Ret (Inr True, g)
      else case get_tags C g (cm_owner c) (cm_repo c) of
          (Some e, g1) \<Rightarrow> Ret (Inl e, g1)
        | (None, g1) \<Rightarrow>
            if c \<in> gs_cached g1 then Ret (Inr True, g1)
            else case default_branch C (cm_owner c) (cm_repo c) of
                Inl e \<Rightarrow> Ret (Inl e, g1)
              | Inr def \<Rightarrow>
                  (case branch_contains C g1 def (cm_owner c) (cm_repo c) (cm_hash c) of
                     Panic m \<Rightarrow> Panic m
                   | Ret (Inl e, g2) \<Rightarrow> Ret (Inl e, g2)
                   | Ret (Inr cont, g2) \<Rightarrow>
                       if cont then Ret (Inr True, g2)
                       else check_release_branches C g2 (cm_owner c) (cm_repo c) (cm_hash c) def 10))"

section \<open>What the API attests\<close>

text \<open>
  A branch the verifier may trust: the default branch, a branch a release names, or one
  of the release branches of \<open>github/codeql-action\<close>.
\<close>

definition trusted_branch :: "gh_client \<Rightarrow> string \<Rightarrow> string \<Rightarrow> string \<Rightarrow> bool" where
  "trusted_branch C owner repo b \<longleftrightarrow>
     gh_default C owner repo = Inr (Some b) \<or>
     (\<exists>rels. gh_releases C owner repo = Inr rels \<and> Some b \<in> set rels) \<or>
     (is_codeql owner repo \<and> (\<exists>n \<ge> 1. b = ''releases/v'' @ itoa n))"

definition attested :: "gh_client \<Rightarrow> commit \<Rightarrow> bool" where
  "attested C c \<longleftrightarrow>
     (\<exists>tags t. gh_tags C (cm_owner c) (cm_repo c) = Inr tags \<and> t \<in> set tags \<and> tg_sha t = Some (cm_hash c)) \<or>
     (\<exists>rels. gh_releases C (cm_owner c) (cm_repo c) = Inr rels \<and> Some (cm_hash c) \<in> set rels \<and>
        is_commit_hash (cm_hash c)) \<or>
     (\<exists>b st. trusted_branch C (cm_owner c) (cm_repo c) b \<and>
        gh_compare C (cm_owner c) (cm_repo c) b (cm_hash c) = Compared st \<and> st \<in> {''behind'', ''identical''})"

text \<open>The hash is attested as it is, or is the lower-case form of one that is.\<close>

definition belongs :: "gh_client \<Rightarrow> commit \<Rightarrow> bool" where
  "belongs C c \<longleftrightarrow>
     (\<exists>h. (cm_hash c = h \<or> cm_hash c = to_lower h) \<and> attested C (c\<lparr>cm_hash := h\<rparr>))"

definition cache_ok :: "gh_client \<Rightarrow> gh_state \<Rightarrow> bool" where
  "cache_ok C g \<longleftrightarrow>
     (\<forall>c \<in> gs_cached g. \<exists>h. cm_hash c = to_lower h \<and> attested C (c\<lparr>cm_hash := h\<rparr>))"

lemma cache_ok_new [simp]: "cache_ok C new_github_verifier"
  by (simp add: cache_ok_def new_github_verifier_def)

lemma cache_ok_major [simp]: "cache_ok C (g\<lparr>gs_codeql_major := m\<rparr>) = cache_ok C g"
  by (simp add: cache_ok_def)

lemma cache_ok_mark:
  "cache_ok C g \<Longrightarrow> attested C \<lparr>cm_owner = ow, cm_repo = re, cm_hash = h\<rparr> \<Longrightarrow> cache_ok C (mark_contains ow re h g)"
  by (auto simp: cache_ok_def mark_contains_def)

lemma cached_belongs: "cache_ok C g \<Longrightarrow> c \<in> gs_cached g \<Longrightarrow> belongs C c"
  by (auto simp: cache_ok_def belongs_def)

lemma tags_loop_ok:
  assumes "gh_tags C ow re = Inr tags"
  shows "set ts \<subseteq> set tags \<Longrightarrow> cache_ok C g \<Longrightarrow> cache_ok C (tags_loop C ow re ts g)"
proof (induction ts arbitrary: g)
  case (Cons t ts)
  have "attested C \<lparr>cm_owner = ow, cm_repo = re, cm_hash = sha\<rparr>" if "tg_sha t = Some sha" for sha
    using assms Cons.prems(1) that by (auto simp: attested_def)
  then have "cache_ok C (case tg_sha t of None \<Rightarrow> g | Some sha \<Rightarrow> mark_contains ow re sha g)"
    using Cons.prems(2) by (auto intro: cache_ok_mark split: option.splits)
  then show ?case using Cons by (simp add: Let_def)
qed simp

lemma get_tags_ok: "cache_ok C g \<Longrightarrow> cache_ok C (snd (get_tags C g ow re))"
  by (auto simp: get_tags_def tags_loop_ok split: sum.splits)

lemma branch_contains_ok:
  assumes "trusted_branch C ow re b" "cache_ok C g" "branch_contains C g b ow re h = Ret (r, g')"
  shows "cache_ok C g' \<and> (r = Inr True \<longrightarrow> attested C \<lparr>cm_owner = ow, cm_repo = re, cm_hash = h\<rparr>)"
proof (cases "gh_compare C ow re b h")
  case (Compared st)
  have "attested C \<lparr>cm_owner = ow, cm_repo = re, cm_hash = h\<rparr>" if "st = ''behind'' \<or> st = ''identical''"
    using assms(1) Compared that by (auto simp: attested_def)
  with assms Compared show ?thesis
    by (auto simp: branch_contains_def intro: cache_ok_mark split: if_splits)
next
  case (CompareFailed code e)
  with assms show ?thesis by (auto simp: branch_contains_def split: option.splits if_splits)
qed

lemma releases_loop_ok:
  assumes "gh_releases C ow re = Inr rels"
  shows "set rs \<subseteq> set rels \<Longrightarrow> cache_ok C g \<Longrightarrow> \<forall>b \<in> set bs. trusted_branch C ow re b \<Longrightarrow>
    cache_ok C (fst (releases_loop ow re rs g bs)) \<and>
    (\<forall>b \<in> set (snd (releases_loop ow re rs g bs)). trusted_branch C ow re b)"
proof (induction rs arbitrary: g bs)
  case (Cons r rs)
  have "attested C \<lparr>cm_owner = ow, cm_repo = re, cm_hash = t\<rparr>" if "r = Some t" "is_commit_hash t" for t
    using assms Cons.prems(1) that by (auto simp: attested_def)
  moreover have "trusted_branch C ow re t" if "r = Some t" for t
    using assms Cons.prems(1) that by (auto simp: trusted_branch_def)
  ultimately have att: "r = Some t \<Longrightarrow> is_commit_hash t \<Longrightarrow> cache_ok C (mark_contains ow re t g)"
    and tr: "r = Some t \<Longrightarrow> \<forall>b \<in> set (bs @ [t]). trusted_branch C ow re b" for t
    using Cons.prems(2,3) cache_ok_mark by auto
  have sub: "set rs \<subseteq> set rels" using Cons.prems(1) by simp
  consider "releases_loop ow re (r # rs) g bs = releases_loop ow re rs g bs"
    | t where "r = Some t" "is_commit_hash t"
        "releases_loop ow re (r # rs) g bs = releases_loop ow re rs (mark_contains ow re t g) bs"
    | t where "r = Some t" "releases_loop ow re (r # rs) g bs = releases_loop ow re rs g (bs @ [t])"
    by (cases r; cases "is_commit_hash (the r)"; cases "the r \<in> set bs") simp_all
  then show ?case
  proof cases
    case 1
    show ?thesis unfolding 1 by (rule Cons.IH [OF sub Cons.prems(2,3)])
  next
    case (2 t)
    show ?thesis unfolding 2(3) by (rule Cons.IH [OF sub att [OF 2(1,2)] Cons.prems(3)])
  next
    case (3 t)
    show ?thesis unfolding 3(2) by (rule Cons.IH [OF sub Cons.prems(2) tr [OF 3(1)]])
  qed
qed simp

lemma branches_loop_ok:
  "\<forall>b \<in> set bs. trusted_branch C ow re b \<Longrightarrow> cache_ok C g \<Longrightarrow>
     branches_loop C ow re h def lmt n bs g = Ret (r, g') \<Longrightarrow>
     cache_ok C g' \<and> (r = Inr True \<longrightarrow> attested C \<lparr>cm_owner = ow, cm_repo = re, cm_hash = h\<rparr>)"
proof (induction bs arbitrary: n g)
  case (Cons b bs)
  note bc = branch_contains_ok [of C ow re b g h]
  show ?case
  proof (cases "branch_contains C g b ow re h")
    case (Ret x)
    then show ?thesis
      using Cons.prems bc Cons.IH by (cases x) (auto split: if_splits sum.splits)
  qed (use Cons in \<open>auto split: if_splits\<close>)
qed auto

lemma codeql_branches_trusted:
  "is_codeql ow re \<Longrightarrow> codeql_release_branches g = Inr bs \<Longrightarrow> \<forall>b \<in> set bs. trusted_branch C ow re b"
proof -
  assume q: "is_codeql ow re" and "codeql_release_branches g = Inr bs"
  then obtain v :: int where "bs = map (\<lambda>i. ''releases/v'' @ itoa (v - int i)) [0..<nat v] \<or> bs = []"
    by (auto simp: codeql_release_branches_def split: if_splits sum.splits)
  moreover have "1 \<le> v - int i" if "i < nat v" for i using that by linarith
  ultimately show ?thesis using q unfolding trusted_branch_def by fastforce
qed

lemma check_release_branches_ok:
  assumes "cache_ok C g" "check_release_branches C g ow re h def lmt = Ret (r, g')"
  shows "cache_ok C g' \<and> (r = Inr True \<longrightarrow> belongs C \<lparr>cm_owner = ow, cm_repo = re, cm_hash = h\<rparr>)"
proof -
  have b: "attested C \<lparr>cm_owner = ow, cm_repo = re, cm_hash = h\<rparr> \<Longrightarrow>
      belongs C \<lparr>cm_owner = ow, cm_repo = re, cm_hash = h\<rparr>"
    by (auto simp: belongs_def)
  show ?thesis
  proof (cases "is_codeql ow re")
    case True
    then show ?thesis
      using assms branches_loop_ok codeql_branches_trusted b
      by (fastforce simp: check_release_branches_def split: sum.splits)
  next
    case False
    show ?thesis
    proof (cases "gh_releases C ow re")
      case (Inl e)
      then show ?thesis using assms False by (auto simp: check_release_branches_def get_release_branches_def)
    next
      case (Inr rels)
      obtain g1 bs where l: "releases_loop ow re rels g [] = (g1, bs)" by fastforce
      have ok: "cache_ok C g1" "\<forall>b \<in> set bs. trusted_branch C ow re b"
        using releases_loop_ok [OF Inr subset_refl assms(1), of "[]"] l by auto
      show ?thesis
        using assms(2) False Inr l ok branches_loop_ok [OF ok(2,1)] cached_belongs [OF ok(1)] b
        by (auto simp: check_release_branches_def get_release_branches_def split: if_splits)
    qed
  qed
qed

lemma gh_contains_ok:
  assumes "cache_ok C g" "gh_contains C g c = Ret (r, g')"
  shows "cache_ok C g' \<and> (r = Inr True \<longrightarrow> belongs C c)"
proof -
  obtain ow re h where c: "c = \<lparr>cm_owner = ow, cm_repo = re, cm_hash = h\<rparr>" by (cases c)
  obtain er g1 where t: "get_tags C g ow re = (er, g1)" by fastforce
  have g1: "cache_ok C g1" using get_tags_ok [OF assms(1), of ow re] t by simp
  show ?thesis
  proof (cases "c \<in> gs_cached g \<or> er \<noteq> None \<or> c \<in> gs_cached g1 \<or> (\<exists>e. default_branch C ow re = Inl e)")
    case True
    then show ?thesis
      using assms t g1 cached_belongs c by (auto simp: gh_contains_def split: if_splits option.splits)
  next
    case False
    then obtain def where d: "default_branch C ow re = Inr def" by (cases "default_branch C ow re") auto
    then have tb: "trusted_branch C ow re def"
      by (auto simp: default_branch_def trusted_branch_def split: sum.splits option.splits)
    obtain r2 g2 where b: "branch_contains C g1 def ow re h = Ret (r2, g2)"
      using False assms t c d by (cases "branch_contains C g1 def ow re h") (auto simp: gh_contains_def)
    note ok = branch_contains_ok [OF tb g1 b]
    then have "r2 = Inr True \<longrightarrow> belongs C c" by (auto simp: belongs_def c)
    then show ?thesis
      using False assms t c d b ok check_release_branches_ok [of C g2 ow re h def 10 r g']
      by (auto simp: gh_contains_def split: sum.splits if_splits)
  qed
qed

interpretation github: commit_verifier "gh_contains C" "belongs C" "cache_ok C" for C
  by unfold_locales (use gh_contains_ok in blast)+

section \<open>Properties\<close>

text \<open>
  C4. An accepted workflow satisfies every restriction: no diagnostic but reviewed ones,
  no global \<open>env\<close> or \<open>defaults\<close>, no global write permission, a job that calls
  scorecard-action on one supported Ubuntu runner without container, services, \<open>env\<close> or
  \<open>defaults\<close>, no other job with \<open>id-token: write\<close>, and in the Scorecard job only the
  allowed actions, each commit pin of which the GitHub API attests to belong to that
  action's repository.
\<close>

theorem verified_workflow_sound:
  assumes "verify_scorecard_workflow lint yaml (gh_contains C) new_github_verifier content = Ret (None, g)"
  shows "\<exists>w diags i job. lint content = (Some w, diags) \<and> unreviewed_diagnostics yaml content diags = [] \<and>
    global_ok w \<and> (i, Some job) \<in> set (wf_jobs w) \<and> calls_scorecard (wj_steps job) \<and>
    (\<forall>(i', j') \<in> set (wf_jobs w). i' \<noteq> i \<longrightarrow> (\<exists>j. j' = Some j \<and> no_id_token_write j)) \<and>
    job_ok (belongs C) job"
proof -
  obtain w diags where w: "lint content = (Some w, diags)" "unreviewed_diagnostics yaml content diags = []"
    "accepted (belongs C) w"
    using github.verify_sound [OF cache_ok_new assms] by blast
  then show ?thesis unfolding accepted_def using find_scorecard_job_Some by blast
qed

definition wjob :: "string \<Rightarrow> wf_job" where
  "wjob uses =
     \<lparr>wj_permissions = None, wj_container = False, wj_services = None, wj_runs_on = Some [''ubuntu-24.04''],
      wj_env = False, wj_defaults = False, wj_steps = [ExecAction (Some uses)]\<rparr>"

definition wflow :: "(string \<times> wf_job option) list \<Rightarrow> workflow" where
  "wflow js = \<lparr>wf_env = False, wf_defaults = False, wf_permissions = None, wf_jobs = js\<rparr>"

definition wclient :: gh_client where
  "wclient =
     \<lparr>gh_tags = (\<lambda>_ _. Inr [\<lparr>tg_name = ''v2'', tg_sha = Some wsha\<rparr>]),
      gh_default = (\<lambda>_ _. Inr (Some ''main'')),
      gh_compare = (\<lambda>_ _ _ _. CompareFailed (Some 404) (Sentinel ''No common ancestor'')),
      gh_releases = (\<lambda>_ _. Inr []), sv_valid = (\<lambda>_. False), sv_compare = (\<lambda>_ _. 0), sv_major = (\<lambda>v. v)\<rparr>"

definition wuses :: string where
  "wuses = ''ossf/scorecard-action@2418d6d95e928102e1f3f8d6e7b92f4f3c78631f''"

definition wUSES :: string where
  "wUSES = ''ossf/scorecard-action@2418D6D95E928102E1F3F8D6E7B92F4F3C78631F''"

definition werr :: "(err option \<times> gh_state) outcome \<Rightarrow> err option option" where
  "werr r = (case r of Ret (e, s) \<Rightarrow> Some e | Panic m \<Rightarrow> None)"

lemma wuses_facts:
  "parse_step wuses = (''ossf/scorecard-action'', wsha)" "is_commit_hash wsha"
  "''ossf/scorecard-action'' \<in> set pinned_steps" "calls_scorecard [ExecAction (Some wuses)]"
  "step_commit ''ossf/scorecard-action'' wsha =
     \<lparr>cm_owner = ''ossf'', cm_repo = ''scorecard-action'', cm_hash = wsha\<rparr>"
  "to_lower wsha = wsha" "is_supported_ubuntu_runner ''ubuntu-24.04''"
  by code_simp+

lemma wtags: "get_tags wclient g ow re =
   (None, mark_contains ow re wsha g)"
  by (simp add: get_tags_def wclient_def is_codeql_def)

lemma waccepted:
  "\<exists>g. check_workflow (gh_contains wclient) new_github_verifier (wflow [(''a'', Some (wjob wuses))]) = Ret (None, g)"
proof -
  let ?c = "\<lparr>cm_owner = ''ossf'', cm_repo = ''scorecard-action'', cm_hash = wsha\<rparr>"
  obtain g where "gh_contains wclient new_github_verifier ?c = Ret (Inr True, g)"
    by (simp add: gh_contains_def wtags new_github_verifier_def mark_contains_def wuses_facts)
  then show ?thesis
    using wuses_facts
    by (simp add: check_workflow_def wflow_def wjob_def check_scorecard_job_def has_services_def)
qed

theorem verified_workflow_sound_witness:
  "belongs wclient \<lparr>cm_owner = ''ossf'', cm_repo = ''scorecard-action'', cm_hash = wsha\<rparr>"
proof -
  let ?w = "wflow [(''a'', Some (wjob wuses))]"
  obtain g where "check_workflow (gh_contains wclient) new_github_verifier ?w = Ret (None, g)"
    using waccepted by blast
  then have "verify_scorecard_workflow (\<lambda>_. (Some ?w, [])) (\<lambda>_. Inl ErrNotFound) (gh_contains wclient)
      new_github_verifier [] = Ret (None, g)"
    by (simp add: verify_scorecard_workflow_def unreviewed_diagnostics_def)
  from verified_workflow_sound [OF this] have "job_ok (belongs wclient) (wjob wuses)"
    by (auto simp: wflow_def)
  then show ?thesis
    using wuses_facts by (auto simp: job_ok_def wjob_def step_ok_def)
qed

text \<open>
  The check of the other jobs looks at the \<open>id-token\<close> scope only: a workflow that is
  accepted is still accepted after adding any job that does not call scorecard-action and
  has \<open>permissions: write-all\<close>, which grants that job the token as well.
\<close>

theorem write_all_job_unnoticed:
  assumes "check_workflow ver s w = Ret (None, s')"
    and "wj_permissions extra = Some \<lparr>wp_all = Some ''write-all'', wp_scopes = []\<rparr>"
  shows "check_workflow ver s (w\<lparr>wf_jobs := wf_jobs w @ [(i, Some extra)]\<rparr>) = Ret (None, s')"
proof -
  obtain j job where f: "find_scorecard_job (wf_jobs w) = Some (j, job)"
    and o: "check_other_jobs j (wf_jobs w) = Ret None"
    using assms(1) by (auto simp: check_workflow_def split: option.splits outcome.splits if_splits)
  have "find_scorecard_job (wf_jobs w @ [(i, Some extra)]) = Some (j, job)"
    by (rule find_scorecard_job_append [OF f])
  moreover have "check_other_jobs j (wf_jobs w @ [(i, Some extra)]) = Ret None"
    using o assms(2) unfolding check_other_jobs_None by (auto simp: no_id_token_write_def)
  ultimately show ?thesis
    using assms(1) f o by (auto simp: check_workflow_def split: if_splits option.splits)
qed

theorem write_all_job_unnoticed_witness:
  "werr (check_workflow (gh_contains wclient) new_github_verifier
     (wflow [(''a'', Some (wjob wuses)),
             (''b'', Some ((wjob ''actions/checkout@v4'')
                \<lparr>wj_permissions := Some \<lparr>wp_all = Some ''write-all'', wp_scopes = []\<rparr>\<rparr>))])) = Some None"
proof -
  obtain g where g: "check_workflow (gh_contains wclient) new_github_verifier
      (wflow [(''a'', Some (wjob wuses))]) = Ret (None, g)"
    using waccepted by blast
  show ?thesis
    using write_all_job_unnoticed [OF g, of "(wjob ''actions/checkout@v4'')
        \<lparr>wj_permissions := Some \<lparr>wp_all = Some ''write-all'', wp_scopes = []\<rparr>\<rparr>" "''b''"]
    by (simp add: wflow_def werr_def)
qed

text \<open>
  The verdict can depend on the order in which the map of jobs is iterated: with two
  jobs that call scorecard-action, one of which has a container, the same jobs are
  accepted in one order and rejected in the other.
\<close>

theorem verdict_depends_on_job_order:
  "\<exists>js js'. set js = set js' \<and> distinct (map fst js) \<and> distinct (map fst js') \<and>
     werr (check_workflow (gh_contains wclient) new_github_verifier (wflow js)) = Some None \<and>
     werr (check_workflow (gh_contains wclient) new_github_verifier (wflow js')) =
       Some (Some (verification_error errJobHasContainerOrServices))"
proof -
  let ?a = "(''a'', Some (wjob wuses))"
  let ?b = "(''b'', Some ((wjob wuses)\<lparr>wj_container := True\<rparr>))"
  let ?c = "\<lparr>cm_owner = ''ossf'', cm_repo = ''scorecard-action'', cm_hash = wsha\<rparr>"
  obtain g where g: "gh_contains wclient new_github_verifier ?c = Ret (Inr True, g)"
    by (simp add: gh_contains_def wtags new_github_verifier_def mark_contains_def wuses_facts)
  have "werr (check_workflow (gh_contains wclient) new_github_verifier (wflow [?a, ?b])) = Some None"
    using wuses_facts g
    by (simp add: check_workflow_def wflow_def wjob_def check_scorecard_job_def has_services_def werr_def)
  moreover have "werr (check_workflow (gh_contains wclient) new_github_verifier (wflow [?b, ?a])) =
      Some (Some (verification_error errJobHasContainerOrServices))"
    using wuses_facts
    by (simp add: check_workflow_def wflow_def wjob_def check_scorecard_job_def werr_def
        scorecard_actions_def)
  ultimately show ?thesis by (intro exI [of _ "[?a, ?b]"] exI [of _ "[?b, ?a]"]) auto
qed

text \<open>
  A pin written with upper-case digits is treated as another commit: the cache holds
  lower-case hashes and is looked up with the hash as written, so of two pins of the same
  tagged commit the lower-case one is accepted and the upper-case one, when no branch
  contains it, is reported as an imposter.
\<close>

theorem uppercase_pin_rejected:
  "werr (check_workflow (gh_contains wclient) new_github_verifier (wflow [(''a'', Some (wjob wuses))])) =
     Some None \<and>
   to_lower wUSES = to_lower wuses \<and>
   werr (check_workflow (gh_contains wclient) new_github_verifier (wflow [(''a'', Some (wjob wUSES))])) =
     Some (Some (verification_error (imposter_commit_error ''ossf/scorecard-action''
       ''2418D6D95E928102E1F3F8D6E7B92F4F3C78631F'')))"
proof -
  let ?U = "''2418D6D95E928102E1F3F8D6E7B92F4F3C78631F''"
  let ?c = "\<lparr>cm_owner = ''ossf'', cm_repo = ''scorecard-action'', cm_hash = ?U\<rparr>"
  have U: "parse_step wUSES = (''ossf/scorecard-action'', ?U)" "is_commit_hash ?U"
    "calls_scorecard [ExecAction (Some wUSES)]" "step_commit ''ossf/scorecard-action'' ?U = ?c"
    "to_lower wUSES = to_lower wuses" "wsha \<noteq> ?U"
    by code_simp+
  have "\<exists>g. gh_contains wclient new_github_verifier ?c = Ret (Inr False, g)"
    using U(6) wuses_facts(6)
    by (simp add: gh_contains_def wtags)
       (simp add: new_github_verifier_def mark_contains_def default_branch_def branch_contains_def
         wclient_def check_release_branches_def is_codeql_def get_release_branches_def)
  then obtain g where "gh_contains wclient new_github_verifier ?c = Ret (Inr False, g)" by blast
  then have "werr (check_workflow (gh_contains wclient) new_github_verifier (wflow [(''a'', Some (wjob wUSES))])) =
     Some (Some (verification_error (imposter_commit_error ''ossf/scorecard-action'' ?U)))"
    using wuses_facts(3,7) U
    by (simp add: scorecard_actions_def check_workflow_def wflow_def wjob_def check_scorecard_job_def has_services_def werr_def)
  with waccepted U(5) show ?thesis by (auto simp: werr_def)
qed

text \<open>
  A transport error while comparing revisions crashes the verifier: for a commit that
  no tag names, when the comparison with the default branch fails without a response, the
  status code of the missing response is read.
\<close>

theorem transport_error_panics:
  assumes "c \<notin> gs_cached g" "get_tags C g (cm_owner c) (cm_repo c) = (None, g1)" "c \<notin> gs_cached g1"
    and "gh_default C (cm_owner c) (cm_repo c) = Inr (Some b)"
    and "gh_compare C (cm_owner c) (cm_repo c) b (cm_hash c) = CompareFailed None e"
  shows "\<exists>m. gh_contains C g c = Panic m"
  using assms by (simp add: gh_contains_def default_branch_def branch_contains_def)

theorem transport_error_panics_witness:
  "\<exists>m. gh_contains (wclient\<lparr>gh_compare := \<lambda>_ _ _ _. CompareFailed None (Sentinel ''connection reset''),
                            gh_tags := \<lambda>_ _. Inr []\<rparr>)
     new_github_verifier \<lparr>cm_owner = ''ossf'', cm_repo = ''x'', cm_hash = ''abc''\<rparr> = Panic m"
proof -
  let ?C = "wclient\<lparr>gh_compare := \<lambda>_ _ _ _. CompareFailed None (Sentinel ''connection reset''),
                    gh_tags := \<lambda>_ _. Inr []\<rparr>"
  let ?c = "\<lparr>cm_owner = ''ossf'', cm_repo = ''x'', cm_hash = ''abc''\<rparr>"
  have "?c \<notin> gs_cached new_github_verifier" by (simp add: new_github_verifier_def)
  moreover have "get_tags ?C new_github_verifier (cm_owner ?c) (cm_repo ?c) = (None, new_github_verifier)"
    by (simp add: get_tags_def new_github_verifier_def)
  moreover have "gh_default ?C (cm_owner ?c) (cm_repo ?c) = Inr (Some ''main'')"
    by (simp add: wclient_def)
  ultimately show ?thesis
    by (intro transport_error_panics [where b = "''main''"]) simp_all
qed

end
