(* ===== verification/PostResults.thy ===== *)
theory PostResults
  imports CertCheck GithubVerifier
begin

text \<open>
  \<open>api/app/server/post_results.go\<close>, the publish path, and \<open>config.go\<close>: who signed a
  result, for which repository and branch, with which workflow, and what is then
  written to the results bucket and purged from the CDN.
\<close>

section \<open>Configuration\<close>

definition env_or :: "(string \<Rightarrow> string) \<Rightarrow> string \<Rightarrow> string \<Rightarrow> string" where
  "env_or getenv nm def = (if getenv nm \<noteq> [] then getenv nm else def)"

definition results_bucket_url :: "(string \<Rightarrow> string) \<Rightarrow> string" where
  "results_bucket_url getenv = env_or getenv ''SCORECARD_RESULTS_BUCKET_URL'' ''gs://ossf-scorecard-results''"

definition cron_results_bucket_url :: "(string \<Rightarrow> string) \<Rightarrow> string" where
  "cron_results_bucket_url getenv =
     env_or getenv ''SCORECARD_CRON_RESULTS_BUCKET_URL'' ''gs://ossf-scorecard-cron-results''"

section \<open>What the certificate says\<close>

definition fulcioRepoRefKey :: string where "fulcioRepoRefKey = ''1.3.6.1.4.1.57264.1.6''"
definition fulcioRepoPathKey :: string where "fulcioRepoPathKey = ''1.3.6.1.4.1.57264.1.5''"
definition fulcioRepoSHAKey :: string where "fulcioRepoSHAKey = ''1.3.6.1.4.1.57264.1.3''"
definition fulcioIssuerKey :: string where "fulcioIssuerKey = ''1.3.6.1.4.1.57264.1.1''"
definition resultsFile :: string where "resultsFile = ''results.json''"
definition githubOIDCIssuer :: string where
  "githubOIDCIssuer = ''https://token.actions.githubusercontent.com''"

definition errWritingBucket :: err where "errWritingBucket = Sentinel ''error writing to GCS bucket''"
definition errEmptyCertRef :: err where "errEmptyCertRef = Sentinel ''cert has empty repository ref''"
definition errEmptyCertPath :: err where "errEmptyCertPath = Sentinel ''cert has empty repository path''"
definition errCertMissingURI :: err where "errCertMissingURI = Sentinel ''certificate has no URIs''"
definition errCertWorkflowPathEmpty :: err where
  "errCertWorkflowPathEmpty = Sentinel ''cert workflow path is empty''"
definition errMismatchedCertAndRequest :: err where
  "errMismatchedCertAndRequest =
     Sentinel (''repository and branch of cert doesn'' @ [CHR 0x27] @ ''t match that of request'')"
definition errNotDefaultBranch :: err where
  "errNotDefaultBranch = Sentinel (''branch of cert isn'' @ [CHR 0x27] @ ''t the repo'' @ [CHR 0x27] @ ''s default branch'')"
definition errNotOIDC :: err where
  "errNotOIDC = Sentinel (''ensure your GitHub workflow has '' @ dquote @ ''id-token: write'' @ dquote @ '' permissions'')"

record cert_info =
  ci_repo_full_name :: string
  ci_repo_branch_ref :: string
  ci_repo_sha :: string
  ci_workflow_path :: string
  ci_workflow_ref :: string
  ci_issuer :: string

definition no_cert_info :: cert_info where
  "no_cert_info = \<lparr>ci_repo_full_name = [], ci_repo_branch_ref = [], ci_repo_sha = [],
     ci_workflow_path = [], ci_workflow_ref = [], ci_issuer = []\<rparr>"

fun extension_loop :: "(string \<times> string) list \<Rightarrow> cert_info \<Rightarrow> cert_info res" where
  "extension_loop [] ret = Inr ret"
| "extension_loop ((oid, val) # exts) ret =
     (if oid = fulcioRepoRefKey \<and> val = [] then Inl errEmptyCertRef
      else if oid = fulcioRepoPathKey \<and> val = [] then Inl errEmptyCertPath
      else
        let ret1 = (if oid = fulcioRepoRefKey then ret\<lparr>ci_repo_branch_ref := val\<rparr> else ret);
            ret2 = (if oid = fulcioRepoPathKey then ret1\<lparr>ci_repo_full_name := val\<rparr> else ret1);
            ret3 = (if oid = fulcioRepoSHAKey then ret2\<lparr>ci_repo_sha := val\<rparr> else ret2);
            ret4 = (if oid = fulcioIssuerKey then ret3\<lparr>ci_issuer := val\<rparr> else ret3)
        in extension_loop exts ret4)"

definition extract_cert_info :: "certificate \<Rightarrow> cert_info res" where
  "extract_cert_info cert =
     (case extension_loop (ct_extensions cert) no_cert_info of
        Inl e \<Rightarrow> Inl e
      | Inr ret \<Rightarrow>
          if ci_issuer ret \<noteq> githubOIDCIssuer then Inl errNotOIDC
          else case ct_uri_paths cert of
              [] \<Rightarrow> Inl errCertMissingURI
            | workflow_ref # uris \<Rightarrow>
                if workflow_ref = [] then Inl errCertWorkflowPathEmpty
                else (case cut CHR ''@'' (trim_left_char CHR ''/'' workflow_ref) of
                    (p, rf, found) \<Rightarrow> Inr (ret\<lparr>ci_workflow_path := p, ci_workflow_ref := rf\<rparr>)))"

section \<open>The workflow of the signer\<close>

definition full_name :: "string \<Rightarrow> string \<Rightarrow> string" where
  "full_name org repo = org @ ''/'' @ repo"

definition split_full_path :: "string \<Rightarrow> (string \<times> string \<times> string) option" where
  "split_full_path p =
     (let parts = split_n CHR ''/'' 3 p
      in if length parts < 3 then None else Some (parts ! 0, parts ! 1, parts ! 2))"

definition split_repo_name :: "string \<Rightarrow> (string \<times> string) option" where
  "split_repo_name p =
     (let parts = split_n CHR ''/'' 2 p in if length parts < 2 then None else Some (parts ! 0, parts ! 1))"

text \<open>
  The GitHub API as a client reaches it that attaches a given token: the calls of the
  commit verifier, and the contents of a file, which may fail to decode.
\<close>

record github_api =
  ga_client :: gh_client
  ga_contents :: "string \<Rightarrow> string \<Rightarrow> string \<Rightarrow> string \<Rightarrow> string res res"

type_synonym github = "string option \<Rightarrow> github_api"

record verified_result =
  vr_result :: string
  vr_branch :: string
  vr_access_token :: string
  vr_tlog_index :: int

text \<open>The parsers of workflow files and of YAML.\<close>

record parsers =
  pa_lint :: "string \<Rightarrow> workflow option \<times> diagnostic list"
  pa_yaml :: "string \<Rightarrow> ynode res"

text \<open>
  \<open>getAndVerifyWorkflowContent\<close>.  Its first lines assign \<open>http.DefaultClient.Transport\<close>.
\<close>

definition set_transport :: "string \<Rightarrow> 's world \<Rightarrow> 's world" where
  "set_transport token w = (if token \<noteq> [] then w\<lparr>wd_token := Some token\<rparr> else w)"

definition verify_content :: "parsers \<Rightarrow> github_api \<Rightarrow> verified_result \<Rightarrow> cert_info \<Rightarrow> err option outcome" where
  "verify_content P G sr info =
     (case split_repo_name (ci_repo_full_name info) of
        None \<Rightarrow> Ret (Some (errorf [L ''cert repository name is malformed'']))
      | Some (org, repo) \<Rightarrow>
      case gh_default (ga_client G) org repo of
        Inl e \<Rightarrow> Ret (Some (errorf [L ''error getting repository: '', W e]))
      | Inr branch \<Rightarrow>
      let default_branch = (case branch of None \<Rightarrow> [] | Some b \<Rightarrow> b)
      in if vr_branch sr \<noteq> default_branch \<and> vr_branch sr \<noteq> ''refs/heads/'' @ default_branch then
           Ret (Some (verification_error errNotDefaultBranch))
         else case split_full_path (ci_workflow_path info) of
             None \<Rightarrow> Ret (Some (errorf [L ''cert workflow path is malformed'']))
           | Some (wf_org, wf_repo, wf_path) \<Rightarrow>
               let rf = (if full_name wf_org wf_repo \<noteq> ci_repo_full_name info
                         then ci_workflow_ref info else ci_repo_sha info)
               in (case ga_contents G wf_org wf_repo wf_path rf of
                     Inl e \<Rightarrow> Ret (Some (errorf [L ''error downloading workflow contents from repo: '', W e]))
                   | Inr (Inl e) \<Rightarrow> Ret (Some (errorf [L ''error decoding workflow contents: '', W e]))
                   | Inr (Inr content) \<Rightarrow>
                       (case verify_scorecard_workflow (pa_lint P) (pa_yaml P) (gh_contains (ga_client G))
                           new_github_verifier content of
                          Panic m \<Rightarrow> Panic m
                        | Ret (r, g) \<Rightarrow> Ret r)))"

definition get_and_verify_workflow_content ::
  "parsers \<Rightarrow> github \<Rightarrow> 's world \<Rightarrow> verified_result \<Rightarrow> cert_info \<Rightarrow> err option outcome \<times> 's world" where
  "get_and_verify_workflow_content P github w sr info =
     (let w' = set_transport (vr_access_token sr) w
      in (verify_content P (github (wd_token w')) sr info, w'))"

section \<open>Publishing\<close>

text \<open>Everything outside the process that the publish path talks to.\<close>

record ('k, 'p, 's) environment =
  en_libs :: "('k, 'p) libs"
  en_new_request :: "string \<Rightarrow> err option"
  en_net :: network
  en_github :: github
  en_parsers :: parsers
  en_store :: "'s object_store"
  en_getenv :: "string \<Rightarrow> string"

definition write_object :: "'s object_store \<Rightarrow> 's world \<Rightarrow> string \<Rightarrow> string \<Rightarrow> string \<Rightarrow> err option \<times> 's world" where
  "write_object B w url filename d =
     (case write_to_blob_store B (wd_store w) url filename d of (e, s') \<Rightarrow> (e, w\<lparr>wd_store := s'\<rparr>))"

definition object_path :: "string \<Rightarrow> string \<Rightarrow> string \<Rightarrow> string" where
  "object_path host org repo = host @ ''/'' @ org @ ''/'' @ repo @ ''/'' @ resultsFile"

definition commit_object_path :: "string \<Rightarrow> string \<Rightarrow> string \<Rightarrow> string \<Rightarrow> string" where
  "commit_object_path host org repo sha = host @ ''/'' @ org @ ''/'' @ repo @ ''/'' @ sha @ ''/'' @ resultsFile"

text \<open>The writes and purges that follow the checks; a failed purge is only logged.\<close>

definition publish ::
  "('k, 'p, 's) environment \<Rightarrow> 's world \<Rightarrow> string \<Rightarrow> string \<Rightarrow> string \<Rightarrow> string \<Rightarrow> string
     \<Rightarrow> err option \<times> 's world" where
  "publish E w host org repo sha d =
     (let url = results_bucket_url (en_getenv E);
          path = ''/projects/'' @ host @ ''/'' @ org @ ''/'' @ repo
      in case write_object (en_store E) w url (object_path host org repo) d of
          (Some e, w1) \<Rightarrow> (Some (errorf [W errWritingBucket, L '': '', L (err_text e)]), w1)
        | (None, w1) \<Rightarrow>
            let purger = get_purger (en_getenv E);
                w2 = snd (purge (en_new_request E) (en_net E) purger w1 path)
            in case write_object (en_store E) w2 url (commit_object_path host org repo sha) d of
                (Some e, w3) \<Rightarrow> (Some (errorf [W errWritingBucket, L '': '', L (err_text e)]), w3)
              | (None, w3) \<Rightarrow>
                  (None, snd (purge (en_new_request E) (en_net E) purger w3 (path @ ''?commit='' @ sha))))"

definition branch_matches :: "cert_info \<Rightarrow> string \<Rightarrow> bool" where
  "branch_matches info branch \<longleftrightarrow>
     ci_repo_branch_ref info = branch \<or> ci_repo_branch_ref info = ''refs/heads/'' @ branch"

definition process_request ::
  "('k, 'p, 's) environment \<Rightarrow> 's world \<Rightarrow> string \<Rightarrow> string \<Rightarrow> string \<Rightarrow> verified_result
     \<Rightarrow> err option outcome \<times> 's world" where
  "process_request E w host org repo sr =
     (case extract_and_verify_cert_for_payload (en_libs E) (en_new_request E) (en_net E) w
             (vr_result sr) (vr_tlog_index sr) of
        (Inl e, w1) \<Rightarrow> (Ret (Some (errorf [L ''error extracting cert: '', W e])), w1)
      | (Inr cert, w1) \<Rightarrow>
      case extract_cert_info cert of
        Inl e \<Rightarrow> (Ret (Some (errorf [L ''error extracting cert info: '', W e])), w1)
      | Inr info \<Rightarrow>
          if ci_repo_full_name info \<noteq> full_name org repo \<or> \<not> branch_matches info (vr_branch sr) then
            (Ret (Some (verification_error errMismatchedCertAndRequest)), w1)
          else case get_and_verify_workflow_content (en_parsers E) (en_github E) w1 sr info of
              (Panic m, w2) \<Rightarrow> (Panic m, w2)
            | (Ret (Some e), w2) \<Rightarrow> (Ret (Some (errorf [L ''workflow verification failed: '', W e])), w2)
            | (Ret None, w2) \<Rightarrow>
                (case publish E w2 host org repo (ci_repo_sha info) (vr_result sr) of
                   (r, w3) \<Rightarrow> (Ret r, w3)))"

datatype post_reply =
    PostCreated string
  | PostBadRequest int string
  | PostDefault int int string

definition is_client_error :: "err \<Rightarrow> bool" where
  "is_client_error e \<longleftrightarrow>
     errors_as ''verificationError'' e \<or> errors_is (err_text errWorkflowParse) e \<or> errors_is (err_text errNotOIDC) e"

definition post_results_handler ::
  "('k, 'p, 's) environment \<Rightarrow> 's world \<Rightarrow> string \<Rightarrow> string \<Rightarrow> string \<Rightarrow> verified_result
     \<Rightarrow> post_reply outcome \<times> 's world" where
  "post_results_handler E w host org repo sr =
     (case process_request E w host org repo sr of
        (Panic m, w') \<Rightarrow> (Panic m, w')
      | (Ret None, w') \<Rightarrow> (Ret (PostCreated ''successfully verified and published ScorecardResult''), w')
      | (Ret (Some e), w') \<Rightarrow>
          (Ret (if is_client_error e then PostBadRequest 400 (err_text e)
                else PostDefault 500 500 ''something went wrong and we are looking into it.''), w'))"

section \<open>What the checks establish\<close>

lemma verify_cert_None:
  assumes "verify_cert lb cert t = None"
  shows "\<exists>roots intermediates. lb_append_certs lb (lb_fulcio_root lb) = Some roots \<and>
    lb_append_certs lb (lb_fulcio_intermediate lb) = Some intermediates \<and>
    lb_verify_chain lb cert (ct_not_before cert) roots intermediates = None \<and>
    ct_not_before cert \<le> t \<and> t \<le> ct_not_after cert"
  using assms by (auto simp: verify_cert_def get_cert_pool_def split: sum.splits option.splits if_splits)

text \<open>
  What the log entry and the certificate in it say of a payload: the entry is timestamped
  by Rekor, it records the hash of the payload, and its one certificate was issued by
  Fulcio and valid when the entry was made.
\<close>

definition vouched :: "('k, 'p) libs \<Rightarrow> string \<Rightarrow> tlog_entry \<Rightarrow> certificate \<Rightarrow> bool" where
  "vouched lb payload entry cert \<longleftrightarrow>
     (\<exists>body v. te_verification entry = Some v \<and> check_timestamp lb entry v = None \<and>
        entry_rekord lb entry = Inr body \<and> rk_hash_value body = sha256_hex lb payload \<and>
        rekord_certs lb body = Inr [cert]) \<and>
     (\<exists>roots intermediates. lb_verify_chain lb cert (ct_not_before cert) roots intermediates = None) \<and>
     ct_not_before cert \<le> time_unix (te_integrated_time entry) \<and>
     time_unix (te_integrated_time entry) \<le> ct_not_after cert"

lemma verify_inclusion_proof_None:
  assumes "verify_inclusion_proof lb uuid e = None"
  shows "\<exists>v. te_verification e = Some v \<and> check_timestamp lb e v = None"
  using assms
  by (auto simp: verify_inclusion_proof_def split: option.splits sum.splits if_splits)

lemma check_entry_vouched:
  assumes "check_entry lb payload uuid entry = Inr cert"
  shows "vouched lb payload entry cert"
proof -
  from assms obtain body where b: "entry_rekord lb entry = Inr body" "rekord_matches lb body payload"
    "verify_inclusion_proof lb uuid entry = None" "rekord_certs lb body = Inr [cert]"
    "verify_cert lb cert (time_unix (te_integrated_time entry)) = None"
    by (auto simp: check_entry_def split: sum.splits option.splits list.splits if_splits)
  from b(2) have "rk_hash_value body = sha256_hex lb payload"
    by (auto simp: rekord_matches_def split: if_splits)
  then show ?thesis
    using b(1,4) verify_inclusion_proof_None [OF b(3)] verify_cert_None [OF b(5)]
    unfolding vouched_def by blast
qed

lemma entries_extend:
  "get_tlog_entry_from_url lb nr net w url = (r, w') \<Longrightarrow> extends w w'"
  by (auto simp: get_tlog_entry_from_url_def intro: do_extends split: option.splits prod.splits sum.splits)

lemma uuids_extend: "get_uuids_by_payload lb net w p = (r, w') \<Longrightarrow> extends w w'"
  by (auto simp: get_uuids_by_payload_def intro: do_extends split: prod.splits sum.splits)

lemma by_uuid_extend: "get_tlog_entry_by_uuid lb nr net w u = (r, w') \<Longrightarrow> extends w w'"
  by (cases "get_tlog_entry_from_url lb nr net w (''https://rekor.sigstore.dev/api/v1/log/entries/'' @ u)")
    (auto simp: get_tlog_entry_by_uuid_def dest: entries_extend)

lemma by_index_extend: "get_tlog_entry_by_index lb nr net w i = (r, w') \<Longrightarrow> extends w w'"
  by (auto simp: get_tlog_entry_by_index_def intro: entries_extend)

lemma extract_extends:
  "extract_and_verify_cert_for_payload lb nr net w p i = (r, w') \<Longrightarrow> extends w w'"
  by (auto simp: extract_and_verify_cert_for_payload_def
      dest!: uuids_extend by_uuid_extend by_index_extend intro: extends_trans
      split: if_splits prod.splits sum.splits)

lemma extract_vouched:
  "extract_and_verify_cert_for_payload lb nr net w p i = (Inr cert, w') \<Longrightarrow>
     \<exists>entry. vouched lb p entry cert"
  by (auto simp: extract_and_verify_cert_for_payload_def
      dest: check_entry_vouched split: if_splits prod.splits sum.splits)

text \<open>The workflow that signed, as \<open>verifyScorecardWorkflow\<close> accepts it.\<close>

definition workflow_vouched :: "parsers \<Rightarrow> github_api \<Rightarrow> verified_result \<Rightarrow> cert_info \<Rightarrow> bool" where
  "workflow_vouched P G sr info \<longleftrightarrow>
     (\<exists>org repo def wf_org wf_repo wf_path rf content w.
        split_repo_name (ci_repo_full_name info) = Some (org, repo) \<and>
        gh_default (ga_client G) org repo = Inr def \<and>
        vr_branch sr \<in> {case_option [] id def, ''refs/heads/'' @ case_option [] id def} \<and>
        split_full_path (ci_workflow_path info) = Some (wf_org, wf_repo, wf_path) \<and>
        rf = (if full_name wf_org wf_repo = ci_repo_full_name info then ci_repo_sha info else ci_workflow_ref info) \<and>
        ga_contents G wf_org wf_repo wf_path rf = Inr (Inr content) \<and>
        fst (pa_lint P content) = Some w \<and> accepted (belongs (ga_client G)) w)"

lemma verify_content_None:
  assumes "verify_content P G sr info = Ret None"
  shows "workflow_vouched P G sr info"
proof -
  obtain org repo where r: "split_repo_name (ci_repo_full_name info) = Some (org, repo)"
    using assms by (cases "split_repo_name (ci_repo_full_name info)") (auto simp: verify_content_def)
  obtain def where d: "gh_default (ga_client G) org repo = Inr def"
    using assms r by (cases "gh_default (ga_client G) org repo") (auto simp: verify_content_def)
  obtain wo wr wp where p: "split_full_path (ci_workflow_path info) = Some (wo, wr, wp)"
    and b: "vr_branch sr \<in> {case_option [] id def, ''refs/heads/'' @ case_option [] id def}"
    using assms r d
    by (cases "split_full_path (ci_workflow_path info)"; cases def)
       (auto simp: verify_content_def Let_def split: if_splits)
  define rf where "rf = (if full_name wo wr = ci_repo_full_name info then ci_repo_sha info else ci_workflow_ref info)"
  obtain content g where c: "ga_contents G wo wr wp rf = Inr (Inr content)"
    and v: "verify_scorecard_workflow (pa_lint P) (pa_yaml P) (gh_contains (ga_client G)) new_github_verifier content
              = Ret (None, g)"
    using assms r d p b
    by (cases "ga_contents G wo wr wp rf"; cases "projr (ga_contents G wo wr wp rf)"; cases def)
       (auto simp: verify_content_def Let_def rf_def split: if_splits outcome.splits prod.splits)
  obtain w where "fst (pa_lint P content) = Some w" "accepted (belongs (ga_client G)) w"
    using github.verify_sound [OF cache_ok_new v] by auto
  then show ?thesis
    unfolding workflow_vouched_def using r d b p c rf_def by blast
qed

lemma extension_loop_app:
  "extension_loop (xs @ ys) info = bind_res (extension_loop xs info) (extension_loop ys)"
  by (induction xs arbitrary: info) (auto simp: Let_def)

lemma extract_cert_info_issuer:
  "extract_cert_info cert = Inr info \<Longrightarrow> ci_issuer info = githubOIDCIssuer"
  by (auto simp: extract_cert_info_def split: sum.splits list.splits prod.splits if_splits)

section \<open>What publishing does\<close>

text \<open>The two objects of a publication, written one after the other and nothing else.\<close>

definition published ::
  "('k, 'p, 's) environment \<Rightarrow> 's \<Rightarrow> string \<Rightarrow> string \<Rightarrow> string \<Rightarrow> string \<Rightarrow> string \<Rightarrow> 's \<Rightarrow> bool" where
  "published E s host org repo sha d s' \<longleftrightarrow>
     (\<exists>s1. write_to_blob_store (en_store E) s (results_bucket_url (en_getenv E)) (object_path host org repo) d = (None, s1) \<and>
       write_to_blob_store (en_store E) s1 (results_bucket_url (en_getenv E)) (commit_object_path host org repo sha) d
         = (None, s'))"

lemma write_object_simps [simp]:
  "wd_token (snd (write_object B w u k d)) = wd_token w"
  "wd_sent (snd (write_object B w u k d)) = wd_sent w"
  by (simp_all add: write_object_def split: prod.split)

lemma write_object_eq:
  "write_object B w u k d = (e, w') \<longleftrightarrow>
     (\<exists>s'. write_to_blob_store B (wd_store w) u k d = (e, s') \<and> w' = w\<lparr>wd_store := s'\<rparr>)"
  by (auto simp: write_object_def split: prod.splits)

text \<open>Token and log of requests evolve as in a step that only sends; the storage may change.\<close>

definition sends :: "'s world \<Rightarrow> 's world \<Rightarrow> bool" where
  "sends w w' \<longleftrightarrow> wd_token w' = wd_token w \<and>
     (\<exists>new. wd_sent w' = wd_sent w @ new \<and> list_all (authorised (wd_token w)) new)"

lemma extends_sends: "extends w w' \<Longrightarrow> sends w w'"
  by (simp add: extends_def sends_def)

lemma sends_trans: "sends w1 w2 \<Longrightarrow> sends w2 w3 \<Longrightarrow> sends w1 w3"
  by (force simp: sends_def)

lemma write_sends: "write_object B w u k d = (e, w') \<Longrightarrow> sends w w'"
  by (auto simp: write_object_eq sends_def)

lemma purge_store [simp]:
  "wd_store (snd (purge nr net p w path)) = wd_store w"
  using purge_extends extends_store by (metis prod.collapse)

lemma purge_sends: "sends w (snd (purge nr net p w path))"
  using purge_extends extends_sends by (metis prod.collapse)

lemma publish_sends: "publish E w host org repo sha d = (e, w') \<Longrightarrow> sends w w'"
  by (auto simp: publish_def Let_def dest!: write_sends split: prod.splits option.splits)
    (meson sends_trans purge_sends)+

lemma publish_None:
  "publish E w host org repo sha d = (None, w') \<Longrightarrow>
     published E (wd_store w) host org repo sha d (wd_store w')"
  by (auto simp: publish_def published_def Let_def write_object_eq split: prod.splits option.splits)

lemma publish_Some:
  "publish E w host org repo sha d = (Some e, w') \<Longrightarrow> \<exists>m. e = errorf [W errWritingBucket, L '': '', L m]"
  by (auto simp: publish_def Let_def split: prod.splits option.splits)

lemma publish_fst:
  "fst (publish E w host org repo sha d) = None \<longleftrightarrow>
     (\<exists>s'. published E (wd_store w) host org repo sha d s')"
proof
  assume "fst (publish E w host org repo sha d) = None"
  then have "publish E w host org repo sha d = (None, snd (publish E w host org repo sha d))"
    by (metis prod.collapse)
  from publish_None [OF this] show "\<exists>s'. published E (wd_store w) host org repo sha d s'" ..
next
  assume "\<exists>s'. published E (wd_store w) host org repo sha d s'"
  then show "fst (publish E w host org repo sha d) = None"
    by (auto simp: publish_def published_def Let_def write_object_def split: prod.splits option.splits)
qed

text \<open>A request that succeeds, step by step.\<close>

lemma process_request_ok:
  "process_request E w host org repo sr = (Ret None, w') \<longleftrightarrow>
     (\<exists>cert info w1 w2.
        extract_and_verify_cert_for_payload (en_libs E) (en_new_request E) (en_net E) w
          (vr_result sr) (vr_tlog_index sr) = (Inr cert, w1) \<and>
        extract_cert_info cert = Inr info \<and>
        ci_repo_full_name info = full_name org repo \<and> branch_matches info (vr_branch sr) \<and>
        w2 = set_transport (vr_access_token sr) w1 \<and>
        verify_content (en_parsers E) (en_github E (wd_token w2)) sr info = Ret None \<and>
        publish E w2 host org repo (ci_repo_sha info) (vr_result sr) = (None, w'))"
  by (auto simp: process_request_def get_and_verify_workflow_content_def Let_def
      split: prod.splits sum.splits outcome.splits option.splits if_splits)

lemma set_transport_simps [simp]:
  "wd_store (set_transport t w) = wd_store w" "wd_sent (set_transport t w) = wd_sent w"
  "wd_token (set_transport t w) = (if t = [] then wd_token w else Some t)"
  by (simp_all add: set_transport_def)

section \<open>A concrete environment\<close>

definition wleaf :: string where "wleaf = replicate 64 CHR ''0''"

definition wcert :: certificate where
  "wcert = \<lparr>ct_not_before = 0, ct_not_after = 600 * second_ns,
     ct_extensions = [(fulcioRepoRefKey, ''refs/heads/main''), (fulcioRepoPathKey, ''ossf/scorecard''),
       (fulcioRepoSHAKey, wsha), (fulcioIssuerKey, githubOIDCIssuer)],
     ct_uri_paths = [''/ossf/scorecard/.github/workflows/scorecard.yml@refs/heads/main''], ct_raw = []\<rparr>"

definition wentry :: tlog_entry where
  "wentry = \<lparr>te_body = ''B'', te_integrated_time = 300, te_log_id = [], te_log_index = 7,
     te_verification = Some \<lparr>ve_inclusion_proof =
       Some \<lparr>ip_hashes = [], ip_root_hash = wleaf, ip_tree_size = 1, ip_log_index = 0\<rparr>, ve_set = ''S''\<rparr>\<rparr>"

definition wlibs :: "(unit, unit) libs" where
  "wlibs =
     \<lparr>lb_sha256 = (\<lambda>_. replicate 32 (CHR 0x00)), lb_base64_decode = Inr,
      lb_unmarshal_rekord = (\<lambda>_. Inr \<lparr>rk_api_version = [], rk_kind = hashedrekord_kind,
        rk_hash_algorithm = sha256AlgorithmName, rk_hash_value = wleaf, rk_signature = [], rk_public_key = ''K''\<rparr>),
      lb_decode_uuids = (\<lambda>_. Inr [wleaf]), lb_decode_entries = (\<lambda>_. Inr [(wleaf, wentry)]),
      lb_marshal_set = (\<lambda>b t i n. Inr b), lb_canonical = Inr,
      lb_pem_decode = (\<lambda>s. Some (s, length s)), lb_parse_certificate = (\<lambda>_. Inr wcert),
      lb_parse_pkix = (\<lambda>_. Inr (EcdsaKey ())),
      lb_verify_inclusion = (\<lambda>i n leaf hs root. if n = 1 \<and> leaf = root then None else Some (Sentinel ''mismatch'')),
      lb_verify_asn1 = (\<lambda>k d sig. sig = ''S''), lb_append_certs = (\<lambda>_. Some ()),
      lb_verify_chain = (\<lambda>c t r i. None), lb_rekor_pub = ''R'', lb_fulcio_root = ''F'',
      lb_fulcio_intermediate = ''I'', lb_time_text = (\<lambda>_. [])\<rparr>"

definition open_store :: "mem_storage object_store" where
  "open_store = mem_store\<lparr>os_open := \<lambda>_ _. None\<rparr>"

definition wenv :: "(unit, unit, mem_storage) environment" where
  "wenv =
     \<lparr>en_libs = wlibs, en_new_request = (\<lambda>_. None),
      en_net = (\<lambda>_ _. Inr \<lparr>rp_status = 200, rp_body = [], rp_body_error = None, rp_status_text = ''200 OK''\<rparr>),
      en_github = (\<lambda>_. \<lparr>ga_client = wclient, ga_contents = (\<lambda>_ _ _ _. Inr (Inr ''name: scorecard''))\<rparr>),
      en_parsers = \<lparr>pa_lint = (\<lambda>_. (Some (wflow [(''a'', Some (wjob wuses))]), [])), pa_yaml = (\<lambda>_. Inl (Sentinel []))\<rparr>,
       en_store = open_store, en_getenv = (\<lambda>_. [])\<rparr>"

definition wworld :: "mem_storage world" where
  "wworld = \<lparr>wd_token = None, wd_sent = [], wd_store = empty_storage\<rparr>"

definition wupload :: "string \<Rightarrow> verified_result" where
  "wupload token = \<lparr>vr_result = ''{}'', vr_branch = ''main'', vr_access_token = token, vr_tlog_index = 7\<rparr>"

definition winfo :: cert_info where
  "winfo = \<lparr>ci_repo_full_name = ''ossf/scorecard'', ci_repo_branch_ref = ''refs/heads/main'', ci_repo_sha = wsha,
     ci_workflow_path = ''ossf/scorecard/.github/workflows/scorecard.yml'', ci_workflow_ref = ''refs/heads/main'',
     ci_issuer = githubOIDCIssuer\<rparr>"

lemma wchecks:
  "check_entry wlibs ''{}'' wleaf wentry = Inr wcert"
  "extract_cert_info wcert = Inr winfo"
  "split_repo_name (ci_repo_full_name winfo) = Some (''ossf'', ''scorecard'')"
  "split_full_path (ci_workflow_path winfo) = Some (''ossf'', ''scorecard'', ''.github/workflows/scorecard.yml'')"
  "ci_repo_full_name winfo = full_name ''ossf'' ''scorecard''"
  "branch_matches winfo ''main''"
  "get_purger (\<lambda>_. []) = NoOpClient"
  by code_simp+

lemma wverify: "verify_content (en_parsers wenv) (en_github wenv token) (wupload t) winfo = Ret None"
proof -
  obtain g where "check_workflow (gh_contains wclient) new_github_verifier (wflow [(''a'', Some (wjob wuses))])
      = Ret (None, g)"
    using waccepted by blast
  then have "verify_scorecard_workflow (pa_lint (en_parsers wenv)) (pa_yaml (en_parsers wenv))
      (gh_contains wclient) new_github_verifier ''name: scorecard'' = Ret (None, g)"
    by (simp add: verify_scorecard_workflow_def wenv_def unreviewed_diagnostics_def)
  then show ?thesis
    using wchecks(3,4)
    by (simp add: verify_content_def wenv_def wupload_def wclient_def)
qed

lemma wenv_select [simp]:
  "en_libs wenv = wlibs" "en_store wenv = open_store" "en_getenv wenv = (\<lambda>_. [])"
  by (simp_all add: wenv_def)

lemma open_store_write:
  "write_to_blob_store open_store s u k d = (None, s\<lparr>ms_objects := ((u, k), d) # ms_objects s\<rparr>)"
  by (simp add: write_to_blob_store_def open_store_def mem_store_def)

lemma open_store_read:
  "os_read_all open_store s u k =
     (case map_of (ms_objects s) (u, k) of None \<Rightarrow> Inl (Sentinel ''blob not found'') | Some d \<Rightarrow> Inr d)"
  by (simp add: open_store_def mem_store_def)

lemma wpublished_read:
  "published wenv s platform org repo sha d s' \<Longrightarrow>
     os_read_all open_store s' (results_bucket_url (\<lambda>_. [])) (object_path platform org repo) = Inr d"
  by (auto simp: published_def open_store_write open_store_read)

lemma wrequest:
  "\<exists>w'. process_request wenv w platform ''ossf'' ''scorecard'' (wupload token) = (Ret None, w')"
proof -
  obtain w1 where x: "extract_and_verify_cert_for_payload (en_libs wenv) (en_new_request wenv) (en_net wenv) w
      ''{}'' 7 = (Inr wcert, w1)"
    using wchecks(1)
    by (auto simp: extract_and_verify_cert_for_payload_def noTlogIndex_def get_tlog_entry_by_index_def
        get_tlog_entry_from_url_def default_client_do_def wenv_def wlibs_def Let_def)
  define w2 where "w2 = set_transport token w1"
  have "\<exists>s'. published wenv (wd_store w2) platform ''ossf'' ''scorecard'' (ci_repo_sha winfo) ''{}'' s'"
    by (simp add: published_def open_store_write)
  then obtain w' where p: "publish wenv w2 platform ''ossf'' ''scorecard'' (ci_repo_sha winfo) ''{}'' = (None, w')"
    unfolding publish_fst [symmetric] by (metis prod.collapse)
  show ?thesis
    unfolding process_request_ok using x wchecks(2,5,6) wverify p w2_def
    by (auto simp: wupload_def)
qed

end
