(* ===== verification/PostProps.thy ===== *)
theory PostProps
  imports PostResults
begin

text \<open>
  Properties of the publish path: what a publication is backed by, what a rejected one
  leaves alone, which platform it is filed under, and where the access token of an
  uploader ends up.
\<close>

lemma timestamp_ignores_proof:
  assumes "ve_set v' = ve_set v"
  shows "check_timestamp lb (entry\<lparr>te_verification := x\<rparr>) v' = check_timestamp lb entry v"
proof -
  let ?e = "entry\<lparr>te_verification := x\<rparr>"
  have sel: "te_body ?e = te_body entry" "te_integrated_time ?e = te_integrated_time entry"
    "te_log_id ?e = te_log_id entry" "te_log_index ?e = te_log_index entry"
    by simp_all
  show ?thesis unfolding check_timestamp_def sel assms ..
qed

section \<open>Properties\<close>





text \<open>
  The platform of the request is never compared with anything: a result that can be
  published for one platform can, with the same entry and certificate, be published for
  any other, in particular for a repository of the same name on another forge.
\<close>

theorem platform_unchecked:
  assumes "process_request E w host org repo sr = (Ret None, w')"
    and "\<And>s k. fst (write_to_blob_store (en_store E) s (results_bucket_url (en_getenv E)) k (vr_result sr)) = None"
  shows "\<exists>w'' sha. process_request E w platform org repo sr = (Ret None, w'') \<and>
    published E (wd_store w) platform org repo sha (vr_result sr) (wd_store w'')"
proof -
  from assms(1) obtain cert info w1 w2 where
    x: "extract_and_verify_cert_for_payload (en_libs E) (en_new_request E) (en_net E) w
          (vr_result sr) (vr_tlog_index sr) = (Inr cert, w1)"
    and i: "extract_cert_info cert = Inr info"
    and m: "ci_repo_full_name info = full_name org repo" "branch_matches info (vr_branch sr)"
    and w2: "w2 = set_transport (vr_access_token sr) w1"
    and v: "verify_content (en_parsers E) (en_github E (wd_token w2)) sr info = Ret None"
    unfolding process_request_ok by blast
  have s: "wd_store w2 = wd_store w" using extends_store [OF extract_extends [OF x]] w2 by simp
  have "\<exists>s'. published E (wd_store w2) platform org repo (ci_repo_sha info) (vr_result sr) s'"
    unfolding published_def using assms(2) by (metis prod.collapse)
  then obtain w'' where p: "publish E w2 platform org repo (ci_repo_sha info) (vr_result sr) = (None, w'')"
    unfolding publish_fst [symmetric] by (metis prod.collapse)
  have "process_request E w platform org repo sr = (Ret None, w'')"
    unfolding process_request_ok using x i m w2 v p by blast
  with publish_None [OF p] s show ?thesis by auto
qed

theorem platform_unchecked_witness:
  "\<exists>w' sha. process_request wenv wworld ''gitlab.com'' ''ossf'' ''scorecard'' (wupload []) = (Ret None, w') \<and>
     published wenv empty_storage ''gitlab.com'' ''ossf'' ''scorecard'' sha ''{}'' (wd_store w')"
proof -
  obtain w' where p: "process_request wenv wworld ''github.com'' ''ossf'' ''scorecard'' (wupload []) = (Ret None, w')"
    using wrequest by blast
  from platform_unchecked [OF p, of "''gitlab.com''"] show ?thesis
    by (auto simp: open_store_write wupload_def wworld_def)
qed

text \<open>
  C20. The access token of an upload outlives it: \<open>getAndVerifyWorkflowContent\<close> stores it in
  the transport of \<open>http.DefaultClient\<close>, so the next upload that brings no token of its own
  sends every request, to Rekor, to the CDN and to GitHub, with the earlier uploader's
  \<open>Authorization\<close> header.
\<close>

theorem token_outlives_request:
  assumes "process_request E w host org repo sr = (Ret None, w1)"
    and "vr_access_token sr = token" "token \<noteq> []"
    and "process_request E w1 host' org' repo' sr' = (r, w2)" "vr_access_token sr' = []"
  shows "wd_token w2 = Some token \<and>
    (\<exists>new. wd_sent w2 = wd_sent w1 @ new \<and> list_all (\<lambda>q. bearer token \<in> set (aq_headers q)) new) \<and>
    process_request (E\<lparr>en_github := \<lambda>_. en_github E (Some token)\<rparr>) w1 host' org' repo' sr' = (r, w2)"
proof -
  have t: "wd_token w1 = Some token"
    using assms(1-3) by (auto simp: process_request_ok dest!: publish_sends simp: sends_def)
  have pub: "publish (E\<lparr>en_github := g\<rparr>) v h o' p s d = publish E v h o' p s d" for g v h o' p s d
  proof -
    have sel: "en_store (E\<lparr>en_github := g\<rparr>) = en_store E" "en_net (E\<lparr>en_github := g\<rparr>) = en_net E"
      "en_new_request (E\<lparr>en_github := g\<rparr>) = en_new_request E" "en_getenv (E\<lparr>en_github := g\<rparr>) = en_getenv E"
      by simp_all
    show ?thesis unfolding publish_def sel ..
  qed
  have "sends w1 w2"
    using assms(4,5)
    by (auto simp: process_request_def get_and_verify_workflow_content_def set_transport_def Let_def
        dest!: extract_extends extends_sends publish_sends intro: sends_trans
        split: prod.splits sum.splits outcome.splits option.splits if_splits)
  then have "wd_token w2 = Some token"
    "\<exists>new. wd_sent w2 = wd_sent w1 @ new \<and> list_all (\<lambda>q. bearer token \<in> set (aq_headers q)) new"
    using t by (auto simp: sends_def authorised_def list_all_iff)
  moreover have "process_request (E\<lparr>en_github := \<lambda>_. en_github E (Some token)\<rparr>) w1 host' org' repo' sr' =
      process_request E w1 host' org' repo' sr'"
  proof (cases "extract_and_verify_cert_for_payload (en_libs E) (en_new_request E) (en_net E) w1
      (vr_result sr') (vr_tlog_index sr')")
    case (Pair rc wx)
    then have "wd_token wx = Some token" using extends_token [OF extract_extends] t by metis
    then have gv: "get_and_verify_workflow_content P (\<lambda>_. G (Some token)) wx sr' info =
        get_and_verify_workflow_content P G wx sr' info" for P G info
      using assms(5) by (simp add: get_and_verify_workflow_content_def set_transport_def)
    let ?E = "E\<lparr>en_github := \<lambda>_. en_github E (Some token)\<rparr>"
    have sel: "en_libs ?E = en_libs E" "en_new_request ?E = en_new_request E" "en_net ?E = en_net E"
      "en_parsers ?E = en_parsers E" "en_github ?E = (\<lambda>_. en_github E (Some token))"
      by simp_all
    show ?thesis unfolding process_request_def sel Pair prod.case gv pub ..
  qed
  ultimately show ?thesis using assms(4) by simp
qed

theorem token_outlives_request_witness:
  "\<exists>w1 w2. process_request wenv wworld ''github.com'' ''ossf'' ''scorecard'' (wupload ''ghs_secret'') = (Ret None, w1) \<and>
     process_request wenv w1 ''github.com'' ''ossf'' ''scorecard'' (wupload []) = (Ret None, w2) \<and>
     wd_token w2 = Some ''ghs_secret''"
proof -
  obtain w1 where 1: "process_request wenv wworld ''github.com'' ''ossf'' ''scorecard'' (wupload ''ghs_secret'') = (Ret None, w1)"
    using wrequest by blast
  obtain w2 where 2: "process_request wenv w1 ''github.com'' ''ossf'' ''scorecard'' (wupload []) = (Ret None, w2)"
    using wrequest by blast
  have "wd_token w2 = Some ''ghs_secret''"
    using token_outlives_request [OF 1 _ _ 2] by (simp add: wupload_def)
  with 1 2 show ?thesis by blast
qed

text \<open>
  The inclusion proof is not tied to the entry: its root hash comes with the proof and
  its leaf with the response, neither is compared with the body or a signed checkpoint.
  Any 32-byte leaf passes as the root of a tree of size one, so the check adds nothing to
  the signed timestamp.
\<close>

theorem inclusion_proof_unbound:
  assumes "te_verification entry = Some v" "check_timestamp lb entry v = None"
    and "\<And>leaf. lb_verify_inclusion lb 0 1 leaf [] leaf = None"
    and "hex_decode uuid = Inr leaf" "length leaf = 32"
    and "v' = v\<lparr>ve_inclusion_proof := Some \<lparr>ip_hashes = [], ip_root_hash = uuid, ip_tree_size = 1, ip_log_index = 0\<rparr>\<rparr>"
  shows "verify_inclusion_proof lb uuid (entry\<lparr>te_verification := Some v'\<rparr>) = None"
proof -
  have "check_timestamp lb (entry\<lparr>te_verification := Some v'\<rparr>) v' = None"
    using assms(2,6) timestamp_ignores_proof [of v' v lb "Some v'" entry] by simp
  then show ?thesis using assms by (simp add: verify_inclusion_proof_def leaf_of_def)
qed

theorem inclusion_proof_unbound_witness:
  "verify_inclusion_proof wlibs (replicate 64 CHR ''f'')
     (wentry\<lparr>te_verification := Some \<lparr>ve_inclusion_proof = Some
        \<lparr>ip_hashes = [], ip_root_hash = replicate 64 CHR ''f'', ip_tree_size = 1, ip_log_index = 0\<rparr>, ve_set = ''S''\<rparr>\<rparr>) = None"
proof -
  obtain v where v: "te_verification wentry = Some v" "ve_set v = ''S''" by (simp add: wentry_def)
  have "check_timestamp wlibs wentry v = None"
    using v(2) by (simp add: check_timestamp_def wlibs_def)
  moreover have "lb_verify_inclusion wlibs 0 1 leaf [] leaf = None" for leaf
    by (simp add: wlibs_def)
  moreover have "hex_decode (replicate 64 CHR ''f'') = Inr (replicate 32 (char_of (255::nat)))" by code_simp
  ultimately show ?thesis
    using v by (intro inclusion_proof_unbound [where v = v and leaf = "replicate 32 (char_of (255 :: nat))"]) simp_all
qed

end
