(* ===== verification/GetResults.thy ===== *)
theory GetResults
  imports PostResults
begin

text \<open>
  The read side of the API: \<open>get_results.go\<close>, \<open>errors.go\<close>, \<open>badge.go\<close>, \<open>version.go\<close> of
  \<open>api/app/server\<close>, and \<open>serveStatic\<close> of the generated server's
  \<open>configure_scorecard.go\<close>.  Decoding and encoding of the generated models is a parameter.
\<close>

section \<open>Object names\<close>

text \<open>
  \<open>filepath.Match\<close> on the patterns the code uses, made of literal characters and \<open>*\<close>,
  which matches any sequence without a separator.
\<close>

fun glob :: "string \<Rightarrow> string \<Rightarrow> bool" where
  "glob [] s = (s = [])"
| "glob (c # p) s =
     (if c = CHR ''*'' then
        list_ex (\<lambda>i. CHR ''/'' \<notin> set (take i s) \<and> glob p (drop i s)) [0..<Suc (length s)]
      else (case s of [] \<Rightarrow> False | d # s' \<Rightarrow> d = c \<and> glob p s'))"

definition errNotFound :: err where "errNotFound = Sentinel ''not found''"
definition errInvalidInputs :: err where "errInvalidInputs = Sentinel ''invalid inputs provided''"

definition sanitize_inputs :: "string \<Rightarrow> string \<Rightarrow> string \<Rightarrow> string option \<Rightarrow> string res" where
  "sanitize_inputs host org repo commit =
     (let results_file = (case commit of
            None \<Rightarrow> path_join [host, org, repo, ''results.json'']
          | Some sha \<Rightarrow> path_join [host, org, repo, sha, ''results.json'']);
          clean = remove_char CHR 0x0D (remove_char CHR 0x0A (path_clean results_file));
          matched = glob (if commit = None then ''*/*/*/results.json'' else ''*/*/*/*/results.json'') clean
      in if \<not> matched then Inl errInvalidInputs else Inr clean)"

section \<open>Reading results\<close>

definition try_bucket :: "'s object_store \<Rightarrow> 's \<Rightarrow> string \<Rightarrow> string \<Rightarrow> string option" where
  "try_bucket B s url k =
     (case os_open B s url of
        Some e \<Rightarrow> None
      | None \<Rightarrow> (case os_read_all B s url k of Inl e \<Rightarrow> None | Inr d \<Rightarrow> Some d))"

definition get_results ::
  "'s object_store \<Rightarrow> (string \<Rightarrow> string) \<Rightarrow> 's \<Rightarrow> string \<Rightarrow> string \<Rightarrow> string \<Rightarrow> string option \<Rightarrow> string res" where
  "get_results B getenv s host org repo commit =
     (case sanitize_inputs host org repo commit of
        Inl e \<Rightarrow> Inl e
      | Inr k \<Rightarrow>
      case try_bucket B s (results_bucket_url getenv) k of
        Some d \<Rightarrow> Inr d
      | None \<Rightarrow>
      case sanitize_inputs host org repo commit of
        Inl e \<Rightarrow> Inl e
      | Inr k2 \<Rightarrow>
      case try_bucket B s (cron_results_bucket_url getenv) k2 of
        Some d \<Rightarrow> Inr d
      | None \<Rightarrow> Inl errNotFound)"

definition fastlyTTL :: string where "fastlyTTL = ''max-age=31557600''"
definition browserCacheTTL :: string where "browserCacheTTL = ''max-age=600''"

text \<open>Replies with their payload and the \<open>Surrogate-Control\<close> and \<open>Cache-Control\<close> headers.\<close>

datatype 'm get_reply =
    GetResultOK 'm string string
  | GetResultNotFound string string
  | GetResultBadRequest string string
  | GetResultDefault int int string

text \<open>\<open>unmarshal_binary\<close> is \<open>models.ScorecardResult.UnmarshalBinary\<close>.\<close>

definition get_result_handler ::
  "(string \<Rightarrow> 'm res) \<Rightarrow> 's object_store \<Rightarrow> (string \<Rightarrow> string) \<Rightarrow> 's \<Rightarrow> string \<Rightarrow> string \<Rightarrow> string
     \<Rightarrow> string option \<Rightarrow> 'm get_reply" where
  "get_result_handler unmarshal_binary B getenv s host org repo commit =
     (case get_results B getenv s host org repo commit of
        Inl e \<Rightarrow>
          if errors_is (err_text errNotFound) e then GetResultNotFound fastlyTTL browserCacheTTL
          else if errors_is (err_text errInvalidInputs) e then GetResultBadRequest fastlyTTL browserCacheTTL
          else GetResultDefault 500 500 (err_text e)
      | Inr res \<Rightarrow>
          (case unmarshal_binary res of
             Inr ret \<Rightarrow> GetResultOK ret fastlyTTL browserCacheTTL
           | Inl e \<Rightarrow> GetResultDefault 500 500 (err_text e)))"

section \<open>Badges\<close>

definition shieldsURL :: string where "shieldsURL = ''https://img.shields.io/ossf-scorecard''"
definition badgeLabel :: string where "badgeLabel = ''openssf+scorecard''"
definition defaultStyle :: string where "defaultStyle = ''flat''"

datatype badge_reply = BadgeRedirect int string "(string \<times> string) list" | GetBadgeDefault int int string

text \<open>\<open>url_parse\<close> is \<open>url.Parse\<close> followed, when it succeeds, by \<open>URL.String\<close>.\<close>

definition get_badge_handler ::
  "(string \<Rightarrow> string res) \<Rightarrow> string \<Rightarrow> string \<Rightarrow> string \<Rightarrow> string \<Rightarrow> badge_reply" where
  "get_badge_handler url_parse host org repo style_param =
     (let style = (if 0 < length style_param then style_param else defaultStyle)
      in case url_parse (shieldsURL @ ''/'' @ host @ ''/'' @ org @ ''/'' @ repo @ ''?label='' @ badgeLabel
               @ ''&style='' @ style) of
          Inl e \<Rightarrow> GetBadgeDefault 500 500 (err_text e)
        | Inr u \<Rightarrow>
            BadgeRedirect 302 u
              [(''Surrogate-Control'', fastlyTTL), (''Cache-Control'', browserCacheTTL),
               (''Surrogate-Key'', ''scorecard-badge-redirect'')])"

section \<open>Version\<close>

record module_info =
  mi_path :: string
  mi_version :: string

record dependency = module_info +
  mi_replace :: "module_info option"

record version_info =
  vi_version :: string
  vi_commit :: string
  vi_parser :: string

definition unknown :: string where "unknown = ''unknown''"
definition parserModule :: string where "parserModule = ''actionlint.kjanat.dev''"

definition or_unknown :: "string \<Rightarrow> string" where
  "or_unknown s = (if s = [] then unknown else s)"

fun deps_loop :: "dependency list \<Rightarrow> string \<Rightarrow> string" where
  "deps_loop [] path = unknown"
| "deps_loop (dep # deps) path =
     (if mi_path dep \<noteq> path then deps_loop deps path
      else case mi_replace dep of
          None \<Rightarrow> or_unknown (mi_path dep @ '' '' @ mi_version dep)
        | Some r \<Rightarrow> or_unknown (mi_path r @ '' '' @ mi_version r))"

definition module_version :: "dependency list option \<Rightarrow> string \<Rightarrow> string" where
  "module_version info path = (case info of None \<Rightarrow> unknown | Some deps \<Rightarrow> deps_loop deps path)"

definition new_version_info :: "string \<Rightarrow> string \<Rightarrow> dependency list option \<Rightarrow> version_info" where
  "new_version_info ver commit info =
     \<lparr>vi_version = or_unknown ver, vi_commit = or_unknown commit, vi_parser = module_version info parserModule\<rparr>"

text \<open>\<open>GetVersionHandler\<close>: its payload and headers.\<close>

definition get_version_handler ::
  "string \<Rightarrow> string \<Rightarrow> dependency list option \<Rightarrow> version_info \<times> (string \<times> string) list" where
  "get_version_handler git_version git_commit info =
     (new_version_info git_version git_commit info,
      [(''Surrogate-Control'', ''max-age=300''), (''Cache-Control'', ''max-age=60''),
       (''Surrogate-Key'', ''scorecard-version'')])"

section \<open>Static files in front of the API\<close>

definition static_paths :: "string list" where
  "static_paths =
     [''/'', ''/favicon.ico'', ''/swagger-ui.css'', ''/swagger-ui.css.map'', ''/index.css'', ''/favicon-32x32.png'',
      ''/favicon-16x16.png'', ''/swagger-ui-bundle.js'', ''/swagger-ui-bundle.js.map'',
      ''/swagger-ui-standalone-preset.js'', ''/swagger-ui-standalone-preset.js.map'', ''/swagger-initializer.js'']"

datatype static_action =
    RedirectHome int string
  | ServerError int
  | ServeFile "(string \<times> string) list"
  | Delegate

text \<open>\<open>sub_error\<close> is the error of \<open>fs.Sub\<close>; the reply is what \<open>serveStatic\<close> does with a path.\<close>

definition serve_static :: "err option \<Rightarrow> string \<Rightarrow> static_action" where
  "serve_static sub_error p =
     (if p = ''/docs'' then RedirectHome 302 ''/''
      else if p \<in> set static_paths then
        (case sub_error of
           Some e \<Rightarrow> ServerError 500
         | None \<Rightarrow> ServeFile (if p = ''/'' then [(''content-type'', ''text/html'')] else []))
      else Delegate)"

section \<open>Lemmas\<close>

lemma glob_literal: "CHR ''*'' \<notin> set p \<Longrightarrow> glob p s \<longleftrightarrow> s = p"
  by (induction p arbitrary: s) (auto split: list.splits)

lemma glob_star: "glob (CHR ''*'' # p) s \<longleftrightarrow> (\<exists>a r. s = a @ r \<and> CHR ''/'' \<notin> set a \<and> glob p r)"
proof
  assume "glob (CHR ''*'' # p) s"
  then obtain i where "CHR ''/'' \<notin> set (take i s)" "glob p (drop i s)"
    by (auto simp: list_ex_iff simp del: upt_Suc)
  then show "\<exists>a r. s = a @ r \<and> CHR ''/'' \<notin> set a \<and> glob p r" by (metis append_take_drop_id)
next
  assume "\<exists>a r. s = a @ r \<and> CHR ''/'' \<notin> set a \<and> glob p r"
  then obtain a r where "s = a @ r" "CHR ''/'' \<notin> set a" "glob p r" by blast
  then show "glob (CHR ''*'' # p) s"
    by (auto simp: list_ex_iff simp del: upt_Suc intro!: bexI [of _ "length a"])
qed

lemma glob_char: "c \<noteq> CHR ''*'' \<Longrightarrow> glob (c # p) s \<longleftrightarrow> (\<exists>r. s = c # r \<and> glob p r)"
  by (cases s) auto

lemma glob_star_slash:
  "glob (CHR ''*'' # CHR ''/'' # p) s \<longleftrightarrow> (\<exists>a r. s = a @ CHR ''/'' # r \<and> CHR ''/'' \<notin> set a \<and> glob p r)"
proof -
  have slash: "glob (CHR ''/'' # p) r \<longleftrightarrow> (\<exists>q. r = CHR ''/'' # q \<and> glob p q)" for r
    by (rule glob_char) simp
  show ?thesis unfolding glob_star slash by blast
qed

text \<open>A path of \<open>n\<close> elements and the results file.\<close>

fun stars :: "nat \<Rightarrow> string" where
  "stars 0 = ''results.json''"
| "stars (Suc n) = CHR ''*'' # CHR ''/'' # stars n"

lemma glob_stars:
  "glob (stars n) s \<longleftrightarrow>
     (\<exists>ps. length ps = n \<and> (\<forall>p \<in> set ps. CHR ''/'' \<notin> set p) \<and> s = join ''/'' (ps @ [''results.json'']))"
proof (induction n arbitrary: s)
  case 0
  show ?case using glob_literal [of "''results.json''" s] by (simp del: glob.simps)
next
  case (Suc n)
  show ?case
  proof
    assume "glob (stars (Suc n)) s"
    then obtain a r where a: "s = a @ CHR ''/'' # r" "CHR ''/'' \<notin> set a" "glob (stars n) r"
      unfolding stars.simps glob_star_slash by blast
    then obtain ps where "length ps = n" "\<forall>p \<in> set ps. CHR ''/'' \<notin> set p" "r = join ''/'' (ps @ [''results.json''])"
      using Suc.IH by blast
    with a show "\<exists>ps. length ps = Suc n \<and> (\<forall>p \<in> set ps. CHR ''/'' \<notin> set p) \<and> s = join ''/'' (ps @ [''results.json''])"
      by (intro exI [of _ "a # ps"]) (simp add: join_Cons)
  next
    assume "\<exists>ps. length ps = Suc n \<and> (\<forall>p \<in> set ps. CHR ''/'' \<notin> set p) \<and> s = join ''/'' (ps @ [''results.json''])"
    then obtain ps where "length ps = Suc n" "\<forall>p \<in> set ps. CHR ''/'' \<notin> set p" "s = join ''/'' (ps @ [''results.json''])"
      by blast
    moreover from this(1) obtain a qs where "ps = a # qs" "length qs = n" by (cases ps) auto
    ultimately have "s = a @ CHR ''/'' # join ''/'' (qs @ [''results.json''])" "CHR ''/'' \<notin> set a"
      "glob (stars n) (join ''/'' (qs @ [''results.json'']))"
      using Suc.IH by (auto simp: join_Cons)
    then show "glob (stars (Suc n)) s" unfolding stars.simps glob_star_slash by blast
  qed
qed

definition levels :: "string option \<Rightarrow> nat" where "levels commit = (case commit of None \<Rightarrow> 3 | Some sha \<Rightarrow> 4)"

lemma pattern_stars:
  "(if commit = None then ''*/*/*/results.json'' else ''*/*/*/*/results.json'') = stars (levels commit)"
  by (simp add: levels_def eval_nat_numeral split: option.split)

lemma sanitized_plain:
  assumes "\<forall>p \<in> set ps. plain_elem p \<and> CHR 0x0A \<notin> set p \<and> CHR 0x0D \<notin> set p" "length ps = n"
  defines "k \<equiv> join ''/'' (ps @ [''results.json''])"
  shows "path_join (ps @ [''results.json'']) = k" "path_clean k = k" "remove_char CHR 0x0A k = k"
    "remove_char CHR 0x0D k = k" "glob (stars n) k"
proof -
  have r: "plain_elem ''results.json''" by (simp add: plain_elem_def)
  then have pl: "ps @ [''results.json''] \<noteq> []" "\<forall>p \<in> set (ps @ [''results.json'']). plain_elem p"
    using assms(1) by auto
  show "path_join (ps @ [''results.json'']) = k" unfolding k_def by (rule path_join_plain [OF pl])
  show "path_clean k = k" unfolding k_def by (rule path_clean_plain [OF pl])
  have "c \<notin> set k" if "c \<in> {CHR 0x0A, CHR 0x0D}" for c
  proof -
    have "c \<notin> set (join ''/'' (qs @ [''results.json'']))"
      if "\<forall>p \<in> set qs. CHR 0x0A \<notin> set p \<and> CHR 0x0D \<notin> set p" for qs
      using that \<open>c \<in> _\<close> by (induction qs) (auto simp: join_Cons)
    then show ?thesis using assms(1) unfolding k_def by blast
  qed
  then show "remove_char CHR 0x0A k = k" "remove_char CHR 0x0D k = k"
    by (auto simp: remove_char_def filter_id_conv)
  show "glob (stars n) k"
    unfolding glob_stars k_def using assms(1,2) by (intro exI [of _ ps]) (auto simp: plain_elem_def)
qed

lemma sanitize_plain:
  assumes "\<forall>p \<in> set ([host, org, repo] @ case_option [] (\<lambda>c. [c]) commit).
    plain_elem p \<and> CHR 0x0A \<notin> set p \<and> CHR 0x0D \<notin> set p"
  shows "sanitize_inputs host org repo commit =
    Inr (case commit of None \<Rightarrow> object_path host org repo | Some sha \<Rightarrow> commit_object_path host org repo sha)"
proof (cases commit)
  case None
  with assms have "\<forall>p \<in> set [host, org, repo]. plain_elem p \<and> CHR 0x0A \<notin> set p \<and> CHR 0x0D \<notin> set p" by simp
  note k = sanitized_plain [OF this, of 3, simplified]
  show ?thesis
    unfolding sanitize_inputs_def pattern_stars None
    using k by (simp add: Let_def levels_def object_path_def resultsFile_def)
next
  case (Some sha)
  with assms have "\<forall>p \<in> set [host, org, repo, sha]. plain_elem p \<and> CHR 0x0A \<notin> set p \<and> CHR 0x0D \<notin> set p" by simp
  note k = sanitized_plain [OF this, of 4, simplified]
  show ?thesis
    unfolding sanitize_inputs_def pattern_stars Some
    using k by (simp add: Let_def levels_def commit_object_path_def resultsFile_def)
qed

lemma sanitize_shape:
  assumes "sanitize_inputs host org repo commit = Inr k"
  shows "CHR 0x0A \<notin> set k \<and> CHR 0x0D \<notin> set k \<and>
    (\<exists>ps. length ps = levels commit \<and> (\<forall>p \<in> set ps. CHR ''/'' \<notin> set p) \<and> k = join ''/'' (ps @ [''results.json'']))"
proof -
  define p where "p = path_clean (case commit of
      None \<Rightarrow> path_join [host, org, repo, ''results.json'']
    | Some sha \<Rightarrow> path_join [host, org, repo, sha, ''results.json''])"
  let ?k = "remove_char CHR 0x0D (remove_char CHR 0x0A p)"
  have "sanitize_inputs host org repo commit =
      (if \<not> glob (stars (levels commit)) ?k then Inl errInvalidInputs else Inr ?k)"
    unfolding sanitize_inputs_def pattern_stars Let_def p_def ..
  with assms have k: "k = ?k" and g: "glob (stars (levels commit)) k" by (simp_all split: if_splits)
  have "CHR 0x0A \<notin> set k \<and> CHR 0x0D \<notin> set k" unfolding k by (simp add: remove_char_def)
  with g show ?thesis unfolding glob_stars by blast
qed

text \<open>The storage after a successful upload, as two writes.\<close>

lemma uploaded:
  assumes "process_request E w host org repo sr = (Ret None, w')"
  shows "\<exists>sha. published E (wd_store w) host org repo sha (vr_result sr) (wd_store w')"
proof -
  from assms obtain cert info w1 w2 where
    x: "extract_and_verify_cert_for_payload (en_libs E) (en_new_request E) (en_net E) w
          (vr_result sr) (vr_tlog_index sr) = (Inr cert, w1)"
    and "extract_cert_info cert = Inr info"
    and "ci_repo_full_name info = full_name org repo" "branch_matches info (vr_branch sr)"
    and w2: "w2 = set_transport (vr_access_token sr) w1"
    and "verify_content (en_parsers E) (en_github E (wd_token w2)) sr info = Ret None"
    and p: "publish E w2 host org repo (ci_repo_sha info) (vr_result sr) = (None, w')"
    unfolding process_request_ok by blast
  have "wd_store w2 = wd_store w" using extends_store [OF extract_extends [OF x]] w2 by simp
  with publish_None [OF p] show ?thesis by auto
qed

section \<open>Properties\<close>



text \<open>
  Every object name the read handler asks for has exactly three levels above the results
  file, four with a commit, and no line breaks; but line breaks are removed after the path
  was cleaned, so a level can still become \<open>..\<close>.
\<close>

theorem sanitized_key_shape:
  assumes "sanitize_inputs host org repo commit = Inr k"
  shows "CHR 0x0A \<notin> set k \<and> CHR 0x0D \<notin> set k \<and>
    (\<exists>ps. length ps = levels commit \<and> (\<forall>p \<in> set ps. CHR ''/'' \<notin> set p) \<and> k = join ''/'' (ps @ [''results.json''])) \<and>
    sanitize_inputs ''github.com'' ''ossf'' [CHR ''.'', CHR 0x0A, CHR ''.''] None = Inr ''github.com/ossf/../results.json''"
proof -
  have "sanitize_inputs ''github.com'' ''ossf'' [CHR ''.'', CHR 0x0A, CHR ''.''] None = Inr ''github.com/ossf/../results.json''"
    by code_simp
  with sanitize_shape [OF assms] show ?thesis by blast
qed

theorem sanitized_key_shape_witness:
  "sanitize_inputs ''github.com'' ''ossf'' ''scorecard'' None = Inr ''github.com/ossf/scorecard/results.json'' \<and>
   CHR 0x0A \<notin> set ''github.com/ossf/scorecard/results.json''"
proof -
  have k: "sanitize_inputs ''github.com'' ''ossf'' ''scorecard'' None = Inr ''github.com/ossf/scorecard/results.json''"
    by code_simp
  with sanitized_key_shape [OF k] show ?thesis by blast
qed

end
