(* ===== verification/SwaggerInit.thy ===== *)
theory SwaggerInit
  imports GetResults
begin

text \<open>
  \<open>api/app/generated/restapi/static/swagger-initializer.js\<close>, the one script of the API's
  documentation page that is not a vendored bundle: it starts Swagger UI.  The globals the
  bundles define are parameters.
\<close>

section \<open>Values\<close>

text \<open>
  The JavaScript values the script builds: objects with their properties in order, arrays,
  functions without parameters, and values \<open>'o\<close> that come out of the bundles.
\<close>

datatype 'o js =
    JNull
  | JBool bool
  | JString string
  | JArray "'o js list"
  | JObject "(string \<times> 'o js) list"
  | JFunction "unit \<Rightarrow> 'o js"
  | JHost 'o

fun js_property :: "'o js \<Rightarrow> string \<Rightarrow> 'o js option" where
  "js_property (JObject ps) k = map_of ps k"
| "js_property v k = None"

fun js_call :: "'o js \<Rightarrow> 'o js option" where
  "js_call (JFunction f) = Some (f ())"
| "js_call v = None"

text \<open>
  The globals: \<open>SwaggerUIBundle\<close>, a function with the properties \<open>presets.apis\<close> and
  \<open>plugins.DownloadUrl\<close>, and \<open>SwaggerUIStandalonePreset\<close>; each is missing when its script did
  not load.  Calling the bundle gives the interface object.
\<close>

record 'o ui_bundle =
  bu_call :: "'o js \<Rightarrow> 'o js"
  bu_presets_apis :: "'o js"
  bu_download_url :: "'o js"

record 'o globals =
  gl_bundle :: "'o ui_bundle option"
  gl_standalone_preset :: "'o js option"

record 'o window =
  win_ui :: "'o js option"

section \<open>The script\<close>

definition https_only :: "'o js" where
  "https_only =
     JFunction (\<lambda>_. JObject [(''components'', JObject [(''schemes'', JFunction (\<lambda>_. JNull))])])"

definition ui_config :: "'o ui_bundle \<Rightarrow> 'o js \<Rightarrow> 'o js" where
  "ui_config bnd standalone_preset =
     JObject
       [(''url'', JString ''./swagger.json''),
        (''dom_id'', JString ''#swagger-ui''),
        (''deepLinking'', JBool True),
        (''presets'', JArray [bu_presets_apis bnd, standalone_preset]),
        (''plugins'', JArray [bu_download_url bnd, https_only]),
        (''layout'', JString ''StandaloneLayout'')]"

definition onload :: "'o globals \<Rightarrow> 'o window \<Rightarrow> 'o window outcome" where
  "onload G win =
     (case gl_bundle G of
        None \<Rightarrow> Panic ''ReferenceError: SwaggerUIBundle is not defined''
      | Some bnd \<Rightarrow>
      case gl_standalone_preset G of
        None \<Rightarrow> Panic ''ReferenceError: SwaggerUIStandalonePreset is not defined''
      | Some standalone_preset \<Rightarrow>
          Ret (win\<lparr>win_ui := Some (bu_call bnd (ui_config bnd standalone_preset))\<rparr>))"

section \<open>Properties\<close>

text \<open>The path a relative \<open>./\<close> URL of a page served at \<open>/\<close> names.\<close>

definition page_path :: "string \<Rightarrow> string" where
  "page_path u = ''/'' @ trim_prefix ''./'' u"



end
