(* ===== verification/RepoLists.thy ===== *)
theory RepoLists
  imports GoStrings "HOL-Library.List_Lexorder" "HOL-Library.Char_ord" "HOL-Library.Multiset"
begin

text \<open>
  \<open>cron/data/format.go\<close>, \<open>iterator.go\<close> and \<open>writer.go\<close>: the lists of repositories the
  batch jobs read and write.  The CSV decoder and encoder of \<open>csvutil\<close> are parameters; the
  interface \<open>Iterator\<close> is the locale \<open>repo_iterator\<close>.
\<close>

section \<open>Records\<close>

type_synonym csv_strings = "string list"

definition marshal_csv :: "csv_strings \<Rightarrow> string" where
  "marshal_csv s = join '','' s"

definition unmarshal_csv :: "string \<Rightarrow> csv_strings" where
  "unmarshal_csv input = (if input = [] then [] else split_on CHR '','' input)"

definition to_string :: "csv_strings \<Rightarrow> string list" where
  "to_string s = foldl (\<lambda>ret i. ret @ [i]) [] s"

record repo_format =
  rp_repo :: string
  rp_metadata :: csv_strings

lemma foldl_snoc: "foldl (\<lambda>ret i. ret @ [i]) acc s = acc @ s"
  by (induction s arbitrary: acc) simp_all

lemma to_string_id [simp]: "to_string s = s"
  by (simp add: to_string_def foldl_snoc)

lemma csv_strings_roundtrip:
  assumes "\<forall>x \<in> set s. CHR '','' \<notin> set x" "s \<noteq> [[]]"
  shows "unmarshal_csv (marshal_csv s) = s"
proof (cases s)
  case (Cons y ys)
  then have "join '','' s \<noteq> []" using assms(2) by (cases ys) (auto simp: join_Cons)
  then show ?thesis
    using Cons assms(1) by (simp add: unmarshal_csv_def marshal_csv_def split_on_join)
qed (simp add: unmarshal_csv_def marshal_csv_def)

section \<open>The CSV iterator\<close>

text \<open>
  What the decoder gives, call by call: a record, with its fields as text, or an error
  other than the end; after the last one it gives \<open>io.EOF\<close>.
\<close>

datatype decoded = Decoded repo_format "string list" | DecodeError err "string list"

definition EOF :: err where "EOF = Sentinel ''EOF''"

definition csv_header :: "string list" where "csv_header = [''repo'', ''metadata'']"

record csv_iterator =
  ci_decoder :: "decoded list" \<comment> \<open>what is still to come\<close>
  ci_last :: "string list" \<comment> \<open>\<open>Decoder.Record\<close>\<close>
  ci_err :: "err option"
  ci_next :: repo_format
  ci_after_header :: bool

definition make_iterator_from :: "decoded list \<Rightarrow> csv_iterator" where
  "make_iterator_from ds =
     \<lparr>ci_decoder = ds, ci_last = [], ci_err = None, ci_next = \<lparr>rp_repo = [], rp_metadata = []\<rparr>,
      ci_after_header = False\<rparr>"

definition decode_next :: "csv_iterator \<Rightarrow> csv_iterator" where
  "decode_next it =
     (case ci_decoder it of
        [] \<Rightarrow> it\<lparr>ci_err := Some EOF\<rparr>
      | Decoded r raw # ds \<Rightarrow> it\<lparr>ci_decoder := ds, ci_last := raw, ci_err := None, ci_next := r\<rparr>
      | DecodeError e raw # ds \<Rightarrow> it\<lparr>ci_decoder := ds, ci_last := raw, ci_err := Some e\<rparr>)"

definition is_header :: "csv_iterator \<Rightarrow> bool \<times> csv_iterator" where
  "is_header it =
     (if ci_after_header it then (False, it)
      else (csv_header = ci_last it, it\<lparr>ci_after_header := True\<rparr>))"

definition csv_has_next :: "csv_iterator \<Rightarrow> bool \<times> csv_iterator" where
  "csv_has_next it =
     (let it1 = decode_next it; (h, it2) = is_header it1; it3 = (if h then decode_next it2 else it2)
      in (\<not> (case ci_err it3 of None \<Rightarrow> False | Some e \<Rightarrow> errors_is ''EOF'' e), it3))"

text \<open>\<open>gitlab\<close> and \<open>github\<close> are the errors of \<open>MakeGitlabRepo\<close> and \<open>MakeGithubRepo\<close>.\<close>

record repo_kinds =
  rk_gitlab :: "string \<Rightarrow> err option"
  rk_github :: "string \<Rightarrow> err option"

definition validate_repo :: "repo_kinds \<Rightarrow> string \<Rightarrow> err option" where
  "validate_repo K uri =
     (case rk_gitlab K uri of
        None \<Rightarrow> None
      | Some e \<Rightarrow>
          (case rk_github K uri of
             None \<Rightarrow> None
           | Some e' \<Rightarrow> Some (errorf [L ''invalid URL, neither github nor gitlab: '', W e'])))"

definition csv_next :: "repo_kinds \<Rightarrow> csv_iterator \<Rightarrow> repo_format res \<times> csv_iterator" where
  "csv_next K it =
     (case ci_err it of
        Some e \<Rightarrow> (Inl (errorf [L ''reader has error: '', W e]), it)
      | None \<Rightarrow>
          (case validate_repo K (rp_repo (ci_next it)) of
             Some e \<Rightarrow> (Inl e, it)
           | None \<Rightarrow> (Inr (ci_next it), it)))"

section \<open>Iterators\<close>

text \<open>The methods of an \<open>Iterator\<close> over its state; \<open>Next\<close> may index out of range.\<close>

record 'i iterator =
  it_has_next :: "'i \<Rightarrow> bool \<times> 'i"
  it_next :: "'i \<Rightarrow> (repo_format res \<times> 'i) outcome"

definition csv_methods :: "repo_kinds \<Rightarrow> csv_iterator iterator" where
  "csv_methods K = \<lparr>it_has_next = csv_has_next, it_next = (\<lambda>it. Ret (csv_next K it))\<rparr>"

record 'i nested_iterator =
  ni_iterators :: "'i list"
  ni_current :: nat

definition make_nested_iterator :: "'i list \<Rightarrow> 'i nested_iterator" where
  "make_nested_iterator its = \<lparr>ni_iterators = its, ni_current = 0\<rparr>"

definition put_current :: "'i nested_iterator \<Rightarrow> 'i \<Rightarrow> 'i nested_iterator" where
  "put_current n i = n\<lparr>ni_iterators := (ni_iterators n)[ni_current n := i]\<rparr>"

lemma put_current_sel [simp]:
  "ni_iterators (put_current n i) = (ni_iterators n)[ni_current n := i]"
  "ni_current (put_current n i) = ni_current n"
  by (simp_all add: put_current_def)

function nested_has_next :: "'i iterator \<Rightarrow> 'i nested_iterator \<Rightarrow> bool \<times> 'i nested_iterator" where
  "nested_has_next I n =
     (if ni_current n < length (ni_iterators n) then
        (case it_has_next I (ni_iterators n ! ni_current n) of
           (found, i') \<Rightarrow>
             let n1 = put_current n i'
             in if found then (True, n1) else nested_has_next I (n1\<lparr>ni_current := Suc (ni_current n)\<rparr>))
      else (False, n))"
  by pat_completeness auto
termination
  by (relation "measure (\<lambda>(I, n). length (ni_iterators n) - ni_current n)") auto

declare nested_has_next.simps [simp del]

definition nested_error :: "err \<Rightarrow> err" where
  "nested_error e = errorf [L ''nestedIterator.Next(): '', W e]"

definition nested_next ::
  "'i iterator \<Rightarrow> 'i nested_iterator \<Rightarrow> (repo_format res \<times> 'i nested_iterator) outcome" where
  "nested_next I n =
     (if ni_current n < length (ni_iterators n) then
        (case it_next I (ni_iterators n ! ni_current n) of
           Panic m \<Rightarrow> Panic m
         | Ret (r, i') \<Rightarrow>
             Ret (case r of Inl e \<Rightarrow> Inl (nested_error e) | Inr x \<Rightarrow> Inr x, put_current n i'))
      else Panic ''index out of range'')"

definition nested_methods :: "'i iterator \<Rightarrow> 'i nested_iterator iterator" where
  "nested_methods I = \<lparr>it_has_next = nested_has_next I, it_next = nested_next I\<rparr>"

text \<open>
  The loop \<open>for iter.HasNext() { repo, err := iter.Next() ... }\<close> of every caller.  The body
  goes on with a new state or leaves the loop; nothing bounds the loop but the iterator.
\<close>

datatype ('st, 'x) looped = Finished 'st | ReadError err 'st | Left 'x

partial_function (option) for_each ::
  "'i iterator \<Rightarrow> (repo_format \<Rightarrow> 'st \<Rightarrow> 'x + 'st) \<Rightarrow> 'i \<Rightarrow> 'st \<Rightarrow> ('st, 'x) looped outcome option" where
  "for_each I body s st =
     (case it_has_next I s of
        (found, s1) \<Rightarrow>
          if \<not> found then Some (Ret (Finished st))
          else case it_next I s1 of
              Panic m \<Rightarrow> Some (Panic m)
            | Ret (Inl e, s2) \<Rightarrow> Some (Ret (ReadError e st))
            | Ret (Inr r, s2) \<Rightarrow>
                (case body r st of
                   Inl x \<Rightarrow> Some (Ret (Left x))
                 | Inr st' \<Rightarrow> for_each I body s2 st'))"

text \<open>The same loop over what there is to read.\<close>

fun run_rows :: "(repo_format \<Rightarrow> 'st \<Rightarrow> 'x + 'st) \<Rightarrow> repo_format list \<Rightarrow> err option \<Rightarrow> 'st \<Rightarrow> ('st, 'x) looped" where
  "run_rows body [] e st = (case e of None \<Rightarrow> Finished st | Some e \<Rightarrow> ReadError e st)"
| "run_rows body (r # rs) e st =
     (case body r st of Inl x \<Rightarrow> Left x | Inr st' \<Rightarrow> run_rows body rs e st')"

text \<open>Induction over the rows read so far.\<close>

lemma run_rows_induct:
  assumes "run_rows body rs e st = Finished st'" "P pre st"
    and step: "\<And>pre r s s'. P pre s \<Longrightarrow> body r s = Inr s' \<Longrightarrow> r \<in> set rs \<Longrightarrow> P (pre @ [r]) s'"
  shows "e = None \<and> P (pre @ rs) st'"
  using assms(1,2) step
proof (induction rs arbitrary: pre st)
  case (Cons r rs)
  then obtain s' where "body r st = Inr s'" "run_rows body rs e s' = Finished st'" by (auto split: sum.splits)
  then show ?case using Cons.IH [of s' "pre @ [r]"] Cons.prems(2,3) by simp
qed (simp split: option.splits)

lemma run_rows_total:
  "(\<And>r s. r \<in> set rs \<Longrightarrow> \<exists>s'. body r s = Inr s') \<Longrightarrow>
     \<exists>st'. run_rows body rs e st = (case e of None \<Rightarrow> Finished st' | Some e \<Rightarrow> ReadError e st')"
proof (induction rs arbitrary: st)
  case (Cons r rs)
  from Cons.prems [of r st] obtain s' where "body r st = Inr s'" by auto
  with Cons.IH [of s'] Cons.prems show ?case by auto
qed (auto split: option.splits)

section \<open>The contract of an iterator\<close>

text \<open>
  \<open>content s\<close> is what remains to be read in a state between \<open>Next\<close> and \<open>HasNext\<close>: the
  repositories, and the error that ends them if one does.
\<close>

type_synonym contents = "repo_format list \<times> err option"

definition add_item :: "repo_format \<Rightarrow> contents \<Rightarrow> contents" where
  "add_item r c = (r # fst c, snd c)"

text \<open>One iterator after the other, up to the first that ends with an error.\<close>

fun chain_contents :: "contents list \<Rightarrow> contents" where
  "chain_contents [] = ([], None)"
| "chain_contents (c # cs) =
     (case snd c of
        Some e \<Rightarrow> (fst c, Some (nested_error e))
      | None \<Rightarrow> (fst c @ fst (chain_contents cs), snd (chain_contents cs)))"

definition to_come :: "'i nested_iterator \<Rightarrow> 'i list" where
  "to_come n = drop (ni_current n) (ni_iterators n)"

definition nested_content :: "('i \<Rightarrow> contents) \<Rightarrow> 'i nested_iterator \<Rightarrow> contents" where
  "nested_content content n = chain_contents (map content (to_come n))"

definition nested_weight :: "('i \<Rightarrow> nat) \<Rightarrow> 'i nested_iterator \<Rightarrow> nat" where
  "nested_weight weight n = sum_list (map weight (to_come n))"

definition nested_between :: "('i \<Rightarrow> bool) \<Rightarrow> 'i nested_iterator \<Rightarrow> bool" where
  "nested_between between n \<longleftrightarrow> list_all between (to_come n)"

lemma to_come_Cons:
  "to_come n = i # is \<longleftrightarrow>
     ni_current n < length (ni_iterators n) \<and> i = ni_iterators n ! ni_current n \<and>
     is = drop (Suc (ni_current n)) (ni_iterators n)"
  by (cases "ni_current n < length (ni_iterators n)") (auto simp: to_come_def Cons_nth_drop_Suc [symmetric])

lemma to_come_put: "to_come n = i # is \<Longrightarrow> to_come (put_current n i') = i' # is"
  by (auto simp: to_come_Cons)

lemma to_come_advance:
  "to_come n = i # is \<Longrightarrow> to_come ((put_current n i')\<lparr>ni_current := Suc (ni_current n)\<rparr>) = is"
  by (simp add: to_come_Cons) (simp add: to_come_def)

lemma chain_add_item: "chain_contents (add_item r c # cs) = add_item r (chain_contents (c # cs))"
  by (simp add: add_item_def split: option.split)

locale repo_iterator =
  fixes I :: "'i iterator" and content :: "'i \<Rightarrow> contents" and weight :: "'i \<Rightarrow> nat" and between :: "'i \<Rightarrow> bool"
  assumes finished: "between s \<Longrightarrow> it_has_next I s = (False, s1) \<Longrightarrow> content s = ([], None)"
    and no_panic: "between s \<Longrightarrow> it_has_next I s = (True, s1) \<Longrightarrow> it_next I s1 \<noteq> Panic m"
    and failing: "between s \<Longrightarrow> it_has_next I s = (True, s1) \<Longrightarrow> it_next I s1 = Ret (Inl e, s2) \<Longrightarrow>
      content s = ([], Some e)"
    and item: "between s \<Longrightarrow> it_has_next I s = (True, s1) \<Longrightarrow> it_next I s1 = Ret (Inr r, s2) \<Longrightarrow>
      content s = add_item r (content s2) \<and> weight s2 < weight s \<and> between s2"
begin

lemma for_each_content:
  "between s \<Longrightarrow> for_each I body s st = Some (Ret (run_rows body (fst (content s)) (snd (content s)) st))"
proof (induction "weight s" arbitrary: s st rule: less_induct)
  case less
  obtain found s1 where h: "it_has_next I s = (found, s1)" by fastforce
  show ?case
  proof (cases found)
    case False
    then show ?thesis using h finished [OF less.prems] by (simp add: for_each.simps [of I body s])
  next
    case True
    with h have h: "it_has_next I s = (True, s1)" by simp
    obtain r s2 where n: "it_next I s1 = Ret (r, s2)"
      using no_panic [OF less.prems h] by (cases "it_next I s1") auto
    show ?thesis
    proof (cases r)
      case (Inl e)
      then show ?thesis using h n failing [OF less.prems h] by (simp add: for_each.simps [of I body s])
    next
      case (Inr x)
      with n item [OF less.prems h] have "content s = add_item x (content s2)"
        and w: "weight s2 < weight s" and b: "between s2" by auto
      then show ?thesis
        using h n Inr less.hyps [OF w b]
        by (simp add: for_each.simps [of I body s] add_item_def split: sum.split)
    qed
  qed
qed

text \<open>What a nested iterator does at its current iterator.\<close>

lemma nested_step:
  "to_come n = i # js \<Longrightarrow> it_has_next I i = (found, i1) \<Longrightarrow>
     nested_has_next I n =
       (if found then (True, put_current n i1)
        else nested_has_next I ((put_current n i1)\<lparr>ni_current := Suc (ni_current n)\<rparr>))"
  by (simp add: nested_has_next.simps [of I n] to_come_Cons Let_def)

text \<open>What a nested iterator leaves behind when it has found a repository.\<close>

lemma nested_found:
  assumes "nested_between between n" "nested_has_next I n = (True, n1)"
  obtains i i1 js where "to_come n1 = i1 # js" "between i" "list_all between js"
    "it_has_next I i = (True, i1)" "nested_content content n = chain_contents (map content (i # js))"
    "sum_list (map weight (i # js)) \<le> nested_weight weight n"
proof -
  have "\<exists>i i1 js. to_come n1 = i1 # js \<and> between i \<and> list_all between js \<and> it_has_next I i = (True, i1) \<and>
      nested_content content n = chain_contents (map content (i # js)) \<and>
      sum_list (map weight (i # js)) \<le> nested_weight weight n"
    using assms
  proof (induction "length (to_come n)" arbitrary: n)
    case 0
    then show ?case by (simp add: nested_has_next.simps [of I n] to_come_def split: if_splits)
  next
    case (Suc k)
    then obtain i js where tc: "to_come n = i # js" by (cases "to_come n") auto
    obtain found i1 where h: "it_has_next I i = (found, i1)" by fastforce
    have b: "between i" "list_all between js" using Suc.prems(1) tc by (simp_all add: nested_between_def)
    note step = nested_step [OF tc h]
    show ?case
    proof (cases found)
      case True
      then show ?thesis
        using step Suc.prems(2) to_come_put [OF tc] h b tc
        by (intro exI [of _ i] exI [of _ i1] exI [of _ js]) (simp add: nested_content_def nested_weight_def)
    next
      case False
      let ?m = "(put_current n i1)\<lparr>ni_current := Suc (ni_current n)\<rparr>"
      note t = to_come_advance [OF tc, of i1]
      have c: "content i = ([], None)" using finished [OF b(1)] h False by simp
      have "nested_content content n = nested_content content ?m" "nested_weight weight ?m \<le> nested_weight weight n"
        using tc t c by (simp_all add: nested_content_def nested_weight_def)
      moreover have "nested_has_next I ?m = (True, n1)" using step False Suc.prems(2) by simp
      moreover have "nested_between between ?m" using t b by (simp add: nested_between_def)
      moreover have "k = length (to_come ?m)" using Suc.hyps(2) tc t by simp
      ultimately show ?thesis using Suc.hyps(1) [of ?m] by (smt (verit) le_trans)
    qed
  qed
  then show ?thesis using that by blast
qed

lemma nested_exhausted:
  "nested_between between n \<Longrightarrow> nested_has_next I n = (False, n1) \<Longrightarrow> nested_content content n = ([], None)"
proof (induction "length (to_come n)" arbitrary: n)
  case 0
  then show ?case by (simp add: nested_content_def)
next
  case (Suc k)
  then obtain i js where tc: "to_come n = i # js" by (cases "to_come n") auto
  obtain found i1 where h: "it_has_next I i = (found, i1)" by fastforce
  let ?m = "(put_current n i1)\<lparr>ni_current := Suc (ni_current n)\<rparr>"
  have b: "between i" "list_all between js" using Suc.prems(1) tc by (simp_all add: nested_between_def)
  have found: "\<not> found" and step: "nested_has_next I ?m = (False, n1)"
    using nested_step [OF tc h] Suc.prems(2) by (auto split: if_splits)
  note t = to_come_advance [OF tc, of i1]
  have "content i = ([], None)" using finished [OF b(1)] h found by simp
  then show ?case
    using Suc.hyps(1) [of ?m] Suc.hyps(2) step t b tc by (simp add: nested_content_def nested_between_def)
qed

text \<open>A nested iterator keeps the contract of the iterators it is made of.\<close>

lemma nested_is_iterator:
  "repo_iterator (nested_methods I) (nested_content content) (nested_weight weight) (nested_between between)"
proof unfold_locales
  fix n n1 n2 m e r
  assume b: "nested_between between n"
  show "nested_content content n = ([], None)" if "it_has_next (nested_methods I) n = (False, n1)"
    using nested_exhausted [OF b] that by (simp add: nested_methods_def)
  assume "it_has_next (nested_methods I) n = (True, n1)"
  then have "nested_has_next I n = (True, n1)" by (simp add: nested_methods_def)
  from nested_found [OF b this] obtain i i1 js where f: "to_come n1 = i1 # js" "between i" "list_all between js"
    "it_has_next I i = (True, i1)" "nested_content content n = chain_contents (map content (i # js))"
    "sum_list (map weight (i # js)) \<le> nested_weight weight n" by blast
  obtain x i2 where x: "it_next I i1 = Ret (x, i2)"
    using no_panic [OF f(2,4)] by (cases "it_next I i1") auto
  let ?n2 = "put_current n1 i2"
  note t = to_come_put [OF f(1), of i2]
  have nx: "it_next (nested_methods I) n1 =
      Ret (case x of Inl e \<Rightarrow> Inl (nested_error e) | Inr r \<Rightarrow> Inr r, ?n2)"
    using x f(1) by (simp add: nested_methods_def nested_next_def to_come_Cons)
  show "it_next (nested_methods I) n1 \<noteq> Panic m" using nx by simp
  show "nested_content content n = ([], Some e)" if "it_next (nested_methods I) n1 = Ret (Inl e, n2)"
    using that nx x failing [OF f(2,4)] f(5) by (auto split: sum.splits)
  show "nested_content content n = add_item r (nested_content content n2) \<and>
      nested_weight weight n2 < nested_weight weight n \<and> nested_between between n2"
    if a: "it_next (nested_methods I) n1 = Ret (Inr r, n2)"
  proof -
    have "x = Inr r" and n2: "n2 = ?n2" using a nx by (auto split: sum.splits)
    then have it: "content i = add_item r (content i2)" "weight i2 < weight i" "between i2"
      using item [OF f(2,4)] x by auto
    then have "nested_content content n = add_item r (nested_content content n2)"
      using f(5) t n2 chain_add_item [of r "content i2" "map content js"] by (simp add: nested_content_def)
    moreover have "nested_weight weight n2 < nested_weight weight n"
      using f(6) t n2 it(2) by (simp add: nested_weight_def)
    moreover have "nested_between between n2" using t n2 it(3) f(3) by (simp add: nested_between_def)
    ultimately show ?thesis by simp
  qed
qed

end

section \<open>The iterators of the code satisfy it\<close>

fun decoded_content :: "repo_kinds \<Rightarrow> decoded list \<Rightarrow> contents" where
  "decoded_content K [] = ([], None)"
| "decoded_content K (Decoded r raw # ds) =
     (case validate_repo K (rp_repo r) of
        Some e \<Rightarrow> ([], Some e)
      | None \<Rightarrow> add_item r (decoded_content K ds))"
| "decoded_content K (DecodeError e raw # ds) =
     (if errors_is ''EOF'' e then ([], None) else ([], Some (errorf [L ''reader has error: '', W e])))"

fun raw_of :: "decoded \<Rightarrow> string list" where
  "raw_of (Decoded r raw) = raw"
| "raw_of (DecodeError e raw) = raw"

text \<open>The header, when the first line is one, is left out.\<close>

definition pending :: "csv_iterator \<Rightarrow> decoded list" where
  "pending it =
     (case ci_decoder it of
        d # ds \<Rightarrow> if \<not> ci_after_header it \<and> raw_of d = csv_header then ds else d # ds
      | [] \<Rightarrow> [])"

definition csv_content :: "repo_kinds \<Rightarrow> csv_iterator \<Rightarrow> contents" where
  "csv_content K it = decoded_content K (pending it)"

definition csv_between :: "csv_iterator \<Rightarrow> bool" where
  "csv_between it \<longleftrightarrow> ci_after_header it \<or> ci_last it = []"

text \<open>What \<open>HasNext\<close> leaves behind, by what is pending.\<close>

lemma csv_has_next_pending:
  assumes "csv_between it" "csv_has_next it = (found, it1)"
  shows "ci_after_header it1 \<and>
    (case pending it of
       [] \<Rightarrow> \<not> found
     | Decoded r raw # ds \<Rightarrow> found \<and> ci_err it1 = None \<and> ci_next it1 = r \<and> ci_decoder it1 = ds
     | DecodeError e raw # ds \<Rightarrow> found = (\<not> errors_is ''EOF'' e) \<and> ci_err it1 = Some e \<and> ci_decoder it1 = ds)"
  using assms
  by (auto simp: csv_has_next_def is_header_def decode_next_def pending_def csv_between_def Let_def EOF_def
      csv_header_def split: list.splits decoded.splits if_splits)

lemma length_pending: "length (pending it) \<le> length (ci_decoder it)"
  by (simp add: pending_def split: list.split)

lemma pending_after: "ci_after_header it \<Longrightarrow> pending it = ci_decoder it"
  by (simp add: pending_def split: list.split)

interpretation csv: repo_iterator "csv_methods K" "csv_content K" "\<lambda>it. length (pending it)" csv_between for K
proof unfold_locales
  fix s s1 s2 m e r
  assume b: "csv_between s"
  show "csv_content K s = ([], None)" if "it_has_next (csv_methods K) s = (False, s1)"
    using csv_has_next_pending [OF b, of False s1] that
    by (auto simp: csv_methods_def csv_content_def split: list.splits decoded.splits)
  show "it_next (csv_methods K) s1 \<noteq> Panic m"
    by (simp add: csv_methods_def)
  show "csv_content K s = ([], Some e)"
    if "it_has_next (csv_methods K) s = (True, s1)" "it_next (csv_methods K) s1 = Ret (Inl e, s2)"
    using csv_has_next_pending [OF b, of True s1] that
    by (auto simp: csv_methods_def csv_content_def csv_next_def split: list.splits decoded.splits option.splits)
  show "csv_content K s = add_item r (csv_content K s2) \<and> length (pending s2) < length (pending s) \<and> csv_between s2"
    if "it_has_next (csv_methods K) s = (True, s1)" "it_next (csv_methods K) s1 = Ret (Inr r, s2)"
    using csv_has_next_pending [OF b, of True s1] that pending_after [of s2]
    by (auto simp: csv_methods_def csv_content_def csv_next_def csv_between_def
        split: list.splits decoded.splits option.splits)
qed

interpretation nested: repo_iterator "nested_methods (csv_methods K)" "nested_content (csv_content K)"
    "nested_weight (\<lambda>it. length (pending it))" "nested_between csv_between" for K
  by (rule csv.nested_is_iterator)

section \<open>Reading everything\<close>

definition drop_header :: "decoded list \<Rightarrow> decoded list" where
  "drop_header ds = (case ds of d # ds' \<Rightarrow> if raw_of d = csv_header then ds' else d # ds' | [] \<Rightarrow> [])"

lemma make_iterator_from_start:
  "csv_between (make_iterator_from ds)" "csv_content K (make_iterator_from ds) = decoded_content K (drop_header ds)"
  by (simp_all add: csv_between_def make_iterator_from_def csv_content_def pending_def drop_header_def split: list.split)

lemma nested_start:
  "nested_between csv_between (make_nested_iterator (map make_iterator_from dss))"
  "nested_content (csv_content K) (make_nested_iterator (map make_iterator_from dss)) =
     chain_contents (map (\<lambda>ds. decoded_content K (drop_header ds)) dss)"
  by (simp_all add: nested_between_def nested_content_def make_nested_iterator_def to_come_def list_all_iff
      make_iterator_from_start comp_def)

text \<open>
  C33.  Reading a list of files through a nested iterator ends, whatever the files hold and
  whatever the caller does with a row: without an index out of range it hands the caller the
  rows of the first file, of the second and so on, each without its header, up to the first
  row that does not decode or is not a repository of GitHub or GitLab, where it stops with
  that error.
\<close>

theorem nested_reads_files:
  "for_each (nested_methods (csv_methods K)) body (make_nested_iterator (map make_iterator_from dss)) st =
     Some (Ret (let c = chain_contents (map (\<lambda>ds. decoded_content K (drop_header ds)) dss)
                in run_rows body (fst c) (snd c) st))"
  by (simp add: nested.for_each_content [OF nested_start(1)] nested_start(2) Let_def)

end
