(* ===== verification/RepoWriter.thy ===== *)
theory RepoWriter
  imports RepoLists
begin

text \<open>
  \<open>cron/data/writer.go\<close> and the programs that edit lists of repositories:
  \<open>cron/internal/data/add\<close>, \<open>cron/internal/data/validate\<close> and \<open>cron/internal/shuffle\<close>.
\<close>

section \<open>Writing rows\<close>

text \<open>
  \<open>csvutil.Encoder\<close> over \<open>csv.Writer\<close> is a parameter: what \<open>Encode\<close> reports, what it leaves in
  the buffer of the writer and what it has already made of \<open>out\<close>; \<open>Flush\<close> writes the buffer and
  keeps its error for \<open>csv.Writer.Error\<close>.
\<close>

record 's csv_encoder =
  ce_encode :: "repo_format list \<Rightarrow> 's \<Rightarrow> err option \<times> string \<times> 's"
  ce_flush :: "string \<Rightarrow> 's \<Rightarrow> err option \<times> 's"

definition write_to :: "'s csv_encoder \<Rightarrow> 's \<Rightarrow> repo_format list \<Rightarrow> err option \<times> 's" where
  "write_to E out repos =
     (case ce_encode E repos out of
        (Some e, buffered, out1) \<Rightarrow> (Some (errorf [L ''error during Encode: '', W e]), out1)
      | (None, buffered, out1) \<Rightarrow> (None, snd (ce_flush E buffered out1)))"

definition sort_and_append_to ::
  "'s csv_encoder \<Rightarrow> 's \<Rightarrow> repo_format list \<Rightarrow> repo_format list \<Rightarrow> err option \<times> 's" where
  "sort_and_append_to E out oldRepos newRepos = write_to E out (sort_key rp_repo (oldRepos @ newRepos))"

definition sort_and_append_from ::
  "'s csv_encoder \<Rightarrow> repo_kinds \<Rightarrow> decoded list \<Rightarrow> 's \<Rightarrow> repo_format list \<Rightarrow> (err option \<times> 's) outcome option" where
  "sort_and_append_from E K input out newRepos =
     map_option (\<lambda>r. case r of
         Panic m \<Rightarrow> Panic m
       | Ret (ReadError e oldRepos) \<Rightarrow> Ret (Some (errorf [L ''error during iter.Next: '', W e]), out)
       | Ret (Finished oldRepos) \<Rightarrow> Ret (sort_and_append_to E out oldRepos newRepos)
       | Ret (Left x) \<Rightarrow> Ret (x, out))
       (for_each (csv_methods K) (\<lambda>repo oldRepos. Inr (oldRepos @ [repo])) (make_iterator_from input) [])"

lemma run_rows_snoc:
  "run_rows (\<lambda>r acc. Inr (acc @ [r])) rs e acc =
     (case e of None \<Rightarrow> Finished (acc @ rs) | Some e \<Rightarrow> ReadError e (acc @ rs))"
  by (induction rs arbitrary: acc) (simp_all split: option.split)

lemma csv_for_each:
  "for_each (csv_methods K) body (make_iterator_from ds) st =
     Some (Ret (run_rows body (fst (decoded_content K (drop_header ds))) (snd (decoded_content K (drop_header ds))) st))"
  using csv.for_each_content [OF make_iterator_from_start(1), of K body ds st] by (simp add: make_iterator_from_start(2))

text \<open>
   Appending to a list ends on every input.  If a row of the list cannot be read, its
  error is returned and the output is untouched; otherwise one list of rows is written, which
  is sorted by repository, holds the old and the new rows with their multiplicities, and keeps
  rows of one repository in their order, the old ones first.
\<close>

theorem append_outcomes:
  "\<exists>rows. sorted (map rp_repo rows) \<and>
     mset rows = mset (fst (decoded_content K (drop_header input)) @ newRepos) \<and>
     (\<forall>u. filter (\<lambda>r. rp_repo r = u) rows =
        filter (\<lambda>r. rp_repo r = u) (fst (decoded_content K (drop_header input)) @ newRepos)) \<and>
     sort_and_append_from E K input out newRepos =
       Some (Ret (case snd (decoded_content K (drop_header input)) of
          Some e \<Rightarrow> (Some (errorf [L ''error during iter.Next: '', W e]), out)
        | None \<Rightarrow> write_to E out rows))"
proof (intro exI conjI allI)
  let ?old = "fst (decoded_content K (drop_header input))"
  let ?rows = "sort_key rp_repo (?old @ newRepos)"
  show "sorted (map rp_repo ?rows)" by simp
  show "mset ?rows = mset (?old @ newRepos)" by simp
  show "filter (\<lambda>r. rp_repo r = u) ?rows = filter (\<lambda>r. rp_repo r = u) (?old @ newRepos)" for u
    by (rule sort_key_stable)
  show "sort_and_append_from E K input out newRepos =
       Some (Ret (case snd (decoded_content K (drop_header input)) of
          Some e \<Rightarrow> (Some (errorf [L ''error during iter.Next: '', W e]), out)
        | None \<Rightarrow> write_to E out ?rows))"
    by (simp add: sort_and_append_from_def csv_for_each run_rows_snoc sort_and_append_to_def split: option.split)
qed

section \<open>Adding repositories\<close>

text \<open>
  The two maps of \<open>getRepoURLs\<close>, the first with its keys in the order they came.  \<open>url_parse\<close>
  gives the host and the path of a URL, or the error of \<open>url.Parse\<close>.
\<close>

record add_state =
  as_urls :: "(string \<times> repo_format) list"
  as_seen :: "string \<rightharpoonup> string set"

definition add_metadata :: "string \<Rightarrow> string \<Rightarrow> add_state \<Rightarrow> add_state" where
  "add_metadata mapURL metadata a =
     (let seen = the (as_seen a mapURL)
      in if metadata \<notin> seen \<and> metadata \<noteq> [] then
           a\<lparr>as_urls := map (\<lambda>(u, r). (u, if u = mapURL then r\<lparr>rp_metadata := rp_metadata r @ [metadata]\<rparr> else r)) (as_urls a),
             as_seen := (as_seen a)(mapURL \<mapsto> insert metadata seen)\<rparr>
         else a)"

definition add_repo ::
  "(string \<Rightarrow> (string \<times> string) res) \<Rightarrow> repo_format \<Rightarrow> add_state \<Rightarrow> string + add_state" where
  "add_repo url_parse repo a =
     (case url_parse (to_lower (rp_repo repo)) of
        Inl e \<Rightarrow> Inl (err_text e)
      | Inr (host, path) \<Rightarrow>
          let mapURL = host @ ''/'' @ path
          in Inr (case as_seen a mapURL of
               None \<Rightarrow> a\<lparr>as_urls := as_urls a @ [(mapURL, repo)],
                           as_seen := (as_seen a)(mapURL \<mapsto> set (rp_metadata repo))\<rparr>
             | Some seen \<Rightarrow> fold (add_metadata mapURL) (rp_metadata repo) a))"

text \<open>\<open>order\<close> is the order in which Go ranges over the map.\<close>

definition get_repo_urls ::
  "(string \<Rightarrow> (string \<times> string) res) \<Rightarrow> (repo_format list \<Rightarrow> repo_format list) \<Rightarrow> 'i iterator \<Rightarrow> 'i \<Rightarrow>
   repo_format list res outcome option" where
  "get_repo_urls url_parse order I iter =
     map_option (\<lambda>r. case r of
         Panic m \<Rightarrow> Panic m
       | Ret (ReadError e a) \<Rightarrow> Ret (Inl (errorf [L ''iter.Next: '', W e]))
       | Ret (Left m) \<Rightarrow> Panic m
       | Ret (Finished a) \<Rightarrow> Ret (Inr (order (map snd (as_urls a)))))
       (for_each I (add_repo url_parse) iter \<lparr>as_urls = [], as_seen = Map.empty\<rparr>)"

text \<open>\<open>os.File.Write\<close> at the start of a file that was not truncated.\<close>

definition overwrite :: "string \<Rightarrow> string \<Rightarrow> string" where
  "overwrite old new = new @ drop (length new) old"

text \<open>
  The program, from the opened input (its rows) and output (its content); every error ends it
  with a panic.  The buffer is a \<open>bytes.Buffer\<close>, the state of the encoder a string.
\<close>

definition add_main ::
  "(string \<Rightarrow> (string \<times> string) res) \<Rightarrow> (repo_format list \<Rightarrow> repo_format list) \<Rightarrow> string csv_encoder \<Rightarrow>
   repo_kinds \<Rightarrow> decoded list res \<Rightarrow> string res \<Rightarrow> string outcome option" where
  "add_main url_parse order E K inFile projects =
     (case inFile of
        Inl e \<Rightarrow> Some (Panic (err_text e))
      | Inr ds \<Rightarrow>
          map_option (\<lambda>r. case r of
              Panic m \<Rightarrow> Panic m
            | Ret (Inl e) \<Rightarrow> Panic (err_text e)
            | Ret (Inr repoURLs) \<Rightarrow>
                (case sort_and_append_to E [] repoURLs [] of
                   (Some e, buf) \<Rightarrow> Panic (err_text e)
                 | (None, buf) \<Rightarrow>
                     (case projects of
                        Inl e \<Rightarrow> Panic (err_text e)
                      | Inr old \<Rightarrow> Ret (overwrite old buf))))
            (get_repo_urls url_parse order (csv_methods K) (make_iterator_from ds)))"

definition url_key :: "(string \<Rightarrow> (string \<times> string) res) \<Rightarrow> repo_format \<Rightarrow> string" where
  "url_key url_parse r =
     (case url_parse (to_lower (rp_repo r)) of Inl e \<Rightarrow> [] | Inr (host, path) \<Rightarrow> host @ ''/'' @ path)"

text \<open>The two maps agree.\<close>

definition add_consistent :: "add_state \<Rightarrow> bool" where
  "add_consistent a \<longleftrightarrow> distinct (map fst (as_urls a)) \<and> dom (as_seen a) = fst ` set (as_urls a) \<and>
     (\<forall>(v, r) \<in> set (as_urls a). as_seen a v = Some (set (rp_metadata r)))"

text \<open>\<open>r\<close> is \<open>r0\<close> with more metadata.\<close>

definition enriched :: "string set \<Rightarrow> repo_format \<Rightarrow> repo_format \<Rightarrow> bool" where
  "enriched ms r0 r \<longleftrightarrow> rp_repo r = rp_repo r0 \<and> set (rp_metadata r) = set (rp_metadata r0) \<union> (ms - {[]})"

definition grows :: "string \<Rightarrow> string set \<Rightarrow> add_state \<Rightarrow> add_state \<Rightarrow> bool" where
  "grows u ms a a' \<longleftrightarrow> add_consistent a' \<and> map fst (as_urls a') = map fst (as_urls a) \<and>
     (\<forall>v r. (v, r) \<in> set (as_urls a') \<longrightarrow>
        (\<exists>r0. (v, r0) \<in> set (as_urls a) \<and> enriched (if v = u then ms else {}) r0 r))"

lemma grows_refl: "add_consistent a \<Longrightarrow> ms \<subseteq> {[]} \<Longrightarrow> grows u ms a a"
  by (auto simp: grows_def enriched_def)

lemma enriched_trans: "enriched ms r0 r1 \<Longrightarrow> enriched ns r1 r2 \<Longrightarrow> enriched (ms \<union> ns) r0 r2"
  by (auto simp: enriched_def)

lemma grows_trans:
  assumes "grows u ms a a'" "grows u ns a' a''"
  shows "grows u (ms \<union> ns) a a''"
  unfolding grows_def
proof (intro conjI allI impI)
  fix v r assume "(v, r) \<in> set (as_urls a'')"
  with assms(2) obtain r1 where 1: "(v, r1) \<in> set (as_urls a')" "enriched (if v = u then ns else {}) r1 r"
    unfolding grows_def by blast
  with assms(1) obtain r0 where 0: "(v, r0) \<in> set (as_urls a)" "enriched (if v = u then ms else {}) r0 r1"
    unfolding grows_def by blast
  from enriched_trans [OF 0(2) 1(2)] 0(1)
  show "\<exists>r0. (v, r0) \<in> set (as_urls a) \<and> enriched (if v = u then ms \<union> ns else {}) r0 r"
    by (cases "v = u") auto
qed (use assms in \<open>simp_all add: grows_def\<close>)

lemma add_metadata_grows:
  assumes "add_consistent a" "u \<in> dom (as_seen a)"
  shows "grows u {m} a (add_metadata u m a)"
proof (cases "m \<notin> the (as_seen a u) \<and> m \<noteq> []")
  case True
  let ?f = "\<lambda>(v, r). (v, if v = u then r\<lparr>rp_metadata := rp_metadata r @ [m]\<rparr> else r)"
  let ?a = "add_metadata u m a"
  have seen: "as_seen ?a = (as_seen a)(u \<mapsto> insert m (the (as_seen a u)))"
    and urls: "as_urls ?a = map ?f (as_urls a)"
    using True by (simp_all add: add_metadata_def Let_def)
  have keys: "map fst (as_urls ?a) = map fst (as_urls a)" unfolding urls by (induction "as_urls a") auto
  have mem: "\<exists>r0. (v, r0) \<in> set (as_urls a) \<and> r = (if v = u then r0\<lparr>rp_metadata := rp_metadata r0 @ [m]\<rparr> else r0)"
    if "(v, r) \<in> set (as_urls ?a)" for v r
    using that unfolding urls by auto
  have old: "as_seen a v = Some (set (rp_metadata r))" if "(v, r) \<in> set (as_urls a)" for v r
    using assms(1) that by (auto simp: add_consistent_def)
  have "dom (as_seen ?a) = fst ` set (as_urls ?a)"
    using assms keys unfolding seen by (metis add_consistent_def dom_fun_upd insert_absorb list.set_map option.distinct(1))
  moreover have "as_seen ?a v = Some (set (rp_metadata r))" if i: "(v, r) \<in> set (as_urls ?a)" for v r
    using mem [OF i] old unfolding seen by auto
  ultimately have "add_consistent ?a" using assms(1) keys by (auto simp: add_consistent_def)
  moreover have "enriched (if v = u then {m} else {}) r0 (if v = u then r0\<lparr>rp_metadata := rp_metadata r0 @ [m]\<rparr> else r0)"
    for v r0 using True by (auto simp: enriched_def)
  ultimately show ?thesis using keys mem unfolding grows_def by blast
next
  case False
  then have "add_metadata u m a = a" by (auto simp: add_metadata_def Let_def)
  moreover have "grows u {m} a a"
    unfolding grows_def
  proof (intro conjI allI impI)
    fix v r assume i: "(v, r) \<in> set (as_urls a)"
    then have "as_seen a v = Some (set (rp_metadata r))" using assms(1) by (auto simp: add_consistent_def)
    then have "enriched (if v = u then {m} else {}) r r" using False by (auto simp: enriched_def)
    with i show "\<exists>r0. (v, r0) \<in> set (as_urls a) \<and> enriched (if v = u then {m} else {}) r0 r" by blast
  qed (use assms(1) in simp_all)
  ultimately show ?thesis by simp
qed

lemma grows_dom: "add_consistent a \<Longrightarrow> grows u ms a a' \<Longrightarrow> dom (as_seen a') = dom (as_seen a)"
  unfolding grows_def add_consistent_def by (metis list.set_map)

lemma add_metadata_fold:
  "add_consistent a \<Longrightarrow> u \<in> dom (as_seen a) \<Longrightarrow> grows u (set ms) a (fold (add_metadata u) ms a)"
proof (induction ms arbitrary: a)
  case (Cons m ms)
  note st = add_metadata_grows [OF Cons.prems, of m]
  then have "add_consistent (add_metadata u m a)" by (simp add: grows_def)
  with Cons.IH [of "add_metadata u m a"] grows_dom [OF Cons.prems(1) st] Cons.prems(2)
  have "grows u (set ms) (add_metadata u m a) (fold (add_metadata u) ms (add_metadata u m a))" by simp
  from grows_trans [OF st this] show ?case by simp
qed (simp add: grows_refl)

text \<open>What the first \<open>rows\<close> make of the maps: an entry for each key, from its first row.\<close>

definition merged :: "(repo_format \<Rightarrow> string) \<Rightarrow> repo_format list \<Rightarrow> string \<Rightarrow> repo_format \<Rightarrow> bool" where
  "merged key rows u r \<longleftrightarrow>
     (\<exists>r0. find (\<lambda>x. key x = u) rows = Some r0 \<and>
        enriched (\<Union>x \<in> {x \<in> set rows. key x = u}. set (rp_metadata x)) r0 r)"

definition add_inv :: "(repo_format \<Rightarrow> string) \<Rightarrow> repo_format list \<Rightarrow> add_state \<Rightarrow> bool" where
  "add_inv key rows a \<longleftrightarrow> add_consistent a \<and> fst ` set (as_urls a) = key ` set rows \<and>
     (\<forall>(u, r) \<in> set (as_urls a). merged key rows u r)"

lemma find_snoc: "find P (xs @ [x]) = (case find P xs of Some y \<Rightarrow> Some y | None \<Rightarrow> if P x then Some x else None)"
  by (induction xs) auto

lemma merged_snoc_other: "merged key rows u r \<Longrightarrow> key x \<noteq> u \<Longrightarrow> merged key (rows @ [x]) u r"
proof -
  assume m: "merged key rows u r" and "key x \<noteq> u"
  then have "{y \<in> set (rows @ [x]). key y = u} = {y \<in> set rows. key y = u}" by auto
  with m show ?thesis unfolding merged_def by (auto simp: find_snoc)
qed

lemma merged_snoc_same:
  "merged key rows (key x) r0 \<Longrightarrow> enriched (set (rp_metadata x)) r0 r \<Longrightarrow> merged key (rows @ [x]) (key x) r"
proof -
  assume m: "merged key rows (key x) r0" and e: "enriched (set (rp_metadata x)) r0 r"
  have "{y \<in> set (rows @ [x]). key y = key x} = insert x {y \<in> set rows. key y = key x}" by auto
  then have u: "(\<Union>y \<in> {y \<in> set (rows @ [x]). key y = key x}. set (rp_metadata y)) =
      (\<Union>y \<in> {y \<in> set rows. key y = key x}. set (rp_metadata y)) \<union> set (rp_metadata x)" by auto
  from m obtain y where "find (\<lambda>z. key z = key x) rows = Some y"
    "enriched (\<Union>y \<in> {y \<in> set rows. key y = key x}. set (rp_metadata y)) y r0" unfolding merged_def by blast
  with enriched_trans [OF this(2) e] u show ?thesis unfolding merged_def by (auto simp: find_snoc)
qed

lemma merged_first: "key x \<notin> key ` set rows \<Longrightarrow> merged key (rows @ [x]) (key x) x"
proof -
  assume n: "key x \<notin> key ` set rows"
  then have "find (\<lambda>y. key y = key x) rows = None" by (auto simp: find_None_iff image_iff)
  moreover have "y \<notin> set rows" if "key y = key x" for y using n that by (metis imageI)
  then have "{y \<in> set (rows @ [x]). key y = key x} = {x}" by auto
  ultimately show ?thesis by (auto simp: merged_def find_snoc enriched_def)
qed

lemma add_repo_inv:
  assumes inv: "add_inv (url_key url_parse) rows a" and b: "add_repo url_parse x a = Inr a'"
  shows "add_inv (url_key url_parse) (rows @ [x]) a'"
proof -
  let ?key = "url_key url_parse" let ?u = "?key x"
  obtain host path where p: "url_parse (to_lower (rp_repo x)) = Inr (host, path)"
    using b by (auto simp: add_repo_def split: sum.splits)
  then have u: "?u = host @ ''/'' @ path" by (simp add: url_key_def)
  have con: "add_consistent a" and keys: "fst ` set (as_urls a) = ?key ` set rows"
    and mg: "\<And>v r. (v, r) \<in> set (as_urls a) \<Longrightarrow> merged ?key rows v r"
    using inv by (auto simp: add_inv_def)
  show ?thesis
  proof (cases "as_seen a ?u")
    case None
    then have new: "?u \<notin> fst ` set (as_urls a)" using con unfolding add_consistent_def by auto
    have a': "a' = a\<lparr>as_urls := as_urls a @ [(?u, x)], as_seen := (as_seen a)(?u \<mapsto> set (rp_metadata x))\<rparr>"
      using b p None by (simp add: add_repo_def u Let_def)
    have old: "v \<noteq> ?u" "as_seen a v = Some (set (rp_metadata r))" if "(v, r) \<in> set (as_urls a)" for v r
      using that new con by (force, auto simp: add_consistent_def)
    have "add_consistent a'"
      using con new old unfolding a' add_consistent_def by auto
    moreover have "merged ?key (rows @ [x]) v r" if "(v, r) \<in> set (as_urls a')" for v r
    proof (cases "(v, r) \<in> set (as_urls a)")
      case True
      then have "v \<noteq> ?u" using new by force
      then show ?thesis using merged_snoc_other [OF mg [OF True]] by simp
    next
      case False
      then have "v = ?u" "r = x" using that unfolding a' by auto
      then show ?thesis using merged_first [of ?key x rows] new keys by simp
    qed
    moreover have "fst ` set (as_urls a') = ?key ` set (rows @ [x])" using keys unfolding a' by auto
    ultimately show ?thesis by (auto simp: add_inv_def)
  next
    case (Some seen)
    then have a': "a' = fold (add_metadata ?u) (rp_metadata x) a"
      using b p by (simp add: add_repo_def u Let_def)
    have ud: "?u \<in> dom (as_seen a)" using Some by auto
    have g: "grows ?u (set (rp_metadata x)) a a'" unfolding a' by (rule add_metadata_fold [OF con ud])
    have "merged ?key (rows @ [x]) v r" if i: "(v, r) \<in> set (as_urls a')" for v r
    proof -
      from g i obtain r0 where r0: "(v, r0) \<in> set (as_urls a)"
        "enriched (if v = ?u then set (rp_metadata x) else {}) r0 r" unfolding grows_def by blast
      show ?thesis
      proof (cases "v = ?u")
        case True
        then show ?thesis using merged_snoc_same [of ?key rows x r0 r] mg [OF r0(1)] r0(2) by simp
      next
        case False
        from merged_snoc_other [OF mg [OF r0(1)], of x] False
        have m: "merged ?key (rows @ [x]) v r0" by simp
        show ?thesis using m r0(2) False unfolding merged_def enriched_def by auto
      qed
    qed
    moreover have "fst ` set (as_urls a') = ?key ` set (rows @ [x])"
    proof -
      have "fst ` set (as_urls a') = fst ` set (as_urls a)" using g unfolding grows_def by (metis list.set_map)
      moreover have "?u \<in> fst ` set (as_urls a)" using ud con unfolding add_consistent_def by auto
      ultimately show ?thesis using keys by auto
    qed
    ultimately show ?thesis using g by (auto simp: add_inv_def grows_def)
  qed
qed

lemma add_inv_start: "add_inv key [] \<lparr>as_urls = [], as_seen = Map.empty\<rparr>"
  by (simp add: add_inv_def add_consistent_def)

lemma get_repo_urls_csv:
  assumes read: "decoded_content K (drop_header ds) = (rows, None)"
    and parse: "\<forall>r \<in> set rows. \<exists>hp. url_parse (to_lower (rp_repo r)) = Inr hp"
  shows "\<exists>a. add_inv (url_key url_parse) rows a \<and>
    (\<forall>order. get_repo_urls url_parse order (csv_methods K) (make_iterator_from ds) =
       Some (Ret (Inr (order (map snd (as_urls a))))))"
proof -
  let ?s = "\<lparr>as_urls = [], as_seen = Map.empty\<rparr>"
  have "\<exists>s'. add_repo url_parse r s = Inr s'" if "r \<in> set rows" for r s
    using parse that by (fastforce simp: add_repo_def Let_def)
  from run_rows_total [of rows "add_repo url_parse" None ?s, OF this]
  obtain a where a: "run_rows (add_repo url_parse) rows None ?s = Finished a" by auto
  have "add_inv (url_key url_parse) ([] @ rows) a"
    using run_rows_induct [where P = "add_inv (url_key url_parse)", OF a add_inv_start] add_repo_inv by blast
  moreover have "get_repo_urls url_parse order (csv_methods K) (make_iterator_from ds) =
      Some (Ret (Inr (order (map snd (as_urls a)))))" for order
    by (simp add: get_repo_urls_def csv_for_each read a)
  ultimately show ?thesis by auto
qed

lemma add_inv_key:
  assumes "add_inv key rows a" "(u, r) \<in> set (as_urls a)" "\<And>x y. rp_repo x = rp_repo y \<Longrightarrow> key x = key y"
  shows "key r = u"
proof -
  from assms(1,2) obtain r0 where "find (\<lambda>x. key x = u) rows = Some r0" "rp_repo r = rp_repo r0"
    unfolding add_inv_def merged_def enriched_def by blast
  then show ?thesis using assms(3) [of r r0] by (auto simp: find_Some_iff)
qed

lemma url_key_repo: "rp_repo x = rp_repo y \<Longrightarrow> url_key url_parse x = url_key url_parse y"
  by (simp add: url_key_def)

lemma add_inv_distinct:
  assumes "add_inv (url_key url_parse) rows a"
  shows "map (url_key url_parse) (map snd (as_urls a)) = map fst (as_urls a)"
  using add_inv_key [OF assms _ url_key_repo] by auto

text \<open>
   Adding repositories merges duplicates.  When every row can be read and every URL
  parses, the rows that come out have pairwise different URLs (host and path, compared without
  case), each URL of the input is there once, and a row that comes out is the first input row
  with its URL, with the metadata of all the rows with that URL but the empty string.
\<close>

theorem add_merges_duplicates:
  assumes "decoded_content K (drop_header ds) = (rows, None)"
    and "\<forall>r \<in> set rows. \<exists>hp. url_parse (to_lower (rp_repo r)) = Inr hp"
    and "\<And>xs. mset (order xs) = mset xs"
  shows "\<exists>urls. get_repo_urls url_parse order (csv_methods K) (make_iterator_from ds) = Some (Ret (Inr urls)) \<and>
    distinct (map (url_key url_parse) urls) \<and>
    url_key url_parse ` set urls = url_key url_parse ` set rows \<and>
    (\<forall>r \<in> set urls. \<exists>r0. find (\<lambda>x. url_key url_parse x = url_key url_parse r) rows = Some r0 \<and>
       rp_repo r = rp_repo r0 \<and>
       set (rp_metadata r) = set (rp_metadata r0) \<union>
         ((\<Union>x \<in> {x \<in> set rows. url_key url_parse x = url_key url_parse r}. set (rp_metadata x)) - {[]}))"
proof -
  let ?key = "url_key url_parse"
  from get_repo_urls_csv [OF assms(1,2)] obtain a where inv: "add_inv ?key rows a"
    and g: "get_repo_urls url_parse order (csv_methods K) (make_iterator_from ds) =
      Some (Ret (Inr (order (map snd (as_urls a)))))" by blast
  let ?urls = "order (map snd (as_urls a))"
  have "mset (map ?key ?urls) = mset (map ?key (map snd (as_urls a)))" by (simp only: mset_map assms(3))
  then have ms: "mset (map ?key ?urls) = mset (map fst (as_urls a))" by (simp only: add_inv_distinct [OF inv])
  have "distinct (map ?key ?urls)"
    using ms inv unfolding add_inv_def add_consistent_def by (metis mset_eq_imp_distinct_iff)
  moreover have "?key ` set ?urls = ?key ` set rows"
    using ms inv unfolding add_inv_def by (metis list.set_map set_mset_mset)
  moreover have "\<exists>r0. find (\<lambda>x. ?key x = ?key r) rows = Some r0 \<and> rp_repo r = rp_repo r0 \<and>
       set (rp_metadata r) = set (rp_metadata r0) \<union>
         ((\<Union>x \<in> {x \<in> set rows. ?key x = ?key r}. set (rp_metadata x)) - {[]})" if "r \<in> set ?urls" for r
  proof -
    from that have "r \<in> snd ` set (as_urls a)" using assms(3) by (metis list.set_map set_mset_mset)
    then obtain u where u: "(u, r) \<in> set (as_urls a)" by auto
    have "?key r = u" by (rule add_inv_key [OF inv u url_key_repo])
    moreover have "merged ?key rows u r" using inv u by (auto simp: add_inv_def)
    ultimately show ?thesis unfolding merged_def enriched_def by blast
  qed
  ultimately show ?thesis using g by blast
qed

text \<open>
   The file that is written does not depend on the order in which Go ranges over the map
  of the repositories; but the file is opened without truncating it, so when it was longer
  before, its old tail is still there after the new list.
\<close>

theorem add_output_deterministic:
  assumes "\<And>xs. mset (order xs) = mset xs" "\<And>xs. mset (order' xs) = mset xs"
    and "decoded_content K (drop_header ds) = (rows, None)"
    and "\<forall>r \<in> set rows. \<exists>hp. url_parse (to_lower (rp_repo r)) = Inr hp"
    and "\<And>rs. ce_encode E rs [] = (None, text rs, []) \<and> ce_flush E (text rs) [] = (None, text rs)"
  shows "\<exists>repos. sorted (map rp_repo repos) \<and> distinct (map (url_key url_parse) repos) \<and>
    add_main url_parse order E K (Inr ds) (Inr old) = Some (Ret (text repos @ drop (length (text repos)) old)) \<and>
    add_main url_parse order' E K (Inr ds) (Inr old) = Some (Ret (text repos @ drop (length (text repos)) old))"
proof -
  let ?key = "url_key url_parse"
  from get_repo_urls_csv [OF assms(3,4)] obtain a where inv: "add_inv ?key rows a"
    and g: "\<And>order. get_repo_urls url_parse order (csv_methods K) (make_iterator_from ds) =
      Some (Ret (Inr (order (map snd (as_urls a)))))" by blast
  let ?urls = "map snd (as_urls a)"
  let ?repos = "sort_key rp_repo ?urls"
  have d: "distinct (map ?key ?urls)"
    using inv unfolding add_inv_distinct [OF inv] add_inv_def add_consistent_def by blast
  have inj: "inj_on rp_repo (set ?urls)"
    using d url_key_repo [of _ _ url_parse] unfolding distinct_map inj_on_def by blast
  have same: "sort_key rp_repo (ord ?urls) = ?repos" if "\<And>xs. mset (ord xs) = mset xs" for ord
    using inj that by (intro sort_key_inj_key_eq) (simp_all add: set_mset_mset [symmetric] del: set_mset_mset)
  have "mset (map ?key ?repos) = mset (map ?key ?urls)" by (simp only: mset_map mset_sort)
  then have "distinct (map ?key ?repos)" using d mset_eq_imp_distinct_iff by blast
  moreover have "add_main url_parse ord E K (Inr ds) (Inr old) =
      Some (Ret (text ?repos @ drop (length (text ?repos)) old))" if "\<And>xs. mset (ord xs) = mset xs" for ord
    using assms(5) [of ?repos] same [OF that]
    by (simp add: add_main_def g sort_and_append_to_def write_to_def overwrite_def)
  ultimately show ?thesis using assms(1,2) by (intro exI [of _ ?repos]) simp
qed

text \<open>A header, one repository twice with different capitals, and a second one.\<close>

definition add_rows :: "repo_format list" where
  "add_rows = [\<lparr>rp_repo = ''b.com/x'', rp_metadata = [''m'']\<rparr>, \<lparr>rp_repo = ''B.com/x'', rp_metadata = [[], ''n'']\<rparr>,
     \<lparr>rp_repo = ''a.com/y'', rp_metadata = []\<rparr>]"

definition add_input :: "decoded list" where
  "add_input = Decoded \<lparr>rp_repo = ''repo'', rp_metadata = [''metadata'']\<rparr> csv_header #
     map (\<lambda>r. Decoded r [rp_repo r, marshal_csv (rp_metadata r)]) add_rows"

definition any_repo :: repo_kinds where
  "any_repo = \<lparr>rk_gitlab = (\<lambda>u. None), rk_github = (\<lambda>u. None)\<rparr>"

definition line_encoder :: "string csv_encoder" where
  "line_encoder = \<lparr>ce_encode = (\<lambda>rs out. (None, concat (map (\<lambda>r. rp_repo r @ [CHR 0x0A]) rs), out)),
     ce_flush = (\<lambda>buf out. (None, out @ buf))\<rparr>"

lemma add_input_rows: "decoded_content any_repo (drop_header add_input) = (add_rows, None)"
  by (simp add: add_input_def add_rows_def drop_header_def csv_header_def validate_repo_def any_repo_def add_item_def)

lemma add_merges_duplicates_witness:
  "\<exists>urls. get_repo_urls (\<lambda>u. Inr ([], u)) rev (csv_methods any_repo) (make_iterator_from add_input) =
     Some (Ret (Inr urls)) \<and> distinct (map (url_key (\<lambda>u. Inr ([], u))) urls)"
  using add_merges_duplicates [of any_repo add_input add_rows "\<lambda>u. Inr ([], u)" rev, OF add_input_rows]
  by auto

lemma add_output_deterministic_witness:
  "add_main (\<lambda>u. Inr ([], u)) rev line_encoder any_repo (Inr add_input) (Inr ''old'') =
       add_main (\<lambda>u. Inr ([], u)) (\<lambda>xs. xs) line_encoder any_repo (Inr add_input) (Inr ''old'')"
  using add_output_deterministic [of rev "\<lambda>xs. xs" any_repo add_input add_rows "\<lambda>u. Inr ([], u)" line_encoder
      "\<lambda>rs. concat (map (\<lambda>r. rp_repo r @ [CHR 0x0A]) rs)" "''old''", OF _ _ add_input_rows]
  by (auto simp: line_encoder_def)

section \<open>Validating a list\<close>

definition validate_body :: "repo_format \<Rightarrow> string set \<Rightarrow> string + string set" where
  "validate_body repo m =
     (if rp_repo repo \<in> m then Inl (''Item already in the list '' @ rp_repo repo) else Inr (insert (rp_repo repo) m))"

definition validate_main :: "repo_kinds \<Rightarrow> decoded list res \<Rightarrow> unit outcome option" where
  "validate_main K inFile =
     (case inFile of
        Inl e \<Rightarrow> Some (Panic (err_text e))
      | Inr ds \<Rightarrow>
          map_option (\<lambda>r. case r of
              Panic m \<Rightarrow> Panic m
            | Ret (ReadError e m) \<Rightarrow> Panic (err_text e)
            | Ret (Left msg) \<Rightarrow> Panic msg
            | Ret (Finished m) \<Rightarrow> Ret ())
            (for_each (csv_methods K) validate_body (make_iterator_from ds) {}))"

lemma validate_rows_distinct:
  "distinct (map rp_repo rs) \<Longrightarrow> rp_repo ` set rs \<inter> m = {} \<Longrightarrow>
   \<exists>m'. run_rows validate_body rs e m = (case e of None \<Rightarrow> Finished m' | Some e \<Rightarrow> ReadError e m')"
  by (induction rs arbitrary: m) (auto simp: validate_body_def split: option.split)

lemma validate_rows_repeated:
  "\<not> (distinct (map rp_repo rs) \<and> rp_repo ` set rs \<inter> m = {}) \<Longrightarrow> \<exists>msg. run_rows validate_body rs e m = Left msg"
proof (induction rs arbitrary: m)
  case (Cons r rs)
  show ?case
  proof (cases "rp_repo r \<in> m")
    case False
    then have "\<not> (distinct (map rp_repo rs) \<and> rp_repo ` set rs \<inter> insert (rp_repo r) m = {})"
      using Cons.prems by auto
    from Cons.IH [OF this] False show ?thesis by (simp add: validate_body_def)
  qed (simp add: validate_body_def)
qed simp

text \<open>
   Validation ends on every input, and accepts it exactly when the file can be opened,
  every row of it decodes to a repository of GitHub or GitLab, and no two rows have the same
  text as their repository.
\<close>

theorem validation_accepts:
  "\<exists>r. validate_main K inFile = Some r \<and>
    (r = Ret () \<longleftrightarrow>
      (\<exists>ds rows. inFile = Inr ds \<and> decoded_content K (drop_header ds) = (rows, None) \<and> distinct (map rp_repo rows)))"
proof (cases inFile)
  case (Inr ds)
  obtain rows e where c: "decoded_content K (drop_header ds) = (rows, e)" by fastforce
  show ?thesis
  proof (cases "distinct (map rp_repo rows)")
    case True
    from validate_rows_distinct [of rows "{}" e] this Inr c show ?thesis
      by (cases e) (auto simp: validate_main_def csv_for_each)
  next
    case False
    from validate_rows_repeated [of rows "{}" e] this Inr c show ?thesis
      by (auto simp: validate_main_def csv_for_each)
  qed
qed (simp add: validate_main_def)

section \<open>Shuffling a list\<close>

definition blank_row :: repo_format where "blank_row = \<lparr>rp_repo = [], rp_metadata = []\<rparr>"

text \<open>
  \<open>perm\<close> is \<open>rand.Shuffle\<close>; \<open>spare\<close> is the capacity that \<open>append\<close> left behind the rows, of zero
  values, up to which a slice expression may reach.
\<close>

definition shuffle_main ::
  "int \<Rightarrow> (repo_format list \<Rightarrow> repo_format list) \<Rightarrow> nat \<Rightarrow> 's csv_encoder \<Rightarrow> repo_kinds \<Rightarrow> decoded list \<Rightarrow> 's \<Rightarrow>
   's outcome option" where
  "shuffle_main n perm spare E K inFile outFile =
     map_option (\<lambda>r. case r of
         Panic m \<Rightarrow> Panic m
       | Ret (ReadError e repoURLs) \<Rightarrow> Panic (err_text e)
       | Ret (Left m) \<Rightarrow> Panic m
       | Ret (Finished repoURLs) \<Rightarrow>
           if n < 0 \<or> int (length repoURLs + spare) < n then Panic ''slice bounds out of range''
           else (case write_to E outFile (take (nat n) (perm repoURLs @ replicate spare blank_row)) of
               (Some e, out) \<Rightarrow> Panic (err_text e)
             | (None, out) \<Rightarrow> Ret out))
       (for_each (csv_methods K) (\<lambda>repo repoURLs. Inr (repoURLs @ [repo])) (make_iterator_from inFile) [])"

text \<open>
   Asked for more repositories than the list has, the shuffle fails only beyond the
  capacity of its slice: up to it, rows that name no repository are written after the
  shuffled ones.
\<close>

theorem shuffle_writes_blank_rows:
  assumes "decoded_content K (drop_header ds) = (rows, None)"
    and "length (perm rows) = length rows"
    and "int (length rows) < n" "n \<le> int (length rows + spare)"
  shows "shuffle_main n perm spare E K ds out =
    Some (case write_to E out (perm rows @ replicate (nat n - length rows) blank_row) of
       (Some e, out) \<Rightarrow> Panic (err_text e) | (None, out) \<Rightarrow> Ret out)"
proof -
  have "take (nat n) (perm rows @ replicate spare blank_row) = perm rows @ replicate (nat n - length rows) blank_row"
    using assms(2-4) by (simp add: nat_le_iff)
  then show ?thesis using assms by (simp add: shuffle_main_def csv_for_each run_rows_snoc)
qed

lemma shuffle_writes_blank_rows_witness:
  "shuffle_main 4 rev 1 line_encoder any_repo add_input [] =
     Some (Ret ''a.com/y\<newline>B.com/x\<newline>b.com/x\<newline>\<newline>'')"
  using shuffle_writes_blank_rows [of any_repo add_input add_rows rev 4 1 line_encoder "[]", OF add_input_rows]
  by (simp add: add_rows_def write_to_def line_encoder_def blank_row_def numeral_2_eq_2)

end
