(* ===== verification/BlobNames.thy ===== *)
theory BlobNames
  imports GoTime "HOL-Library.Product_Lexorder"
begin

text \<open>
  The naming functions of \<open>cron/data/blob.go\<close>: the key of an object of a batch job is the
  job's time in a fixed layout and a file name.  A UTC \<open>time.Time\<close> is given by its calendar
  fields (\<open>civil\<close>).
\<close>

section \<open>Names\<close>

definition ShardMetadataFilename :: string where "ShardMetadataFilename = ''.shard_metadata''"
definition ShardNumFilename :: string where "ShardNumFilename = ''.shard_num''"
definition TransferStatusFilename :: string where "TransferStatusFilename = ''.transfer_complete''"

definition errShortBlobName :: err where
  "errShortBlobName = Sentinel ''input key length is shorter than expected''"
definition errParseBlobName :: err where
  "errParseBlobName = Sentinel ''error parsing input blob name''"

definition filePrefixFormat :: string where "filePrefixFormat = ''2006.01.02/150405/''"

text \<open>\<open>t.Format(filePrefixFormat)\<close>.\<close>

definition format_prefix :: "civil \<Rightarrow> string" where
  "format_prefix t =
     fmt_year t @ ''.'' @ two (month t) @ ''.'' @ two (day t) @ ''/'' @
     two (hour t) @ two (minute t) @ two (second t) @ ''/''"

definition get_blob_filename :: "string \<Rightarrow> civil \<Rightarrow> string" where
  "get_blob_filename filename t = format_prefix t @ filename"

definition get_shard_num_filename :: "civil \<Rightarrow> string" where
  "get_shard_num_filename t = get_blob_filename ShardNumFilename t"

definition get_transfer_status_filename :: "civil \<Rightarrow> string" where
  "get_transfer_status_filename t = get_blob_filename TransferStatusFilename t"

definition get_shard_metadata_filename :: "civil \<Rightarrow> string" where
  "get_shard_metadata_filename t = get_blob_filename ShardMetadataFilename t"

text \<open>\<open>time.Parse(filePrefixFormat, s)\<close>; a fraction may follow the seconds of any layout.\<close>

definition parse_prefix :: "string \<Rightarrow> civil option" where
  "parse_prefix s =
     (case scan_ymd ''.'' s of None \<Rightarrow> None | Some ((y, m, d), s1) \<Rightarrow>
      case scan_lit ''/'' s1 of None \<Rightarrow> None | Some s2 \<Rightarrow>
      case scan_hour s2 of None \<Rightarrow> None | Some (h, s3) \<Rightarrow>
      case scan_digits 2 s3 of None \<Rightarrow> None | Some (mi, s4) \<Rightarrow>
      case scan_digits 2 s4 of None \<Rightarrow> None | Some (sec, s5) \<Rightarrow>
      case scan_fraction s5 of (ns, s6) \<Rightarrow>
      case scan_lit ''/'' s6 of None \<Rightarrow> None | Some s7 \<Rightarrow>
        if h < 24 \<and> mi < 60 \<and> sec < 60 \<and> s7 = [] then
          Some \<lparr>year = y, month = m, day = d, hour = h, minute = mi, second = sec, nanos = ns\<rparr>
        else None)"

text \<open>The error of \<open>time.Parse\<close>, without the part of its text that names the offending element.\<close>

definition time_parse_error :: "string \<Rightarrow> string \<Rightarrow> err" where
  "time_parse_error layout val =
     Typed ''*time.ParseError'' (''parsing time '' @ quote val @ '' as '' @ quote layout) []"

definition parse_blob_filename :: "string \<Rightarrow> (civil \<times> string) res" where
  "parse_blob_filename k =
     (if length k < length filePrefixFormat then Inl (errorf [W errShortBlobName, L '': '', L k])
      else
        let p = take (length filePrefixFormat) k; object_name = drop (length filePrefixFormat) k
        in case parse_prefix p of
             None \<Rightarrow> Inl (errorf [W errParseBlobName, L '': '', W (time_parse_error filePrefixFormat p)])
           | Some t \<Rightarrow> Inr (t, object_name))"

section \<open>Lemmas\<close>

definition job_time :: "civil \<Rightarrow> bool" where
  "job_time t \<longleftrightarrow> valid_civil t \<and> nanos t = 0"

lemma job_time_bounds:
  assumes "job_time t"
  shows "year t < 10000" "month t < 100" "day t < 100" "hour t < 100" "minute t < 100" "second t < 100"
  using assms days_in_le [of "month t" "year t"] by (auto simp: job_time_def valid_civil_def)

lemma length_prefix [simp]: "job_time t \<Longrightarrow> length (format_prefix t) = 18"
  using job_time_bounds [of t] by (simp add: format_prefix_def)

lemma length_layout [simp]: "length filePrefixFormat = 18"
  by (simp add: filePrefixFormat_def)

lemma scan_hour_two [simp]: "n < 100 \<Longrightarrow> scan_hour (two n @ s) = Some (n, s)"
  by (simp add: scan_hour_def)

lemma scan_fraction_slash [simp]: "scan_fraction (CHR ''/'' # s) = (0, CHR ''/'' # s)"
  by (simp add: scan_fraction_def)

lemma parse_format_prefix:
  assumes "job_time t"
  shows "parse_prefix (format_prefix t) = Some t"
proof -
  have "scan_ymd ''.'' (format_prefix t) =
      Some ((year t, month t, day t), ''/'' @ two (hour t) @ two (minute t) @ two (second t) @ ''/'')"
    using assms scan_ymd_format [of t "CHR ''.''"] by (simp add: format_prefix_def job_time_def)
  then show ?thesis
    using assms job_time_bounds [OF assms]
    by (cases t) (simp add: parse_prefix_def job_time_def valid_civil_def)
qed

lemma parse_blob_filename_get:
  "job_time t \<Longrightarrow> parse_blob_filename (get_blob_filename f t) = Inr (t, f)"
  by (simp add: parse_blob_filename_def get_blob_filename_def parse_format_prefix)


section \<open>Names sort by time\<close>

text \<open>The calendar: the first days of successive months are as far apart as the month is long.\<close>

lemma days_of_month: "days_from_civil y m d = days_from_civil y m 1 + int d - 1"
  by (simp add: days_from_civil_def Let_def)

lemma div_succ: "(x + 1) div n = x div n + (if (x + 1) mod n = 0 then 1 else 0)" if "0 < n" for x n :: int
proof (cases "(x + 1) mod n = 0")
  case True
  then obtain k where k: "x + 1 = n * k" by blast
  then have "x div n = k - 1"
    using that by (intro int_div_pos_eq [of _ _ _ "n - 1"]) (auto simp: algebra_simps)
  then show ?thesis using True k that by simp
next
  case False
  let ?q = "x div n" and ?r = "x mod n"
  have r: "0 \<le> ?r" "?r < n" using that by simp_all
  have "?r + 1 \<noteq> n"
  proof
    assume "?r + 1 = n"
    moreover have "x = n * ?q + ?r" by simp
    ultimately have "x + 1 = n * ?q + n" by linarith
    then have "x + 1 = n * (?q + 1)" by (simp add: algebra_simps)
    with False show False by simp
  qed
  then have "(x + 1) div n = ?q"
    using r mult_div_mod_eq [of n x] by (intro int_div_pos_eq [of _ _ _ "?r + 1"]) (auto simp: algebra_simps)
  with False show ?thesis by simp
qed

definition year_base :: "int \<Rightarrow> int" where
  "year_base y = (y div 400) * 146097 + (y mod 400 * 365 + y mod 400 div 4 - y mod 400 div 100) - 719468"

lemma days_base:
  "days_from_civil y m d =
     year_base (int y - (if m \<le> 2 then 1 else 0)) + (153 * ((int m + 9) mod 12) + 2) div 5 + int d - 1"
  by (simp add: days_from_civil_def year_base_def Let_def)

lemma int_mod_zero: "int y mod int k = 0 \<longleftrightarrow> y mod k = 0"
  by (metis of_nat_0_eq_iff of_nat_mod)

lemma leap_int:
  "leap_year y \<longleftrightarrow> int y mod 4 = 0 \<and> (int y mod 100 \<noteq> 0 \<or> int y mod 400 = 0)"
  using int_mod_zero [of y 4] int_mod_zero [of y 100] int_mod_zero [of y 400]
  by (simp add: leap_year_def)

lemma mod_within:
  fixes x n :: int
  assumes "n dvd 400"
  shows "(x mod 400 + 1) mod n = (x + 1) mod n"
  using assms by (metis mod_add_left_eq mod_mod_cancel)

lemma year_arith:
  fixes r c q :: int
  assumes "d4 = a + (if p then 1 else 0)" "d100 = b + (if h then 1 else 0)" "h \<Longrightarrow> p" "\<not> f"
  shows "q * 146097 + ((r + 1) * 365 + d4 - d100) - c =
    q * 146097 + (r * 365 + a - b) - c + (if p \<and> (\<not> h \<or> f) then 366 else 365)"
  using assms by (auto simp: algebra_simps)

lemma year_base_next:
  "year_base (int y) = year_base (int y - 1) + (if leap_year y then 366 else 365)"
proof -
  define x :: int where "x = int y - 1"
  have y: "int y = x + 1" by (simp add: x_def)
  let ?r = "x mod 400"
  have m4: "(?r + 1) mod 4 = (x + 1) mod 4" and m100: "(?r + 1) mod 100 = (x + 1) mod 100"
    by (rule mod_within, simp)+
  have r: "0 \<le> ?r" "?r < 400" by simp_all
  show ?thesis
  proof (cases "(x + 1) mod 400 = 0")
    case True
    then have "(?r + 1) mod 400 = 0" by (simp add: mod_simps)
    then have "?r = 399" using r by (cases "?r + 1 = 400") (simp_all add: mod_pos_pos_trivial)
    moreover have "(x + 1) mod 4 = 0" using m4 \<open>?r = 399\<close> by simp
    moreover have "(x + 1) div 400 = x div 400 + 1" using div_succ [of 400 x] True by simp
    ultimately show ?thesis using True by (simp add: year_base_def leap_int y)
  next
    case False
    have "(?r + 1) mod 400 \<noteq> 0" using False by (simp add: mod_simps)
    then have "?r + 1 \<noteq> 400" by auto
    then have "?r + 1 < 400" using r by simp
    then have e: "(x + 1) mod 400 = ?r + 1" using r
      by (metis mod_add_left_eq mod_pos_pos_trivial add_nonneg_nonneg zero_le_one)
    have d: "(x + 1) div 400 = x div 400" using div_succ [of 400 x] False by simp
    have s4: "(?r + 1) div 4 = ?r div 4 + (if (x + 1) mod 4 = 0 then 1 else 0)"
      and s100: "(?r + 1) div 100 = ?r div 100 + (if (x + 1) mod 100 = 0 then 1 else 0)"
      using div_succ [of 4 ?r] div_succ [of 100 ?r] m4 m100 by simp_all
    have h: "(x + 1) mod 4 = 0" if "(x + 1) mod 100 = 0"
    proof -
      have "(100 :: int) dvd x + 1" using that by (simp add: dvd_eq_mod_eq_0)
      then have "(4 :: int) dvd x + 1" by (rule dvd_trans [rotated]) simp
      then show ?thesis by (simp add: dvd_eq_mod_eq_0)
    qed
    have f: "?r + 1 \<noteq> 0" using r by linarith
    show ?thesis
      unfolding x_def [symmetric] unfolding y year_base_def leap_int e d
      by (rule year_arith [OF s4 s100 h f])
  qed
qed

lemma month_next:
  assumes "1 \<le> m" "m < 12"
  shows "days_from_civil y (Suc m) 1 = days_from_civil y m 1 + int (days_in m y)"
proof -
  from assms have "m = 1 \<or> m = 2 \<or> m = 3 \<or> m = 4 \<or> m = 5 \<or> m = 6 \<or> m = 7 \<or> m = 8 \<or> m = 9 \<or> m = 10 \<or> m = 11"
    by arith
  then show ?thesis
    unfolding days_base days_in_def using year_base_next [of y]
    by (elim disjE) simp_all
qed

lemma year_next: "days_from_civil (Suc y) 1 1 = days_from_civil y 12 1 + int (days_in 12 y)"
  by (simp add: days_base days_in_def)

text \<open>The first day of the month that comes \<open>k\<close> months after January of the year 0.\<close>

definition month_start :: "nat \<Rightarrow> int" where
  "month_start k = days_from_civil (k div 12) (k mod 12 + 1) 1"

lemma month_start_Suc:
  "month_start (Suc k) = month_start k + int (days_in (k mod 12 + 1) (k div 12))"
proof (cases "k mod 12 = 11")
  case True
  then have "Suc k mod 12 = 0" "Suc k div 12 = Suc (k div 12)" by (simp_all add: mod_Suc div_Suc)
  then show ?thesis using True year_next [of "k div 12"] by (simp add: month_start_def)
next
  case False
  moreover have "k mod 12 < 12" by simp
  ultimately have "k mod 12 + 1 < 12" "Suc k mod 12 = k mod 12 + 1" "Suc k div 12 = k div 12"
    by (simp_all add: mod_Suc div_Suc)
  then show ?thesis using month_next [of "k mod 12 + 1" "k div 12"] by (simp add: month_start_def)
qed

lemma month_start_less:
  "k < l \<Longrightarrow> month_start k + int (days_in (k mod 12 + 1) (k div 12)) \<le> month_start l"
proof (induction l)
  case (Suc l)
  then show ?case
    by (cases "k = l") (auto simp: month_start_Suc)
qed simp

lemma month_index:
  assumes "1 \<le> m" "m \<le> 12"
  shows "(12 * y + (m - 1)) div 12 = y" "(12 * y + (m - 1)) mod 12 + 1 = (m :: nat)"
proof -
  obtain j where "m = Suc j" "j < 12" using assms by (cases m) auto
  then show "(12 * y + (m - 1)) div 12 = y" "(12 * y + (m - 1)) mod 12 + 1 = m" by simp_all
qed

lemma days_less:
  assumes "valid_civil a" "valid_civil b" "(year a, month a, day a) < (year b, month b, day b)"
  shows "days_from_civil (year a) (month a) (day a) < days_from_civil (year b) (month b) (day b)"
proof -
  define k where "k = 12 * year a + (month a - 1)"
  define l where "l = 12 * year b + (month b - 1)"
  have k: "k div 12 = year a" "k mod 12 + 1 = month a" and l: "l div 12 = year b" "l mod 12 + 1 = month b"
    using assms(1,2) month_index by (auto simp: k_def l_def valid_civil_def)
  note a = days_of_month [of "year a" "month a" "day a"] and b = days_of_month [of "year b" "month b" "day b"]
  show ?thesis
  proof (cases "k = l")
    case True
    then have "year a = year b" "month a = month b" using k l by auto
    with assms(3) a b show ?thesis by (simp add: less_prod_simp)
  next
    case False
    with assms have "k < l" by (auto simp: k_def l_def less_prod_simp valid_civil_def)
    then show ?thesis
      using month_start_less [of k l] a b k l assms(1,2)
      by (simp add: month_start_def valid_civil_def)
  qed
qed

abbreviation clock :: "civil \<Rightarrow> nat \<times> nat \<times> nat \<times> nat \<times> nat \<times> nat" where
  "clock t \<equiv> (year t, month t, day t, hour t, minute t, second t)"

lemma instant_less:
  assumes "job_time a" "job_time b" "clock a < clock b"
  shows "instant_of a < instant_of b"
proof -
  let ?D = "\<lambda>t. days_from_civil (year t) (month t) (day t)"
  let ?S = "\<lambda>t. int (hour t) * 3600 + int (minute t) * 60 + int (second t)"
  have v: "valid_civil a" "valid_civil b" and ns: "nanos a = 0" "nanos b = 0"
    using assms(1,2) by (auto simp: job_time_def)
  have s: "0 \<le> ?S t \<and> ?S t < 86400" if "valid_civil t" for t
    using that by (auto simp: valid_civil_def)
  have "?D a * 86400 + ?S a < ?D b * 86400 + ?S b"
  proof (cases "(year a, month a, day a) = (year b, month b, day b)")
    case True
    then have "(hour a, minute a, second a) < (hour b, minute b, second b)"
      using assms(3) by (auto simp: less_prod_simp)
    then have "?S a < ?S b" using v by (auto simp: less_prod_simp valid_civil_def)
    with True show ?thesis by simp
  next
    case False
    then have "(year a, month a, day a) < (year b, month b, day b)"
      using assms(3) by (auto simp: less_prod_simp)
    from days_less [OF v this] show ?thesis using s [OF v(1)] s [OF v(2)] by linarith
  qed
  then show ?thesis by (simp add: instant_of_def ns second_ns_def)
qed

lemma clock_inject: "job_time a \<Longrightarrow> job_time b \<Longrightarrow> clock a = clock b \<Longrightarrow> a = b"
  by (cases a; cases b) (simp add: job_time_def)

lemma instant_less_iff:
  assumes "job_time a" "job_time b"
  shows "instant_of a < instant_of b \<longleftrightarrow> clock a < clock b"
proof -
  consider "clock a < clock b" | "clock b < clock a" | "clock a = clock b" by (rule linorder_cases)
  then show ?thesis
  proof cases
    case 1 then show ?thesis using instant_less [OF assms] by blast
  next
    case 2 then show ?thesis using instant_less [OF assms(2,1)] by (meson order_less_asym)
  next
    case 3 then show ?thesis using clock_inject [OF assms] by auto
  qed
qed

lemma instant_of_inject:
  assumes "job_time a" "job_time b" "instant_of a = instant_of b"
  shows "a = b"
proof -
  have "\<not> clock a < clock b" "\<not> clock b < clock a"
    using instant_less_iff assms by (metis order_less_irrefl)+
  then have "clock a = clock b" by (meson linorder_neqE)
  then show ?thesis by (rule clock_inject [OF assms(1,2)])
qed

lemma fmt_year_less_iff:
  "job_time a \<Longrightarrow> job_time b \<Longrightarrow> fmt_year a < fmt_year b \<longleftrightarrow> year a < year b"
  using job_time_bounds(1) by (subst digits_less_iff) auto

lemma lex_less: "(a, b) < (c, d) \<longleftrightarrow> a < c \<or> a = c \<and> b < d" for a c :: nat
  by (auto simp: less_prod_simp)

lemma prefix_less_iff:
  assumes "job_time a" "job_time b"
  shows "format_prefix a < format_prefix b \<longleftrightarrow> clock a < clock b"
proof -
  have y: "fmt_year a = fmt_year b \<longleftrightarrow> year a = year b" by (metis dec_val_fmt_year fmt_year_def)
  show ?thesis
    unfolding format_prefix_def
    using job_time_bounds [OF assms(1)] job_time_bounds [OF assms(2)] y fmt_year_less_iff [OF assms]
    by (simp add: append_less_iff two_less_iff lex_less del: append.simps(2) less_prod_simp)
qed

section \<open>Every name that parses was formatted\<close>

lemma dec_val_less: "list_all is_digit ds \<Longrightarrow> dec_val ds < 10 ^ length ds"
proof (induction ds rule: rev_induct)
  case (snoc d ds)
  then have "48 \<le> ord d" "ord d \<le> 57" by (simp_all add: is_digit_def)
  then have "digit_val d < 10" unfolding digit_val_def by linarith
  with snoc show ?case by (simp add: dec_val_snoc)
qed (simp add: dec_val_def)

lemma pad0_dec_val:
  assumes "list_all is_digit ds" "length ds = k" "0 < k"
  shows "pad0 k (itoa_nat (dec_val ds)) = ds"
proof -
  let ?es = "pad0 k (itoa_nat (dec_val ds))"
  have "length ?es = k" using dec_val_less [OF assms(1)] assms by (simp add: length_pad0)
  moreover have "list_all is_digit ?es" by (simp add: pad0_digits itoa_nat_digits)
  ultimately have "\<not> ?es < ds" "\<not> ds < ?es"
    using assms digits_less_iff [of ?es ds] digits_less_iff [of ds ?es] by auto
  then show ?thesis by (meson linorder_neqE)
qed

lemma scan_digits_Some:
  assumes "scan_digits k s = Some (n, r)" "0 < k"
  shows "s = pad0 k (itoa_nat n) @ r"
proof -
  from assms have "k \<le> length s" "list_all is_digit (take k s)" "n = dec_val (take k s)" "r = drop k s"
    by (auto simp: scan_digits_def split: if_splits)
  then show ?thesis using pad0_dec_val [of "take k s" k] assms(2) by simp
qed

lemma scan_digits_less: "scan_digits k s = Some (n, r) \<Longrightarrow> n < 10 ^ k"
  using dec_val_less [of "take k s"] by (auto simp: scan_digits_def split: if_splits)

lemma scan_lit_Some: "scan_lit p s = Some r \<Longrightarrow> s = p @ r"
  by (auto simp: scan_lit_def prefix_def split: if_splits)

lemma parse_prefix_Some:
  assumes "parse_prefix s = Some t" "length s = 18"
  shows "job_time t \<and> format_prefix t = s"
proof -
  from assms(1) obtain y m d s1 s2 h s3 mi s4 sec s5 ns s6 where
    1: "scan_ymd ''.'' s = Some ((y, m, d), s1)" and 2: "scan_lit ''/'' s1 = Some s2"
    and 3: "scan_hour s2 = Some (h, s3)" and 4: "scan_digits 2 s3 = Some (mi, s4)"
    and 5: "scan_digits 2 s4 = Some (sec, s5)" and 6: "scan_fraction s5 = (ns, s6)"
    and 7: "scan_lit ''/'' s6 = Some []"
    and t: "t = \<lparr>year = y, month = m, day = d, hour = h, minute = mi, second = sec, nanos = ns\<rparr>"
    and lims: "h < 24" "mi < 60" "sec < 60"
    unfolding parse_prefix_def by (auto split: option.splits prod.splits if_splits)
  from 1 have ymd: "s = pad0 4 (itoa_nat y) @ ''.'' @ two m @ ''.'' @ two d @ s1"
    and v: "1 \<le> m" "m \<le> 12" "1 \<le> d" "d \<le> days_in m y" and y4: "y < 10000"
  proof -
    from 1 obtain a1 a2 a3 a4 where
      a: "scan_digits 4 s = Some (y, a1)" "scan_lit ''.'' a1 = Some a2" "scan_digits 2 a2 = Some (m, a3)"
        "scan_lit ''.'' a3 = Some a4" "scan_digits 2 a4 = Some (d, s1)"
      and b: "1 \<le> m" "m \<le> 12" "1 \<le> d" "d \<le> days_in m y"
      unfolding scan_ymd_def by (auto split: option.splits prod.splits if_splits)
    show "1 \<le> m" "m \<le> 12" "1 \<le> d" "d \<le> days_in m y" by (fact b)+
    show "y < 10000" using scan_digits_less [OF a(1)] by simp
    show "s = pad0 4 (itoa_nat y) @ ''.'' @ two m @ ''.'' @ two d @ s1"
      using scan_digits_Some [OF a(1)] scan_lit_Some [OF a(2)] scan_digits_Some [OF a(3)]
        scan_lit_Some [OF a(4)] scan_digits_Some [OF a(5)] by (simp add: two_def)
  qed
  have mi: "s3 = two mi @ s4" and sec: "s4 = two sec @ s5"
    using scan_digits_Some [OF 4] scan_digits_Some [OF 5] by (simp_all add: two_def)
  have h: "s2 = two h @ s3"
  proof (cases "scan_digits 2 s2")
    case None
    with 3 have "scan_digits 1 s2 = Some (h, s3)" by (simp add: scan_hour_def)
    then have "list_all is_digit (take 1 s2)" "s3 = drop 1 s2" "1 \<le> length s2"
      by (auto simp: scan_digits_def split: if_splits)
    then obtain c where c: "s2 = c # s3" "is_digit c" by (cases s2) auto
    moreover obtain e es where "two mi = e # es" "is_digit e"
      using digits_two [of mi] length_two [of mi] lims(2) by (cases "two mi") auto
    ultimately have "scan_digits 2 s2 \<noteq> None"
      using mi by (simp add: scan_digits_def numeral_2_eq_2)
    with None show ?thesis by simp
  next
    case (Some x)
    with 3 show ?thesis using scan_digits_Some [of 2 s2 h s3] by (simp add: scan_hour_def two_def)
  qed
  have s: "s = pad0 4 (itoa_nat y) @ ''.'' @ two m @ ''.'' @ two d @ ''/'' @ two h @ two mi @ two sec @ s5"
    using ymd scan_lit_Some [OF 2] h mi sec by simp
  have len: "m < 100" "d < 100" using v days_in_le [of m y] by auto
  have "length s = 17 + length s5"
    unfolding s using length_pad0 [of 4 y] y4 len lims by simp
  then obtain c where "s5 = [c]" using assms(2) by (cases s5) auto
  with 6 have "ns = 0" "s6 = s5" by (auto simp: scan_fraction_def Let_def split: if_splits)
  then have "s5 = ''/''" using scan_lit_Some [OF 7] by simp
  then show ?thesis
    using s v y4 lims \<open>ns = 0\<close> by (simp add: t job_time_def valid_civil_def format_prefix_def fmt_year_def)
qed

lemma parse_blob_filename_Inr:
  assumes "parse_blob_filename k = Inr (t, f)"
  shows "job_time t \<and> k = get_blob_filename f t"
proof -
  from assms have "parse_prefix (take 18 k) = Some t" "f = drop 18 k" "18 \<le> length k"
    by (auto simp: parse_blob_filename_def Let_def split: if_splits option.splits)
  with parse_prefix_Some [of "take 18 k" t] show ?thesis
    by (auto simp: get_blob_filename_def)
qed

section \<open>Properties\<close>

text \<open>
  \<open>GetBlobFilename\<close> and \<open>ParseBlobFilename\<close> are inverse to each other: a key parses to
  a time and a name exactly when it is the key made of that time and name, and the time is
  a calendar time in whole seconds.
\<close>

theorem blob_names_roundtrip:
  "parse_blob_filename k = Inr (t, f) \<longleftrightarrow> job_time t \<and> k = get_blob_filename f t"
  using parse_blob_filename_get parse_blob_filename_Inr by blast

text \<open>
  Keys sort by time: of two keys the one of the earlier job is the smaller string,
  whatever the names, and within a job the names decide.
\<close>

theorem blob_names_chronological:
  assumes "job_time a" "job_time b"
  shows "get_blob_filename f a < get_blob_filename g b \<longleftrightarrow>
    instant_of a < instant_of b \<or> a = b \<and> f < g"
proof -
  have "format_prefix a = format_prefix b \<longleftrightarrow> a = b"
    using parse_format_prefix assms by (metis option.inject)
  then show ?thesis
    using assms by (simp add: get_blob_filename_def append_less_iff prefix_less_iff instant_less_iff)
qed

lemma itoa_step:
  "n < 10 \<Longrightarrow> itoa_nat n = [digit_char n]"
  "10 \<le> n \<Longrightarrow> itoa_nat n = itoa_nat (n div 10) @ [digit_char (n mod 10)]"
  by (simp_all add: itoa_nat.simps)

definition wtime :: civil where
  "wtime = \<lparr>year = 2026, month = 2, day = 28, hour = 23, minute = 59, second = 59, nanos = 0\<rparr>"

definition wtime' :: civil where
  "wtime' = \<lparr>year = 2026, month = 3, day = 1, hour = 0, minute = 0, second = 0, nanos = 0\<rparr>"

lemma wtimes [simp]: "job_time wtime" "job_time wtime'"
  by (simp_all add: job_time_def valid_civil_def wtime_def wtime'_def days_in_def leap_year_def)

theorem blob_names_chronological_witness:
  "get_blob_filename ''shard-0000009'' wtime < get_blob_filename ''.shard_metadata'' wtime' \<and>
   get_blob_filename ''x'' wtime = ''2026.02.28/235959/x''"
proof -
  have "instant_of wtime < instant_of wtime'"
    by (subst instant_less_iff) (simp_all, simp add: wtime_def wtime'_def less_prod_simp)
  moreover have "get_blob_filename ''x'' wtime = ''2026.02.28/235959/x''"
    by (simp add: get_blob_filename_def format_prefix_def fmt_year_def two_def pad0_def wtime_def digit_char_def itoa_step)
  ultimately show ?thesis using blob_names_chronological [OF wtimes] by blast
qed

end
