(* ===== verification/GoFloat.thy ===== *)
theory GoFloat
  imports Prelude
begin

text \<open>
  The \<open>float64\<close> arithmetic the batch jobs use: the quotient of two integers, rounded to 53
  significant bits, ties to even.  A nonnegative \<open>float64\<close> is a pair: \<open>(m, j)\<close> stands for \<open>m / 2 ^ j\<close>.
\<close>

section \<open>Rounding\<close>

type_synonym float64 = "nat \<times> nat"

definition round_div :: "nat \<Rightarrow> nat \<Rightarrow> nat" where
  "round_div x b =
     (let n = x div b; r = x mod b in if 2 * r < b \<or> 2 * r = b \<and> even n then n else n + 1)"

fun bit_count :: "nat \<Rightarrow> nat" where
  "bit_count n = (if n = 0 then 0 else Suc (bit_count (n div 2)))"

declare bit_count.simps [simp del]

text \<open>The number of binary places that leave 53 significant bits of \<open>a / b\<close>.\<close>

definition places :: "nat \<Rightarrow> nat \<Rightarrow> nat" where
  "places a b =
     (let k = 53 + bit_count b - bit_count a in if 2 ^ 53 * b \<le> a * 2 ^ k then k - 1 else k)"

definition float_div :: "nat \<Rightarrow> nat \<Rightarrow> float64" where
  "float_div a b = (if a = 0 then (0, 0) else (round_div (a * 2 ^ places a b) b, places a b))"

definition float_le :: "float64 \<Rightarrow> float64 \<Rightarrow> bool" where
  "float_le s t \<longleftrightarrow> fst s * 2 ^ snd t \<le> fst t * 2 ^ snd s"

text \<open>The positive \<open>float64\<close>s below 2, normalised.\<close>

definition float64_small :: "float64 \<Rightarrow> bool" where
  "float64_small t \<longleftrightarrow> 2 ^ 52 \<le> fst t \<and> fst t < 2 ^ 53 \<and> 52 \<le> snd t"

text \<open>\<open>t \<le> a / b\<close> and \<open>t \<le> (1 + 1 / 2 ^ 53) * (a / b)\<close>, without rounding.\<close>

definition reaches :: "nat \<Rightarrow> nat \<Rightarrow> float64 \<Rightarrow> bool" where
  "reaches a b t \<longleftrightarrow> fst t * b \<le> a * 2 ^ snd t"

definition nearly_reaches :: "nat \<Rightarrow> nat \<Rightarrow> float64 \<Rightarrow> bool" where
  "nearly_reaches a b t \<longleftrightarrow> 2 ^ 53 * (fst t * b) \<le> (2 ^ 53 + 1) * (a * 2 ^ snd t)"

section \<open>Lemmas\<close>

lemma bit_count_bounds: "0 < n \<Longrightarrow> \<exists>k. bit_count n = Suc k \<and> 2 ^ k \<le> n \<and> n < 2 * 2 ^ k"
proof (induction n rule: bit_count.induct)
  case (1 n)
  show ?case
  proof (cases "n div 2 = 0")
    case True
    then have "n = 1" using 1(2) by simp
    then show ?thesis by (simp add: bit_count.simps)
  next
    case False
    then obtain k where k: "bit_count (n div 2) = Suc k" "2 ^ k \<le> n div 2" "n div 2 < 2 * 2 ^ k" using 1 by auto
    then have "2 * 2 ^ k \<le> n" "n < 4 * 2 ^ k" by (linarith, linarith)
    then show ?thesis using 1(2) k(1) by (simp add: bit_count.simps [of n])
  qed
qed

lemma round_div_ge: "0 < b \<Longrightarrow> n * b \<le> x \<Longrightarrow> n \<le> round_div x b"
  using div_le_mono [of "n * b" x b] by (simp add: round_div_def Let_def)

lemma round_div_le: "0 < b \<Longrightarrow> 2 * (round_div x b * b) \<le> 2 * x + b"
proof -
  assume "0 < b"
  have x: "x = x div b * b + x mod b" by simp
  have "2 * (x div b * b) + 2 * (x mod b) = 2 * x" using x by linarith
  moreover have "(x div b + 1) * b = x div b * b + b" by simp
  ultimately show ?thesis by (auto simp: round_div_def Let_def)
qed

lemma places_scale:
  assumes "0 < a" "0 < b" "a < 2 ^ 53"
  shows "2 ^ 52 * b \<le> a * 2 ^ places a b \<and> a * 2 ^ places a b < 2 ^ 53 * b"
proof -
  obtain p where p: "bit_count a = Suc p" "2 ^ p \<le> a" "a < 2 * 2 ^ p" using bit_count_bounds [OF assms(1)] by blast
  obtain q where q: "bit_count b = Suc q" "2 ^ q \<le> b" "b < 2 * 2 ^ q" using bit_count_bounds [OF assms(2)] by blast
  have "(2::nat) ^ p < 2 ^ 53" using p(2) assms(3) by (rule le_less_trans)
  then have p53: "p < 53" by (rule power_less_imp_less_exp [rotated]) simp
  define k where "k = 53 + q - p"
  have k: "k + p = 53 + q" "0 < k" using p53 by (simp_all add: k_def)
  then have kp: "(2::nat) ^ k * 2 ^ p = 2 ^ 53 * 2 ^ q" by (simp only: power_add [symmetric])
  have kdef: "53 + bit_count b - bit_count a = k" using p(1) q(1) by (simp add: k_def)
  have "2 ^ 52 * b \<le> 2 ^ 52 * (2 * 2 ^ q)" using q(3) by (intro mult_le_mono2) simp
  also have "\<dots> = 2 ^ k * 2 ^ p" using kp by simp
  also have "\<dots> \<le> a * 2 ^ k" using p(2) by (simp add: mult.commute)
  finally have lo: "2 ^ 52 * b \<le> a * 2 ^ k" .
  have "a * 2 ^ k < (2 * 2 ^ p) * 2 ^ k" using p(3) by (intro mult_less_mono1) simp_all
  also have "\<dots> = 2 * (2 ^ k * 2 ^ p)" by simp
  also have "\<dots> = 2 * (2 ^ 53 * 2 ^ q)" using kp by simp
  also have "\<dots> \<le> 2 * (2 ^ 53 * b)" using q(2) by simp
  finally have hi: "a * 2 ^ k < 2 * (2 ^ 53 * b)" .
  obtain k' where k': "k = Suc k'" using k(2) by (cases k) auto
  show ?thesis
  proof (cases "2 ^ 53 * b \<le> a * 2 ^ k")
    case True
    then have "places a b = k'" by (simp only: places_def kdef Let_def if_True k' diff_Suc_1)
    moreover have "a * 2 ^ k = 2 * (a * 2 ^ k')" by (simp add: k')
    moreover have "2 ^ 53 * b = 2 * (2 ^ 52 * b)" by simp
    ultimately show ?thesis using True hi by (metis mult_le_cancel1 mult_less_cancel1 zero_less_numeral)
  next
    case False
    then have "places a b = k" by (simp only: places_def kdef Let_def if_False)
    then show ?thesis using lo False by (metis not_le)
  qed
qed

text \<open>Rounding does not take a quotient below a \<open>float64\<close> it had reached.\<close>

lemma float_div_reaches:
  assumes "0 < b" "a < 2 ^ 53" "float64_small t" "reaches a b t"
  shows "float_le t (float_div a b)"
proof -
  obtain m j where t [simp]: "t = (m, j)" by fastforce
  have m: "2 ^ 52 \<le> m" "m < 2 ^ 53" and r: "m * b \<le> a * 2 ^ j"
    using assms(3,4) by (simp_all only: float64_small_def reaches_def t fst_conv snd_conv)
  have "0 < a" using r m(1) assms(1) by (cases "a = 0") auto
  note sc = places_scale [OF this assms(1,2)]
  let ?k = "places a b" let ?n = "round_div (a * 2 ^ places a b) b"
  have "m * 2 ^ ?k \<le> ?n * 2 ^ j"
  proof (cases "j \<le> ?k")
    case True
    then obtain i where i: "?k = j + i" using le_Suc_ex by blast
    have "m * 2 ^ i * b \<le> a * 2 ^ ?k" using mult_le_mono1 [OF r, of "2 ^ i"] by (simp add: i power_add ac_simps)
    then have "m * 2 ^ i \<le> ?n" by (rule round_div_ge [OF assms(1)])
    then show ?thesis using mult_le_mono1 [of "m * 2 ^ i" ?n "2 ^ j"] by (simp add: i power_add ac_simps)
  next
    case False
    then obtain i where i: "j = ?k + Suc i" using less_imp_Suc_add [of ?k j] by auto
    have n: "2 ^ 52 \<le> ?n" using sc by (intro round_div_ge [OF assms(1)]) blast
    have "m * 2 ^ ?k \<le> 2 * 2 ^ 52 * 2 ^ ?k" using m(2) by (intro mult_le_mono1) simp
    also have "\<dots> \<le> 2 * ?n * 2 ^ ?k" using n by (intro mult_le_mono1 mult_le_mono2)
    also have "\<dots> \<le> 2 * ?n * 2 ^ ?k * 2 ^ i" by simp
    also have "\<dots> = ?n * 2 ^ j" by (simp add: i power_add)
    finally show ?thesis .
  qed
  then show ?thesis using \<open>0 < a\<close> by (simp add: float_le_def float_div_def)
qed

text \<open>And it raises a quotient by at most the relative error of a rounding.\<close>

lemma float_div_nearly:
  assumes "0 < b" "a < 2 ^ 53" "0 < fst t" "float_le t (float_div a b)"
  shows "nearly_reaches a b t"
proof -
  obtain m j where t [simp]: "t = (m, j)" by fastforce
  have a: "0 < a" using assms(3,4) by (cases "a = 0") (auto simp: float_le_def float_div_def)
  let ?k = "places a b" let ?n = "round_div (a * 2 ^ places a b) b"
  define x where "x = a * 2 ^ ?k"
  have le: "m * 2 ^ ?k \<le> ?n * 2 ^ j" using assms(4) a by (simp add: float_le_def float_div_def)
  have "2 ^ 52 * b \<le> x" using places_scale [OF a assms(1,2)] by (simp only: x_def)
  note x = this
  have r: "2 * (?n * b) \<le> 2 * x + b" using round_div_le [OF assms(1), of x] by (simp only: x_def)
  have "2 ^ 53 * (?n * b) = 2 ^ 52 * (2 * (?n * b))" by simp
  also have "\<dots> \<le> 2 ^ 52 * (2 * x + b)" by (rule mult_le_mono2 [OF r])
  also have "\<dots> = 2 ^ 53 * x + 2 ^ 52 * b" by simp
  also have "\<dots> \<le> 2 ^ 53 * x + x" by (rule add_left_mono [OF x])
  also have "\<dots> = (2 ^ 53 + 1) * x" by simp
  finally have n: "2 ^ 53 * (?n * b) \<le> (2 ^ 53 + 1) * x" .
  have "2 ^ ?k * (2 ^ 53 * (m * b)) = 2 ^ 53 * b * (m * 2 ^ ?k)" by (simp only: ac_simps)
  also have "\<dots> \<le> 2 ^ 53 * b * (?n * 2 ^ j)" by (rule mult_le_mono2 [OF le])
  also have "\<dots> = 2 ^ j * (2 ^ 53 * (?n * b))" by (simp only: ac_simps)
  also have "\<dots> \<le> 2 ^ j * ((2 ^ 53 + 1) * x)" by (rule mult_le_mono2 [OF n])
  also have "\<dots> = 2 ^ ?k * ((2 ^ 53 + 1) * (a * 2 ^ j))" by (simp only: x_def ac_simps)
  finally have "2 ^ 53 * (m * b) \<le> (2 ^ 53 + 1) * (a * 2 ^ j)"
    unfolding mult_le_cancel1 by simp
  then show ?thesis by (simp only: nearly_reaches_def t fst_conv snd_conv)
qed

lemma float_div_99_100: "float_div 99 100 = (8917127262193582, 53)"
  by (simp add: float_div_def places_def bit_count.simps round_div_def)

end
