(* ===== verification/BucketSummary.thy ===== *)
theory BucketSummary
  imports BlobNames ObjectStore GoFloat
begin

text \<open>
  \<open>cron/data/summary.go\<close>: what the keys of a results bucket say of each batch job.  The
  decoder of \<open>ShardMetadata\<close> messages (\<open>protojson\<close>) is a parameter.
\<close>

section \<open>Contents of a bucket\<close>

text \<open>
  The documented behaviour of the storage the batch jobs rely on, as a map: \<open>objs\<close> gives the
  objects of a storage state, which a listing enumerates and a finished writer extends.
\<close>

locale bucket_model =
  fixes B :: "'s object_store" and objs :: "'s \<Rightarrow> string \<times> string \<rightharpoonup> string"
  assumes listed: "os_list B s u p = (ks, None) \<Longrightarrow> distinct ks \<and> set ks = {k. objs s (u, k) \<noteq> None \<and> prefix p k}"
    and finished: "os_finish B s u k d = (None, s') \<Longrightarrow> objs s' = (objs s)((u, k) \<mapsto> d)"
    and failed: "os_finish B s u k d = (Some e, s') \<Longrightarrow> objs s uk \<noteq> None \<Longrightarrow> objs s' uk \<noteq> None"
    and read: "os_read_all B s u k = Inr d \<Longrightarrow> objs s (u, k) = Some d"
    and exists: "os_exists B s u k = Inr b \<Longrightarrow> b \<longleftrightarrow> objs s (u, k) \<noteq> None"
begin

lemma written: "write_to_blob_store B s u k d = (None, s') \<Longrightarrow> objs s' = (objs s)((u, k) \<mapsto> d)"
  using finished by (auto simp: write_to_blob_store_None)

lemma never_removed: "write_to_blob_store B s u k d = (r, s') \<Longrightarrow> objs s uk \<noteq> None \<Longrightarrow> objs s' uk \<noteq> None"
  using finished failed by (auto simp: write_to_blob_store_def split: option.splits prod.splits)

lemma keys: "get_blob_keys B s u = Inr ks \<Longrightarrow> distinct ks \<and> set ks = {k. objs s (u, k) \<noteq> None}"
  using listed by (auto simp: get_blob_keys_def get_blob_keys_with_prefix_def blob_keys_prefix_def
      split: option.splits prod.splits)

lemma content: "get_blob_content B s u k = Inr d \<Longrightarrow> objs s (u, k) = Some d"
  using read by (auto simp: get_blob_content_def split: option.splits sum.splits)

lemma present: "blob_exists B s u k = Inr b \<Longrightarrow> b \<longleftrightarrow> objs s (u, k) \<noteq> None"
  using exists by (auto simp: blob_exists_def split: option.splits sum.splits)

end

text \<open>The storage in memory, listing a key once however often it was written.\<close>

definition mem_bucket :: "mem_storage object_store" where
  "mem_bucket = mem_store\<lparr>os_list := (\<lambda>s u p.
     (remdups (map (\<lambda>kv. snd (fst kv)) (filter (\<lambda>kv. fst (fst kv) = u \<and> prefix p (snd (fst kv))) (ms_objects s))), None))\<rparr>"

interpretation mem_bucket: bucket_model mem_bucket "\<lambda>s. map_of (ms_objects s)"
proof unfold_locales
  fix s u p ks
  assume "os_list mem_bucket s u p = (ks, None)"
  then show "distinct ks \<and> set ks = {k. map_of (ms_objects s) (u, k) \<noteq> None \<and> prefix p k}"
    by (force simp: mem_bucket_def map_of_eq_None_iff image_iff)
qed (auto simp: mem_bucket_def mem_store_def split: option.splits if_splits)

lemma mem_bucket_write:
  "ms_closed s = [] \<Longrightarrow>
     write_to_blob_store mem_bucket s u k d = (None, s\<lparr>ms_objects := ((u, k), d) # ms_objects s\<rparr>)"
  by (simp add: write_to_blob_store_def mem_bucket_def mem_store_def)

section \<open>Summaries\<close>

record shard_summary =
  ss_creation_time :: civil
  ss_shard_metadata :: string
  ss_shards_expected :: int
  ss_shards_created :: nat
  ss_is_transferred :: bool

record shard_metadata =
  sm_shard_loc :: "string option"
  sm_num_shard :: "int option"
  sm_commit_sha :: "string option"

definition get_num_shard :: "shard_metadata \<Rightarrow> int" where
  "get_num_shard m = (case sm_num_shard m of None \<Rightarrow> 0 | Some n \<Rightarrow> n)"

definition is_completed :: "shard_summary \<Rightarrow> float64 \<Rightarrow> bool" where
  "is_completed s completionThreshold =
     (0 < ss_shards_expected s \<and>
      float_le completionThreshold (float_div (ss_shards_created s) (nat (ss_shards_expected s))))"

definition is_transferred :: "shard_summary \<Rightarrow> bool" where
  "is_transferred s = ss_is_transferred s"

definition mark_transferred :: "'s object_store \<Rightarrow> 's \<Rightarrow> string \<Rightarrow> shard_summary \<Rightarrow> err option \<times> 's" where
  "mark_transferred B st bucketURL s =
     (case write_to_blob_store B st bucketURL (get_transfer_status_filename (ss_creation_time s)) [] of
        (Some e, st') \<Rightarrow> (Some (errorf [L ''error during WriteToBlobStore: '', W e]), st')
      | (None, st') \<Rightarrow> (None, st'))"

text \<open>The map of a \<open>BucketSummary\<close>, its keys in the order they were added.\<close>

type_synonym bucket_summary = "(civil \<times> shard_summary) list"

definition new_summary :: "civil \<Rightarrow> shard_summary" where
  "new_summary t = \<lparr>ss_creation_time = t, ss_shard_metadata = [], ss_shards_expected = 0,
     ss_shards_created = 0, ss_is_transferred = False\<rparr>"

definition get_or_create :: "civil \<Rightarrow> bucket_summary \<Rightarrow> bucket_summary" where
  "get_or_create t S = (if t \<in> fst ` set S then S else S @ [(t, new_summary t)])"

text \<open>An assignment through the pointer \<open>getOrCreate\<close> returns.\<close>

definition on_summary :: "civil \<Rightarrow> (shard_summary \<Rightarrow> shard_summary) \<Rightarrow> bucket_summary \<Rightarrow> bucket_summary" where
  "on_summary t f S = map (\<lambda>(u, s). (u, if u = t then f s else s)) (get_or_create t S)"

definition shards :: "(shard_summary list \<Rightarrow> shard_summary list) \<Rightarrow> bucket_summary \<Rightarrow> shard_summary list" where
  "shards order S = order (map snd S)"

definition summarize_key ::
  "'s object_store \<Rightarrow> (string \<Rightarrow> shard_metadata res) \<Rightarrow> 's \<Rightarrow> string \<Rightarrow> string \<Rightarrow> bucket_summary \<Rightarrow> bucket_summary res" where
  "summarize_key B unmarshal st bucketURL k S =
     (case parse_blob_filename k of
        Inl e \<Rightarrow> Inl (errorf [L ''error parsing Blob key: '', W e])
      | Inr (t, filename) \<Rightarrow>
          if prefix ''shard-'' filename then
            Inr (on_summary t (\<lambda>s. s\<lparr>ss_shards_created := ss_shards_created s + 1\<rparr>) S)
          else if filename = TransferStatusFilename then
            Inr (on_summary t (\<lambda>s. s\<lparr>ss_is_transferred := True\<rparr>) S)
          else if filename = ShardMetadataFilename then
            (case get_blob_content B st bucketURL k of
               Inl e \<Rightarrow> Inl (errorf [L ''error during GetBlobContent: '', W e])
             | Inr keyData \<Rightarrow>
                 (case unmarshal keyData of
                    Inl e \<Rightarrow> Inl (errorf [L ''error parsing data as ShardMetadata: '', W e])
                  | Inr metadata \<Rightarrow>
                      Inr (on_summary t (\<lambda>s. s\<lparr>ss_shard_metadata := keyData\<rparr>)
                        (on_summary t (\<lambda>s. s\<lparr>ss_shards_expected := get_num_shard metadata\<rparr>) S))))
          else Inl (errorf [L ''found unrecognized file: '', L k]))"

fun summarize_keys ::
  "'s object_store \<Rightarrow> (string \<Rightarrow> shard_metadata res) \<Rightarrow> 's \<Rightarrow> string \<Rightarrow> string list \<Rightarrow> bucket_summary \<Rightarrow> bucket_summary res" where
  "summarize_keys B unmarshal st bucketURL [] S = Inr S"
| "summarize_keys B unmarshal st bucketURL (k # ks) S =
     (case summarize_key B unmarshal st bucketURL k S of
        Inl e \<Rightarrow> Inl e
      | Inr S' \<Rightarrow> summarize_keys B unmarshal st bucketURL ks S')"

definition get_bucket_summary ::
  "'s object_store \<Rightarrow> (string \<Rightarrow> shard_metadata res) \<Rightarrow> 's \<Rightarrow> string \<Rightarrow> bucket_summary res" where
  "get_bucket_summary B unmarshal st bucketURL =
     (case get_blob_keys B st bucketURL of
        Inl e \<Rightarrow> Inl (errorf [L ''error getting BlobKeys: '', W e])
      | Inr ks \<Rightarrow> summarize_keys B unmarshal st bucketURL ks [])"

section \<open>What a summary says\<close>

text \<open>The names of the objects of the job of time \<open>t\<close>.\<close>

definition names_at :: "string list \<Rightarrow> civil \<Rightarrow> string list" where
  "names_at ks t =
     concat (map (\<lambda>k. case parse_blob_filename k of Inl e \<Rightarrow> [] | Inr (u, f) \<Rightarrow> if u = t then [f] else []) ks)"

text \<open>The abstract summary: counts over the names of the job, \<open>None\<close> for a job without objects.\<close>

definition spec_summary :: "(string \<Rightarrow> (string \<times> int) option) \<Rightarrow> string list \<Rightarrow> civil \<Rightarrow> shard_summary option" where
  "spec_summary metadata ks t =
     (let names = names_at ks t;
          md = (if ShardMetadataFilename \<in> set names then metadata (get_shard_metadata_filename t) else None)
      in if names = [] then None
         else Some \<lparr>ss_creation_time = t,
           ss_shard_metadata = (case md of None \<Rightarrow> [] | Some (d, n) \<Rightarrow> d),
           ss_shards_expected = (case md of None \<Rightarrow> 0 | Some (d, n) \<Rightarrow> n),
           ss_shards_created = length (filter (prefix ''shard-'') names),
           ss_is_transferred = (TransferStatusFilename \<in> set names)\<rparr>)"

definition metadata_at ::
  "'s object_store \<Rightarrow> (string \<Rightarrow> shard_metadata res) \<Rightarrow> 's \<Rightarrow> string \<Rightarrow> string \<Rightarrow> (string \<times> int) option" where
  "metadata_at B unmarshal st bucketURL k =
     (case get_blob_content B st bucketURL k of
        Inl e \<Rightarrow> None
      | Inr d \<Rightarrow> (case unmarshal d of Inl e \<Rightarrow> None | Inr m \<Rightarrow> Some (d, get_num_shard m)))"

definition known_file :: "(string \<Rightarrow> (string \<times> int) option) \<Rightarrow> string \<Rightarrow> bool" where
  "known_file metadata k \<longleftrightarrow>
     (\<exists>t f. parse_blob_filename k = Inr (t, f) \<and>
        (prefix ''shard-'' f \<or> f = TransferStatusFilename \<or> f = ShardMetadataFilename \<and> metadata k \<noteq> None))"

definition summary_inv :: "(string \<Rightarrow> (string \<times> int) option) \<Rightarrow> string list \<Rightarrow> bucket_summary \<Rightarrow> bool" where
  "summary_inv metadata ks S \<longleftrightarrow> distinct (map fst S) \<and> (\<forall>t. map_of S t = spec_summary metadata ks t)"

lemma map_of_on_summary:
  "map_of (on_summary t f S) u =
     (if u = t then Some (f (case map_of S t of None \<Rightarrow> new_summary t | Some s \<Rightarrow> s)) else map_of S u)"
proof -
  have upd: "map_of (map (\<lambda>(v, s). (v, if v = t then f s else s)) xs) u =
      (if u = t then map_option f (map_of xs t) else map_of xs u)" for xs
    by (induction xs) auto
  show ?thesis
    by (cases "t \<in> fst ` set S")
      (auto simp: on_summary_def get_or_create_def upd map_add_def map_of_eq_None_iff [THEN iffD2] split: option.splits
        dest: weak_map_of_SomeI)
qed

lemma fst_on_summary: "map fst (on_summary t f S) = map fst (get_or_create t S)"
  by (auto simp: on_summary_def)

lemma distinct_on_summary: "distinct (map fst S) \<Longrightarrow> distinct (map fst (on_summary t f S))"
  unfolding fst_on_summary by (auto simp: get_or_create_def)

lemma names_at_snoc:
  "names_at (ks @ [k]) u =
     names_at ks u @ (case parse_blob_filename k of Inl e \<Rightarrow> [] | Inr (t, f) \<Rightarrow> if t = u then [f] else [])"
  by (simp add: names_at_def)

lemma special_names [simp]:
  "\<not> prefix ''shard-'' TransferStatusFilename" "\<not> prefix ''shard-'' ShardMetadataFilename"
  "TransferStatusFilename \<noteq> ShardMetadataFilename" "ShardMetadataFilename \<noteq> TransferStatusFilename"
  by (simp_all add: TransferStatusFilename_def ShardMetadataFilename_def)

lemma spec_summary_snoc_other:
  "parse_blob_filename k = Inr (t, f) \<Longrightarrow> u \<noteq> t \<Longrightarrow> spec_summary md (ks @ [k]) u = spec_summary md ks u"
  by (simp add: spec_summary_def names_at_snoc)

lemma spec_summary_snoc:
  assumes "parse_blob_filename k = Inr (t, f)"
  shows "spec_summary md (ks @ [k]) t =
    (let s = (case spec_summary md ks t of None \<Rightarrow> new_summary t | Some s \<Rightarrow> s);
         m = (if f = ShardMetadataFilename then md k else None)
     in Some \<lparr>ss_creation_time = t,
          ss_shard_metadata = (case m of None \<Rightarrow> ss_shard_metadata s | Some (d, n) \<Rightarrow> d),
          ss_shards_expected = (case m of None \<Rightarrow> ss_shards_expected s | Some (d, n) \<Rightarrow> n),
          ss_shards_created = (if prefix ''shard-'' f then 1 else 0) + ss_shards_created s,
          ss_is_transferred = (f = TransferStatusFilename \<or> ss_is_transferred s)\<rparr>)"
proof -
  have "f = ShardMetadataFilename \<Longrightarrow> get_shard_metadata_filename t = k"
    using assms parse_blob_filename_Inr by (simp add: get_shard_metadata_filename_def)
  then show ?thesis
    using assms
    by (auto simp: spec_summary_def names_at_snoc new_summary_def Let_def split: option.splits)
qed

lemma summary_inv_snoc:
  assumes "summary_inv md ks S" "parse_blob_filename k = Inr (t, f)"
    and "map_of S' t = spec_summary md (ks @ [k]) t" "\<And>u. u \<noteq> t \<Longrightarrow> map_of S' u = map_of S u" "distinct (map fst S')"
  shows "summary_inv md (ks @ [k]) S'"
  unfolding summary_inv_def
proof (intro conjI allI)
  show "map_of S' u = spec_summary md (ks @ [k]) u" for u
    using assms spec_summary_snoc_other [of k t f u md ks] by (cases "u = t") (simp_all add: summary_inv_def)
qed (rule assms(5))

lemma summarize_key_step:
  assumes inv: "summary_inv (metadata_at B unmarshal st url) ks S"
  shows "case summarize_key B unmarshal st url k S of
      Inl e \<Rightarrow> \<not> known_file (metadata_at B unmarshal st url) k
    | Inr S' \<Rightarrow> known_file (metadata_at B unmarshal st url) k \<and>
        summary_inv (metadata_at B unmarshal st url) (ks @ [k]) S'"
proof (cases "parse_blob_filename k")
  case (Inr tf)
  let ?md = "metadata_at B unmarshal st url"
  obtain t f where p: "parse_blob_filename k = Inr (t, f)" using Inr by (cases tf) auto
  have m: "map_of S u = spec_summary ?md ks u" for u using inv by (simp add: summary_inv_def)
  have d: "distinct (map fst S)" using inv by (simp add: summary_inv_def)
  have upd: "summary_inv ?md (ks @ [k]) (on_summary t g S)"
    if "map_of (on_summary t g S) t = spec_summary ?md (ks @ [k]) t" for g
    using summary_inv_snoc [OF inv p that] d by (simp add: map_of_on_summary distinct_on_summary)
  consider "prefix ''shard-'' f" | "f = TransferStatusFilename" | "f = ShardMetadataFilename"
    | "\<not> prefix ''shard-'' f" "f \<noteq> TransferStatusFilename" "f \<noteq> ShardMetadataFilename" by blast
  then show ?thesis
  proof cases
    case 1
    then have "f \<noteq> ShardMetadataFilename" "f \<noteq> TransferStatusFilename" by auto
    then have "map_of (on_summary t (\<lambda>s. s\<lparr>ss_shards_created := ss_shards_created s + 1\<rparr>) S) t =
        spec_summary ?md (ks @ [k]) t"
      using 1 p by (simp add: map_of_on_summary m spec_summary_snoc Let_def new_summary_def split: option.split)
        (auto simp: spec_summary_def Let_def split: if_splits)
    then show ?thesis
      using 1 p upd by (simp add: summarize_key_def known_file_def)
  next
    case 2
    then have "map_of (on_summary t (\<lambda>s. s\<lparr>ss_is_transferred := True\<rparr>) S) t = spec_summary ?md (ks @ [k]) t"
      using p by (simp add: map_of_on_summary m spec_summary_snoc Let_def new_summary_def split: option.split)
        (auto simp: spec_summary_def Let_def split: if_splits)
    then show ?thesis
      using 2 p upd by (simp add: summarize_key_def known_file_def)
  next
    case 3
    then show ?thesis
    proof (cases "?md k")
      case None
      then show ?thesis
        using 3 p by (auto simp: summarize_key_def known_file_def metadata_at_def split: sum.splits)
    next
      case (Some dn)
      then obtain keyData metadata where km: "get_blob_content B st url k = Inr keyData"
        "unmarshal keyData = Inr metadata" "dn = (keyData, get_num_shard metadata)"
        by (auto simp: metadata_at_def split: sum.splits)
      let ?S = "on_summary t (\<lambda>s. s\<lparr>ss_shard_metadata := keyData\<rparr>)
          (on_summary t (\<lambda>s. s\<lparr>ss_shards_expected := get_num_shard metadata\<rparr>) S)"
      have "map_of ?S t = spec_summary ?md (ks @ [k]) t"
        using 3 p Some km(3) by (simp add: map_of_on_summary m spec_summary_snoc Let_def new_summary_def split: option.split)
          (auto simp: spec_summary_def Let_def split: if_splits)
      from summary_inv_snoc [OF inv p this] have "summary_inv ?md (ks @ [k]) ?S"
        using d by (simp add: map_of_on_summary distinct_on_summary)
      then show ?thesis using 3 p km Some by (simp add: summarize_key_def known_file_def)
    qed
  next
    case 4
    then show ?thesis using p by (simp add: summarize_key_def known_file_def)
  qed
qed (simp add: summarize_key_def known_file_def)

lemma summarize_keys_spec:
  "summary_inv (metadata_at B unmarshal st url) pre S \<Longrightarrow>
   case summarize_keys B unmarshal st url ks S of
      Inl e \<Rightarrow> \<exists>k \<in> set ks. \<not> known_file (metadata_at B unmarshal st url) k
    | Inr S' \<Rightarrow> (\<forall>k \<in> set ks. known_file (metadata_at B unmarshal st url) k) \<and>
        summary_inv (metadata_at B unmarshal st url) (pre @ ks) S'"
proof (induction ks arbitrary: pre S)
  case (Cons k ks)
  show ?case
  proof (cases "summarize_key B unmarshal st url k S")
    case (Inl e)
    with summarize_key_step [OF Cons.prems, of k] show ?thesis by simp
  next
    case (Inr S')
    with summarize_key_step [OF Cons.prems, of k]
    have "known_file (metadata_at B unmarshal st url) k" "summary_inv (metadata_at B unmarshal st url) (pre @ [k]) S'"
      by simp_all
    with Cons.IH [of "pre @ [k]" S'] Inr show ?thesis by (simp split: sum.splits)
  qed
qed simp

lemma get_bucket_summary_spec:
  assumes "get_blob_keys B st url = Inr ks"
  shows "case get_bucket_summary B unmarshal st url of
      Inl e \<Rightarrow> \<exists>k \<in> set ks. \<not> known_file (metadata_at B unmarshal st url) k
    | Inr S \<Rightarrow> (\<forall>k \<in> set ks. known_file (metadata_at B unmarshal st url) k) \<and>
        summary_inv (metadata_at B unmarshal st url) ks S"
proof -
  have "summary_inv (metadata_at B unmarshal st url) [] []"
    by (simp add: summary_inv_def spec_summary_def names_at_def)
  from summarize_keys_spec [OF this, of ks] show ?thesis
    using assms by (auto simp: get_bucket_summary_def split: sum.splits)
qed

text \<open>
  C30.  A bucket summary is what counting the keys gives: if every key is that of a shard, of
  a transfer mark or of readable metadata, there is one entry for each job with an object,
  and it says how many of the job's names are shards, whether the mark is among them, and
  what the job's metadata holds.  Any other key makes the summary fail.
\<close>

theorem bucket_summary_counts:
  assumes "get_blob_keys B st url = Inr ks"
  shows "case get_bucket_summary B unmarshal st url of
      Inl e \<Rightarrow> \<exists>k \<in> set ks. \<not> known_file (metadata_at B unmarshal st url) k
    | Inr S \<Rightarrow> (\<forall>k \<in> set ks. known_file (metadata_at B unmarshal st url) k) \<and> distinct (map fst S) \<and>
        (\<forall>t. map_of S t = spec_summary (metadata_at B unmarshal st url) ks t)"
  using get_bucket_summary_spec [OF assms, of unmarshal] by (simp add: summary_inv_def split: sum.splits)

text \<open>
  C32.  A run counts as complete whenever the exact ratio of its shards reaches the threshold,
  and never when the ratio misses the threshold by more than one rounding error in \<open>2 ^ 53\<close>;
  a run that expects no shard is never complete.
\<close>

theorem completion_is_exact_up_to_rounding:
  assumes "float64_small threshold" "ss_shards_created s < 2 ^ 53"
  shows "(is_completed s threshold \<longrightarrow> 0 < ss_shards_expected s \<and>
      nearly_reaches (ss_shards_created s) (nat (ss_shards_expected s)) threshold) \<and>
    (0 < ss_shards_expected s \<and> reaches (ss_shards_created s) (nat (ss_shards_expected s)) threshold \<longrightarrow>
      is_completed s threshold)"
proof (cases "0 < ss_shards_expected s")
  case True
  then have b: "0 < nat (ss_shards_expected s)" by simp
  have "0 < fst threshold" using assms(1) by (simp add: float64_small_def)
  with float_div_nearly [OF b assms(2)] float_div_reaches [OF b assms(2,1)] True show ?thesis
    by (auto simp: is_completed_def)
qed (simp add: is_completed_def)

text \<open>A bucket with one run of two expected shards, one of which is there.\<close>

definition example_url :: string where "example_url = ''mem://results''"

definition example_bucket :: mem_storage where
  "example_bucket = \<lparr>ms_objects =
     [((example_url, get_blob_filename ''shard-0000000'' wtime), ''{}''),
      ((example_url, get_shard_metadata_filename wtime), ''2'')], ms_closed = []\<rparr>"

definition example_unmarshal :: "string \<Rightarrow> shard_metadata res" where
  "example_unmarshal d = (case atoi d of
     None \<Rightarrow> Inl (Sentinel ''proto: syntax error'')
   | Some n \<Rightarrow> Inr \<lparr>sm_shard_loc = None, sm_num_shard = Some n, sm_commit_sha = None\<rparr>)"

lemma get_blob_filename_inject [simp]: "get_blob_filename f t = get_blob_filename g t \<longleftrightarrow> f = g"
  by (simp add: get_blob_filename_def)

lemma example_keys:
  "get_blob_keys mem_bucket example_bucket example_url =
     Inr [get_blob_filename ''shard-0000000'' wtime, get_shard_metadata_filename wtime]"
  by (simp add: get_blob_keys_def get_blob_keys_with_prefix_def blob_keys_prefix_def mem_bucket_def mem_store_def
      example_bucket_def get_shard_metadata_filename_def ShardMetadataFilename_def)

lemma example_metadata:
  "metadata_at mem_bucket example_unmarshal example_bucket example_url (get_shard_metadata_filename wtime) =
     Some (''2'', 2)"
proof -
  have "example_unmarshal ''2'' = Inr \<lparr>sm_shard_loc = None, sm_num_shard = Some 2, sm_commit_sha = None\<rparr>"
    by (simp add: example_unmarshal_def) code_simp
  then show ?thesis
    by (simp add: metadata_at_def get_blob_content_def mem_bucket_def mem_store_def example_bucket_def
        get_shard_metadata_filename_def ShardMetadataFilename_def get_num_shard_def)
qed

lemma bucket_summary_counts_witness:
  "\<exists>S. get_bucket_summary mem_bucket example_unmarshal example_bucket example_url = Inr S \<and>
     map_of S wtime = Some \<lparr>ss_creation_time = wtime, ss_shard_metadata = ''2'', ss_shards_expected = 2,
       ss_shards_created = 1, ss_is_transferred = False\<rparr>"
proof -
  let ?md = "metadata_at mem_bucket example_unmarshal example_bucket example_url"
  let ?ks = "[get_blob_filename ''shard-0000000'' wtime, get_shard_metadata_filename wtime]"
  have known: "\<forall>k \<in> set ?ks. known_file ?md k"
    using example_metadata by (simp add: known_file_def parse_blob_filename_get get_shard_metadata_filename_def)
  have "names_at ?ks wtime = [''shard-0000000'', ShardMetadataFilename]"
    by (simp add: names_at_def parse_blob_filename_get get_shard_metadata_filename_def)
  then have "spec_summary ?md ?ks wtime = Some \<lparr>ss_creation_time = wtime, ss_shard_metadata = ''2'',
      ss_shards_expected = 2, ss_shards_created = 1, ss_is_transferred = False\<rparr>"
    using example_metadata by (simp add: spec_summary_def ShardMetadataFilename_def TransferStatusFilename_def)
  with known bucket_summary_counts [OF example_keys, of example_unmarshal] show ?thesis
    by (auto split: sum.splits)
qed

text \<open>
  The default threshold \<open>0.99\<close>: as the \<open>float32\<close> field of the configuration file, and as the
  \<open>float64\<close> of the environment variable.
\<close>

definition file_threshold :: float64 where "file_threshold = (4152361 * 2 ^ 31, 53)"

definition environment_threshold :: float64 where "environment_threshold = (8917127262193582, 53)"

definition counted :: "nat \<Rightarrow> nat \<Rightarrow> shard_summary" where
  "counted created expected = (new_summary wtime)\<lparr>ss_shards_created := created, ss_shards_expected := int expected\<rparr>"

lemma counted_completed: "is_completed (counted c e) t \<longleftrightarrow> 0 < e \<and> float_le t (float_div c e)"
  by (simp add: is_completed_def counted_def)

lemma thresholds_small: "float64_small file_threshold" "float64_small environment_threshold"
  by (simp_all add: float64_small_def file_threshold_def environment_threshold_def)

lemma completion_is_exact_up_to_rounding_witness:
  "is_completed (counted 99 100) environment_threshold \<and> \<not> is_completed (counted 98 100) environment_threshold"
proof -
  have "nearly_reaches 98 100 environment_threshold = False" "reaches 99 100 environment_threshold"
    by (simp_all add: nearly_reaches_def reaches_def environment_threshold_def)
  with completion_is_exact_up_to_rounding [OF thresholds_small(2), of "counted 99 100"]
    completion_is_exact_up_to_rounding [OF thresholds_small(2), of "counted 98 100"]
  show ?thesis by (simp add: counted_def)
qed

text \<open>
   The same threshold, written as \<open>0.99\<close>, means different things in the two places it can
  be set: with the environment variable a run of which exactly 99 percent of the shards are
  there is complete; with the configuration file, whose field has 24 significant bits, it is not.
\<close>

theorem file_threshold_is_stricter:
  assumes "0 < n" "n < 2 ^ 40"
  shows "is_completed (counted (99 * n) (100 * n)) environment_threshold \<and>
    \<not> is_completed (counted (99 * n) (100 * n)) file_threshold"
proof
  show "is_completed (counted (99 * n) (100 * n)) environment_threshold"
  proof -
    have "reaches (99 * n) (100 * n) environment_threshold"
      using assms(1) by (simp add: reaches_def environment_threshold_def)
    with float_div_reaches [of "100 * n" "99 * n" environment_threshold] thresholds_small(2) assms
    show ?thesis by (simp add: counted_completed)
  qed
  show "\<not> is_completed (counted (99 * n) (100 * n)) file_threshold"
  proof
    assume "is_completed (counted (99 * n) (100 * n)) file_threshold"
    then have "float_le file_threshold (float_div (99 * n) (100 * n))"
      by (simp add: counted_completed)
    with float_div_nearly [of "100 * n" "99 * n" file_threshold] assms
    have "nearly_reaches (99 * n) (100 * n) file_threshold" by (simp add: file_threshold_def)
    then show False using assms(1) by (simp add: nearly_reaches_def file_threshold_def)
  qed
qed

lemma file_threshold_is_stricter_witness:
  "is_completed (counted 99 100) environment_threshold \<and> \<not> is_completed (counted 99 100) file_threshold"
  using file_threshold_is_stricter [of 1] by simp

end
