(* ===== verification/CronConfig.thy ===== *)
theory CronConfig
  imports GoFloat GoStrings
begin

text \<open>
  \<open>cron/config/config.go\<close>: the settings of the batch jobs, from environment variables and a
  YAML file.  The YAML decoder and \<open>strconv.ParseFloat\<close> are parameters; \<open>reflect\<close> over the
  \<open>config\<close> struct is a function from field names to typed values.
\<close>

section \<open>The configuration\<close>

record config =
  cf_project_id :: string
  cf_result_data_bucket_url :: string
  cf_request_topic_url :: string
  cf_request_subscription_url :: string
  cf_bigquery_dataset :: string
  cf_bigquery_table :: string
  cf_completion_threshold :: float64 \<comment> \<open>a \<open>float32\<close>, which \<open>reflect\<close> widens\<close>
  cf_webhook_url :: string
  cf_metric_exporter :: string
  cf_metric_stackdriver_prefix :: string
  cf_shard_size :: int
  cf_input_bucket_url :: string
  cf_input_bucket_prefix :: string
  cf_additional_params :: "string \<rightharpoonup> (string \<rightharpoonup> string)"

definition ErrEmptyConfigValue :: err where "ErrEmptyConfigValue = Sentinel ''config value set to empty''"
definition ErrValueConversion :: err where "ErrValueConversion = Sentinel ''unexpected type, cannot convert value''"
definition ErrNoSuchConfigField :: err where "ErrNoSuchConfigField = Sentinel ''no such field on config struct''"

datatype cvalue =
  VString string
| VInt int
| VFloat float64
| VMap "string \<rightharpoonup> (string \<rightharpoonup> string)"

fun type_name :: "cvalue \<Rightarrow> string" where
  "type_name (VString s) = ''string''"
| "type_name (VInt n) = ''int''"
| "type_name (VFloat f) = ''float32''"
| "type_name (VMap m) = []"

text \<open>\<open>FieldByName\<close>, \<open>None\<close> for the zero \<open>Value\<close> of an unknown field.\<close>

definition config_field :: "config \<Rightarrow> string \<rightharpoonup> cvalue" where
  "config_field c = map_of
     [(''ProjectID'', VString (cf_project_id c)),
      (''ResultDataBucketURL'', VString (cf_result_data_bucket_url c)),
      (''RequestTopicURL'', VString (cf_request_topic_url c)),
      (''RequestSubscriptionURL'', VString (cf_request_subscription_url c)),
      (''BigQueryDataset'', VString (cf_bigquery_dataset c)),
      (''BigQueryTable'', VString (cf_bigquery_table c)),
      (''CompletionThreshold'', VFloat (cf_completion_threshold c)),
      (''WebhookURL'', VString (cf_webhook_url c)),
      (''MetricExporter'', VString (cf_metric_exporter c)),
      (''MetricStackdriverPrefix'', VString (cf_metric_stackdriver_prefix c)),
      (''ShardSize'', VInt (cf_shard_size c)),
      (''InputBucketURL'', VString (cf_input_bucket_url c)),
      (''InputBucketPrefix'', VString (cf_input_bucket_prefix c)),
      (''AdditionalParams'', VMap (cf_additional_params c))]"

text \<open>What the getters read: the environment, the text of the file, and the decoders.\<close>

record settings =
  st_lookup_env :: "string \<rightharpoonup> string"
  st_config_yaml :: string
  st_unmarshal :: "string \<Rightarrow> config res"
  st_parse_float :: "string \<Rightarrow> float64 res"

section \<open>Generic getters\<close>

definition get_parsed_config :: "settings \<Rightarrow> config res" where
  "get_parsed_config S =
     (case st_unmarshal S (st_config_yaml S) of
        Inl e \<Rightarrow> Inl (errorf [L ''error during yaml.Unmarshal: '', W e])
      | Inr c \<Rightarrow> Inr c)"

definition get_reflected_value :: "settings \<Rightarrow> string \<Rightarrow> cvalue res" where
  "get_reflected_value S field =
     (case get_parsed_config S of
        Inl e \<Rightarrow> Inl (errorf [L ''error parsing config file: '', W e])
      | Inr c \<Rightarrow>
          (case config_field c field of
             None \<Rightarrow> Inl (errorf [W ErrNoSuchConfigField, L '': '', L field])
           | Some v \<Rightarrow> Inr v))"

definition get_config_value :: "settings \<Rightarrow> string \<Rightarrow> string \<Rightarrow> cvalue res" where
  "get_config_value S env_var field =
     (case st_lookup_env S env_var of
        Some val \<Rightarrow> Inr (VString val)
      | None \<Rightarrow> get_reflected_value S field)"

definition config_value_error :: "string \<Rightarrow> err \<Rightarrow> err" where
  "config_value_error config_name e = errorf [L ''error getting config value '', L config_name, L '': '', W e]"

definition conversion_error :: "cvalue \<Rightarrow> string \<Rightarrow> err" where
  "conversion_error v config_name = errorf [W ErrValueConversion, L '': '', L (type_name v), L '', '', L config_name]"

definition get_string_config_value :: "settings \<Rightarrow> string \<Rightarrow> string \<Rightarrow> string \<Rightarrow> string res" where
  "get_string_config_value S env_var field config_name =
     (case get_config_value S env_var field of
        Inl e \<Rightarrow> Inl (config_value_error config_name e)
      | Inr (VString s) \<Rightarrow>
          if s \<noteq> [] then Inr s else Inl (errorf [W ErrEmptyConfigValue, L '': '', L config_name])
      | Inr v \<Rightarrow> Inl (conversion_error v config_name))"

definition atoi_error :: "string \<Rightarrow> err" where
  "atoi_error s = Typed ''*strconv.NumError'' (''strconv.Atoi: parsing '' @ quote s) []"

definition get_int_config_value :: "settings \<Rightarrow> string \<Rightarrow> string \<Rightarrow> string \<Rightarrow> int res" where
  "get_int_config_value S env_var field config_name =
     (case get_config_value S env_var field of
        Inl e \<Rightarrow> Inl (config_value_error config_name e)
      | Inr (VString s) \<Rightarrow> (case atoi s of None \<Rightarrow> Inl (atoi_error s) | Some n \<Rightarrow> Inr n)
      | Inr (VInt n) \<Rightarrow> Inr n
      | Inr v \<Rightarrow> Inl (conversion_error v config_name))"

definition get_float64_config_value :: "settings \<Rightarrow> string \<Rightarrow> string \<Rightarrow> string \<Rightarrow> float64 res" where
  "get_float64_config_value S env_var field config_name =
     (case get_config_value S env_var field of
        Inl e \<Rightarrow> Inl (config_value_error config_name e)
      | Inr (VString s) \<Rightarrow> st_parse_float S s
      | Inr (VFloat f) \<Rightarrow> Inr f
      | Inr v \<Rightarrow> Inl (conversion_error v config_name))"

text \<open>The keys of the configuration are ASCII, so \<open>strings.ToUpper\<close> is that of ASCII.\<close>

definition env_var_name :: "string \<Rightarrow> string \<Rightarrow> string" where
  "env_var_name sub_map_name sub_key_name =
     to_upper_ascii (replace_char CHR ''-'' CHR ''_'' (sub_map_name @ ''_'' @ sub_key_name))"

definition get_map_config_value ::
  "settings \<Rightarrow> string \<Rightarrow> string \<Rightarrow> string \<Rightarrow> (string \<rightharpoonup> string) res" where
  "get_map_config_value S field config_name sub_map_name =
     (case get_reflected_value S field of
        Inl e \<Rightarrow> Inl (config_value_error config_name e)
      | Inr v \<Rightarrow>
          (case v of
             VMap m \<Rightarrow>
               (case m sub_map_name of
                  None \<Rightarrow> Inl (conversion_error v config_name)
                | Some sub \<Rightarrow> Inr (\<lambda>k. case sub k of
                      None \<Rightarrow> None
                    | Some val \<Rightarrow>
                        (case st_lookup_env S (env_var_name sub_map_name k) of None \<Rightarrow> Some val | Some e \<Rightarrow> Some e)))
           | _ \<Rightarrow> Inl (conversion_error v config_name)))"

section \<open>The settings\<close>

definition get_additional_params :: "settings \<Rightarrow> string \<Rightarrow> (string \<rightharpoonup> string) res" where
  "get_additional_params S sub_map_name = get_map_config_value S ''AdditionalParams'' ''additional-params'' sub_map_name"

definition get_scorecard_values :: "settings \<Rightarrow> (string \<rightharpoonup> string) res" where
  "get_scorecard_values S = get_additional_params S ''scorecard''"

definition get_criticality_values :: "settings \<Rightarrow> (string \<rightharpoonup> string) res" where
  "get_criticality_values S = get_additional_params S ''criticality''"

text \<open>\<open>m[key]\<close> of a Go map of strings: the empty string for a missing key.\<close>

definition map_index :: "(string \<rightharpoonup> string) \<Rightarrow> string \<Rightarrow> string" where
  "map_index m k = (case m k of None \<Rightarrow> [] | Some v \<Rightarrow> v)"

definition get_scorecard_param :: "settings \<Rightarrow> string \<Rightarrow> string res" where
  "get_scorecard_param S k = (case get_scorecard_values S of Inl e \<Rightarrow> Inl e | Inr m \<Rightarrow> Inr (map_index m k))"

text \<open>\<open>read_file\<close> is \<open>os.ReadFile\<close>, what it read beside its error; without a file name the embedded text stays.\<close>

definition read_config :: "(string \<Rightarrow> string \<times> err option) \<Rightarrow> string \<Rightarrow> settings \<Rightarrow> err option \<times> settings" where
  "read_config read_file filename S =
     (if filename = [] then (None, S)
      else (case read_file filename of
          (bytes, Some e) \<Rightarrow> (Some (errorf [L ''config file: '', W e]), S\<lparr>st_config_yaml := bytes\<rparr>)
        | (bytes, None) \<Rightarrow> (None, S\<lparr>st_config_yaml := bytes\<rparr>)))"

definition get_project_id :: "settings \<Rightarrow> string res" where
  "get_project_id S = get_string_config_value S ''SCORECARD_PROJECT_ID'' ''ProjectID'' ''project-id''"

definition get_result_data_bucket_url :: "settings \<Rightarrow> string res" where
  "get_result_data_bucket_url S =
     get_string_config_value S ''SCORECARD_DATA_BUCKET_URL'' ''ResultDataBucketURL'' ''result-data-bucket-url''"

definition get_request_topic_url :: "settings \<Rightarrow> string res" where
  "get_request_topic_url S =
     get_string_config_value S ''SCORECARD_REQUEST_TOPIC_URL'' ''RequestTopicURL'' ''request-topic-url''"

definition get_request_subscription_url :: "settings \<Rightarrow> string res" where
  "get_request_subscription_url S =
     get_string_config_value S ''SCORECARD_REQUEST_SUBSCRIPTION_URL'' ''RequestSubscriptionURL'' ''request-subscription-url''"

definition get_big_query_dataset :: "settings \<Rightarrow> string res" where
  "get_big_query_dataset S =
     get_string_config_value S ''SCORECARD_BIGQUERY_DATASET'' ''BigQueryDataset'' ''bigquery-dataset''"

definition get_big_query_table :: "settings \<Rightarrow> string res" where
  "get_big_query_table S =
     get_string_config_value S ''SCORECARD_BIGQUERY_TABLE'' ''BigQueryTable'' ''bigquery-table''"

definition get_completion_threshold :: "settings \<Rightarrow> float64 res" where
  "get_completion_threshold S =
     get_float64_config_value S ''SCORECARD_COMPLETION_THRESHOLD'' ''CompletionThreshold'' ''completion-threshold''"

definition get_raw_big_query_table :: "settings \<Rightarrow> string res" where
  "get_raw_big_query_table S = get_scorecard_param S ''raw-bigquery-table''"

definition get_raw_result_data_bucket_url :: "settings \<Rightarrow> string res" where
  "get_raw_result_data_bucket_url S = get_scorecard_param S ''raw-result-data-bucket-url''"

definition get_shard_size :: "settings \<Rightarrow> int res" where
  "get_shard_size S = get_int_config_value S ''SCORECARD_SHARD_SIZE'' ''ShardSize'' ''shard-size''"

definition or_empty :: "string res \<Rightarrow> string res" where
  "or_empty r = (case r of Inl e \<Rightarrow> if errors_is ''config value set to empty'' e then Inr [] else Inl e | Inr v \<Rightarrow> Inr v)"

definition get_webhook_url :: "settings \<Rightarrow> string res" where
  "get_webhook_url S = or_empty (get_string_config_value S ''SCORECARD_WEBHOOK_URL'' ''WebhookURL'' ''webhook-url'')"

definition get_cii_data_bucket_url :: "settings \<Rightarrow> string res" where
  "get_cii_data_bucket_url S = get_scorecard_param S ''cii-data-bucket-url''"

definition get_blacklisted_checks :: "settings \<Rightarrow> string list res" where
  "get_blacklisted_checks S =
     (case get_scorecard_param S ''blacklisted-checks'' of Inl e \<Rightarrow> Inl e | Inr checks \<Rightarrow> Inr (split_on CHR '','' checks))"

definition get_metric_exporter :: "settings \<Rightarrow> string res" where
  "get_metric_exporter S =
     get_string_config_value S ''SCORECARD_METRIC_EXPORTER'' ''MetricExporter'' ''metric-exporter''"

definition get_metric_stackdriver_prefix :: "settings \<Rightarrow> string res" where
  "get_metric_stackdriver_prefix S =
     get_string_config_value S ''SCORECARD_METRIC_STACKDRIVER_PREFIX'' ''MetricStackdriverPrefix'' ''metric-stackdriver-prefix''"

definition get_api_results_bucket_url :: "settings \<Rightarrow> string res" where
  "get_api_results_bucket_url S = get_scorecard_param S ''api-results-bucket-url''"

definition get_input_bucket_url :: "settings \<Rightarrow> string res" where
  "get_input_bucket_url S =
     (case get_additional_params S ''input-bucket'' of
        Inl e \<Rightarrow> get_string_config_value S ''SCORECARD_INPUT_BUCKET_URL'' ''InputBucketURL'' ''input-bucket-url''
      | Inr m \<Rightarrow>
          (case m ''url'' of
             None \<Rightarrow> get_string_config_value S ''SCORECARD_INPUT_BUCKET_URL'' ''InputBucketURL'' ''input-bucket-url''
           | Some u \<Rightarrow> Inr u))"

definition get_input_bucket_prefix :: "settings \<Rightarrow> string res" where
  "get_input_bucket_prefix S =
     (case get_additional_params S ''input-bucket'' of
        Inl e \<Rightarrow>
          or_empty (get_string_config_value S ''SCORECARD_INPUT_BUCKET_PREFIX'' ''InputBucketPrefix'' ''input-bucket-prefix'')
      | Inr m \<Rightarrow> Inr (map_index m ''prefix''))"

definition get_input_bucket_prefix_file :: "settings \<Rightarrow> string res" where
  "get_input_bucket_prefix_file S =
     (case get_additional_params S ''input-bucket'' of
        Inl e \<Rightarrow> Inl (errorf [L ''getting config for input-bucket: '', W e])
      | Inr m \<Rightarrow> Inr (map_index m ''prefix-file''))"

definition get_api_base_url :: "settings \<Rightarrow> string res" where
  "get_api_base_url S = get_scorecard_param S ''api-base-url''"

section \<open>Lemmas\<close>

definition no_such_field :: "err \<Rightarrow> bool" where "no_such_field e \<longleftrightarrow> errors_is ''no such field on config struct'' e"

definition ill_typed :: "err \<Rightarrow> bool" where "ill_typed e \<longleftrightarrow> errors_is ''unexpected type, cannot convert value'' e"

definition mistaken :: "err \<Rightarrow> bool" where "mistaken e \<longleftrightarrow> no_such_field e \<or> ill_typed e"

lemma mistaken_errorf: "mistaken (errorf ps) \<longleftrightarrow> list_ex (\<lambda>p. list_ex mistaken (part_errs p)) ps"
  by (induction ps) (auto simp: mistaken_def no_such_field_def ill_typed_def list_ex_iff)

lemma mistaken_sentinels [simp]:
  "mistaken ErrNoSuchConfigField" "mistaken ErrValueConversion" "\<not> mistaken ErrEmptyConfigValue" "\<not> mistaken (atoi_error s)"
  by (simp_all add: mistaken_def no_such_field_def ill_typed_def ErrNoSuchConfigField_def ErrValueConversion_def
      ErrEmptyConfigValue_def atoi_error_def)

text \<open>The decoders do not report the errors of this package.\<close>

definition plain_decoders :: "settings \<Rightarrow> bool" where
  "plain_decoders S \<longleftrightarrow> (\<forall>y e. st_unmarshal S y = Inl e \<longrightarrow> \<not> mistaken e) \<and>
     (\<forall>y e. st_parse_float S y = Inl e \<longrightarrow> \<not> mistaken e)"

lemma config_value_kind:
  assumes "plain_decoders S" "\<And>c. \<exists>x. config_field c field = Some (C x)"
  shows "case get_config_value S var field of Inl e \<Rightarrow> \<not> mistaken e | Inr v \<Rightarrow> (\<exists>s. v = VString s) \<or> (\<exists>x. v = C x)"
proof (cases "st_lookup_env S var")
  case None
  show ?thesis
  proof (cases "st_unmarshal S (st_config_yaml S)")
    case (Inl e)
    then have "\<not> mistaken e" using assms(1) by (auto simp: plain_decoders_def)
    with None Inl show ?thesis
      by (simp add: get_config_value_def get_reflected_value_def get_parsed_config_def mistaken_errorf)
  next
    case (Inr c)
    obtain x where "config_field c field = Some (C x)" using assms(2) by blast
    with None Inr show ?thesis
      by (auto simp: get_config_value_def get_reflected_value_def get_parsed_config_def)
  qed
qed (simp add: get_config_value_def)

lemma string_getter:
  assumes "plain_decoders S" "\<And>c. \<exists>v. config_field c field = Some (VString v)"
    and "get_string_config_value S var field name = Inl e"
  shows "\<not> mistaken e"
  using config_value_kind [OF assms(1,2), of var] assms(3)
  by (auto simp: get_string_config_value_def config_value_error_def mistaken_errorf split: sum.splits if_splits)

lemma int_getter:
  assumes "plain_decoders S" "\<And>c. \<exists>v. config_field c field = Some (VInt v)"
    and "get_int_config_value S var field name = Inl e"
  shows "\<not> mistaken e"
  using config_value_kind [OF assms(1,2), of var] assms(3)
  by (auto simp: get_int_config_value_def config_value_error_def mistaken_errorf split: sum.splits option.splits)

lemma float_getter:
  assumes "plain_decoders S" "\<And>c. \<exists>v. config_field c field = Some (VFloat v)"
    and "get_float64_config_value S var field name = Inl e"
  shows "\<not> mistaken e"
  using config_value_kind [OF assms(1,2), of var] assms(1,3)
  by (auto simp: get_float64_config_value_def config_value_error_def mistaken_errorf plain_decoders_def split: sum.splits)

lemma params_getter:
  assumes "plain_decoders S" "get_additional_params S sub = Inl e"
  shows "\<not> no_such_field e"
proof -
  have "config_field c ''AdditionalParams'' = Some (VMap (cf_additional_params c))" for c by (simp add: config_field_def)
  then show ?thesis
    using assms
    by (auto simp: get_additional_params_def get_map_config_value_def get_reflected_value_def get_parsed_config_def
        config_value_error_def conversion_error_def plain_decoders_def mistaken_def no_such_field_def
        ErrValueConversion_def split: sum.splits option.splits)
qed

lemma or_empty_Inl: "or_empty r = Inl e \<Longrightarrow> r = Inl e"
  by (auto simp: or_empty_def split: sum.splits if_splits)

definition never :: "(err \<Rightarrow> bool) \<Rightarrow> 'a res \<Rightarrow> bool" where
  "never P r \<longleftrightarrow> (\<forall>e. r = Inl e \<longrightarrow> \<not> P e)"

lemma never_mono: "never mistaken r \<Longrightarrow> never no_such_field r"
  by (auto simp: never_def mistaken_def)

lemma never_string:
  "plain_decoders S \<Longrightarrow> (\<And>c. \<exists>v. config_field c field = Some (VString v)) \<Longrightarrow>
   never mistaken (get_string_config_value S var field name)"
  unfolding never_def by (intro allI impI) (rule string_getter)

lemma never_or_empty: "never P r \<Longrightarrow> never P (or_empty r)"
  using or_empty_Inl by (fastforce simp: never_def)

lemma never_param: "plain_decoders S \<Longrightarrow> never no_such_field (get_scorecard_param S k)"
  using params_getter [of S "''scorecard''"]
  by (auto simp: never_def get_scorecard_param_def get_scorecard_values_def split: sum.splits)


definition example_settings :: settings where
  "example_settings = \<lparr>st_lookup_env = [''SCORECARD_SHARD_SIZE'' \<mapsto> ''ten''], st_config_yaml = ''not yaml'',
     st_unmarshal = (\<lambda>y. Inl (Sentinel ''yaml: unmarshal errors'')), st_parse_float = (\<lambda>s. Inr (0, 0))\<rparr>"


text \<open>
   A scorecard parameter is what the file gives for its key, unless the variable of that
  key is set; a key the file does not have is the empty string, and no variable changes that.
\<close>

theorem scorecard_param_sources:
  "get_scorecard_param S k = Inr v \<longleftrightarrow>
     (\<exists>c sub. st_unmarshal S (st_config_yaml S) = Inr c \<and> cf_additional_params c ''scorecard'' = Some sub \<and>
        v = (case sub k of None \<Rightarrow> []
             | Some x \<Rightarrow> (case st_lookup_env S (env_var_name ''scorecard'' k) of None \<Rightarrow> x | Some y \<Rightarrow> y)))"
  by (auto simp: get_scorecard_param_def get_scorecard_values_def get_additional_params_def get_map_config_value_def
      get_reflected_value_def get_parsed_config_def config_field_def map_index_def split: sum.splits option.splits)

end
