(* ===== verification/Controller.thy ===== *)
theory Controller
  imports RepoWriter BucketSummary CronConfig
begin

text \<open>
  \<open>cron/internal/controller\<close> and \<open>cron/internal/pubsub/publisher.go\<close>: the job that splits the
  lists of repositories into batch requests, publishes them, and records how many there are.
\<close>

section \<open>Requests\<close>

record batch_repo =
  br_url :: string
  br_commit :: string
  br_metadata :: "string list"

record batch_request =
  bt_job_time :: civil
  bt_shard_num :: int
  bt_repos :: "batch_repo list"

definition head_sha :: string where "head_sha = ''HEAD''"

section \<open>The publisher\<close>

text \<open>
  Each message is sent by a goroutine of its own; \<open>Close\<close> waits for all of them and counts the
  failures, in whatever order they happened.  \<open>send i\<close> is what becomes of the \<open>i\<close>th message.
\<close>

record publisher =
  pb_messages :: "string list"

definition publish_error :: "nat \<Rightarrow> err" where
  "publish_error n = Typed ''publishError'' (''total errors when publishing: '' @ itoa (int n)) []"

definition publish :: "(batch_request \<Rightarrow> string res) \<Rightarrow> publisher \<Rightarrow> batch_request \<Rightarrow> err option \<times> publisher" where
  "publish marshal p request =
     (case marshal request of
        Inl e \<Rightarrow> (Some (errorf [L ''error from protojson.Marshal: '', W e]), p)
      | Inr msg \<Rightarrow> (None, p\<lparr>pb_messages := pb_messages p @ [msg]\<rparr>))"

definition send_failures :: "(nat \<Rightarrow> err option) \<Rightarrow> publisher \<Rightarrow> nat" where
  "send_failures send p = length (filter (\<lambda>i. send i \<noteq> None) [0 ..< length (pb_messages p)])"

definition publisher_close :: "(nat \<Rightarrow> err option) \<Rightarrow> publisher \<Rightarrow> err option" where
  "publisher_close send p = (if 0 < send_failures send p then Some (publish_error (send_failures send p)) else None)"

definition create_publisher :: "(string \<Rightarrow> err option) \<Rightarrow> string \<Rightarrow> publisher res" where
  "create_publisher open_topic topicURL =
     (case open_topic topicURL of
        Some e \<Rightarrow> Inl (errorf [L ''error from pubsub.OpenTopic: '', W e])
      | None \<Rightarrow> Inr \<lparr>pb_messages = []\<rparr>)"

section \<open>Publishing batches\<close>

record publish_state =
  ps_repos :: "batch_repo list"
  ps_shard_num :: int
  ps_pub :: publisher

definition request_repo :: "repo_format \<Rightarrow> batch_repo" where
  "request_repo repoURL = \<lparr>br_url = rp_repo repoURL, br_commit = head_sha, br_metadata = to_string (rp_metadata repoURL)\<rparr>"

definition publish_failed :: "err \<Rightarrow> err" where
  "publish_failed e = errorf [L ''error running topicPublisher.Publish: '', W e]"

definition publish_body ::
  "(batch_request \<Rightarrow> string res) \<Rightarrow> int \<Rightarrow> civil \<Rightarrow> repo_format \<Rightarrow> publish_state \<Rightarrow>
   ((int \<times> err) \<times> publisher) + publish_state" where
  "publish_body marshal shardSize datetime repoURL st =
     (let repos = ps_repos st @ [request_repo repoURL]
      in if int (length repos) < shardSize then Inr (st\<lparr>ps_repos := repos\<rparr>)
         else (case publish marshal (ps_pub st)
               \<lparr>bt_job_time = datetime, bt_shard_num = ps_shard_num st, bt_repos = repos\<rparr> of
             (Some e, p) \<Rightarrow> Inl ((ps_shard_num st, publish_failed e), p)
           | (None, p) \<Rightarrow> Inr \<lparr>ps_repos = [], ps_shard_num = i32 (ps_shard_num st + 1), ps_pub = p\<rparr>))"

definition finish_publishing ::
  "(batch_request \<Rightarrow> string res) \<Rightarrow> (nat \<Rightarrow> err option) \<Rightarrow> civil \<Rightarrow> publish_state \<Rightarrow> (int \<times> err option) \<times> publisher" where
  "finish_publishing marshal send datetime st =
     (let close = (\<lambda>n p. ((n, map_option (\<lambda>e. errorf [L ''error running topicPublisher.Close: '', W e])
            (publisher_close send p)), p))
      in if 0 < length (ps_repos st) then
           (case publish marshal (ps_pub st)
                \<lparr>bt_job_time = datetime, bt_shard_num = ps_shard_num st, bt_repos = ps_repos st\<rparr> of
              (Some e, p) \<Rightarrow> ((ps_shard_num st, Some (publish_failed e)), p)
            | (None, p) \<Rightarrow> close (ps_shard_num st) p)
         else close (i32 (ps_shard_num st - 1)) (ps_pub st))"

definition publish_to_repo_request_topic ::
  "(batch_request \<Rightarrow> string res) \<Rightarrow> (nat \<Rightarrow> err option) \<Rightarrow> 'i iterator \<Rightarrow> 'i \<Rightarrow> publisher \<Rightarrow> int \<Rightarrow> civil \<Rightarrow>
   ((int \<times> err option) \<times> publisher) outcome option" where
  "publish_to_repo_request_topic marshal send I iter p shardSize datetime =
     map_option (\<lambda>r. case r of
         Panic m \<Rightarrow> Panic m
       | Ret (ReadError e st) \<Rightarrow>
           Ret ((ps_shard_num st, Some (errorf [L ''error reading repoURL: '', W e])), ps_pub st)
       | Ret (Left ((n, e), p)) \<Rightarrow> Ret ((n, Some e), p)
       | Ret (Finished st) \<Rightarrow> Ret (finish_publishing marshal send datetime st))
       (for_each I (publish_body marshal shardSize datetime) iter
          \<lparr>ps_repos = [], ps_shard_num = 0, ps_pub = p\<rparr>)"

section \<open>The batches\<close>

definition batch :: "nat \<Rightarrow> 'a list \<Rightarrow> nat \<Rightarrow> 'a list" where
  "batch n xs i = take n (drop (i * n) xs)"

definition batches :: "nat \<Rightarrow> 'a list \<Rightarrow> nat" where
  "batches n xs = (length xs + n - 1) div n"

definition batch_message :: "(batch_request \<Rightarrow> string) \<Rightarrow> civil \<Rightarrow> nat \<Rightarrow> repo_format list \<Rightarrow> nat \<Rightarrow> string" where
  "batch_message enc datetime n rows i =
     enc \<lparr>bt_job_time = datetime, bt_shard_num = int i, bt_repos = map request_repo (batch n rows i)\<rparr>"

lemma batch_append: "(i + 1) * n \<le> length xs \<Longrightarrow> batch n (xs @ ys) i = batch n xs i"
  by (simp add: batch_def)

lemma take_batches: "concat (map (batch n xs) [0 ..< k]) = take (k * n) xs"
proof (induction k)
  case (Suc k)
  have "take (n + k * n) xs = take (k * n) xs @ take n (drop (k * n) xs)" by (metis add.commute take_add)
  with Suc show ?case by (simp add: batch_def)
qed simp

lemma batches_bounds:
  assumes "0 < n"
  shows "length xs \<le> batches n xs * n" and "i < batches n xs \<Longrightarrow> i * n < length xs"
proof -
  obtain r where r: "length xs + n - 1 = batches n xs * n + r" "r < n"
    using assms by (metis batches_def div_mult_mod_eq mod_less_divisor)
  then show "length xs \<le> batches n xs * n" by linarith
  assume "i < batches n xs"
  then have "(i + 1) * n \<le> batches n xs * n" by (intro mult_le_mono1) simp
  with r assms show "i * n < length xs" by simp
qed

lemma batches_cover:
  assumes "0 < n"
  shows "concat (map (batch n xs) [0 ..< batches n xs]) = xs"
    and "i < batches n xs \<Longrightarrow> 0 < length (batch n xs i) \<and> length (batch n xs i) \<le> n \<and>
      (i + 1 < batches n xs \<longrightarrow> length (batch n xs i) = n)"
proof -
  show "concat (map (batch n xs) [0 ..< batches n xs]) = xs"
    using batches_bounds(1) [OF assms, of xs] by (simp add: take_batches)
  assume "i < batches n xs"
  with batches_bounds(2) [OF assms, of i xs] batches_bounds(2) [OF assms, of "i + 1" xs] assms
  show "0 < length (batch n xs i) \<and> length (batch n xs i) \<le> n \<and>
      (i + 1 < batches n xs \<longrightarrow> length (batch n xs i) = n)"
    by (auto simp: batch_def)
qed

text \<open>After the rows \<open>pre\<close>: the full batches are published, the rest is pending.\<close>

definition publishing ::
  "(batch_request \<Rightarrow> string) \<Rightarrow> civil \<Rightarrow> nat \<Rightarrow> repo_format list \<Rightarrow> publish_state \<Rightarrow> bool" where
  "publishing enc datetime n pre st \<longleftrightarrow>
     ps_repos st = map request_repo (drop (length pre div n * n) pre) \<and>
     ps_shard_num st = int (length pre div n) \<and>
     ps_pub st = \<lparr>pb_messages = map (batch_message enc datetime n pre) [0 ..< length pre div n]\<rparr>"

lemma publishing_step:
  assumes P: "publishing enc datetime n pre st" and n: "n = max 1 (nat shardSize)" and len: "length pre + 1 < 2 ^ 31"
  shows "\<exists>st'. publish_body (\<lambda>r. Inr (enc r)) shardSize datetime row st = Inr st' \<and>
    publishing enc datetime n (pre @ [row]) st'"
proof -
  have n0: "0 < n" using n by simp
  define j m where "j = length pre div n" and "m = length pre mod n"
  have jn: "length pre = j * n + m" "m < n" using n0 by (simp_all add: j_def m_def)
  have st: "ps_repos st = map request_repo (drop (j * n) pre)" "ps_shard_num st = int j"
    "ps_pub st = \<lparr>pb_messages = map (batch_message enc datetime n pre) [0 ..< j]\<rparr>"
    using P by (simp_all add: publishing_def j_def)
  have old: "map (batch_message enc datetime n (pre @ [row])) [0 ..< j] = map (batch_message enc datetime n pre) [0 ..< j]"
  proof (rule map_cong)
    fix i assume "i \<in> set [0 ..< j]"
    then have "(i + 1) * n \<le> j * n" by (intro mult_le_mono1) simp
    then have "(i + 1) * n \<le> length pre" using jn by simp
    then show "batch_message enc datetime n (pre @ [row]) i = batch_message enc datetime n pre i"
      by (simp only: batch_message_def batch_append)
  qed simp
  have repos: "ps_repos st @ [request_repo row] = map request_repo (drop (j * n) (pre @ [row]))"
    using st(1) jn by simp
  have len': "length (drop (j * n) (pre @ [row])) = m + 1" using jn by simp
  show ?thesis
  proof (cases "m + 1 < n")
    case True
    have d: "length (pre @ [row]) div n = j"
      using True jn(1) by (intro div_nat_eqI) simp_all
    have "int (m + 1) < shardSize" using True n by (auto simp: max_def split: if_splits)
    then have "int (length (map request_repo (drop (j * n) (pre @ [row])))) < shardSize"
      by (simp only: length_map len')
    then have "publish_body (\<lambda>r. Inr (enc r)) shardSize datetime row st =
        Inr (st\<lparr>ps_repos := map request_repo (drop (j * n) (pre @ [row]))\<rparr>)"
      by (simp only: publish_body_def repos Let_def if_True)
    moreover have "publishing enc datetime n (pre @ [row]) (st\<lparr>ps_repos := map request_repo (drop (j * n) (pre @ [row]))\<rparr>)"
      unfolding publishing_def d by (simp add: st old)
    ultimately show ?thesis by blast
  next
    case False
    then have m: "m + 1 = n" using jn(2) by simp
    then have "length (pre @ [row]) = (j + 1) * n" using jn(1) by simp
    then have d: "length (pre @ [row]) div n = j + 1" using n0 by (metis nonzero_mult_div_cancel_right not_gr_zero)
    have b: "batch n (pre @ [row]) j = drop (j * n) (pre @ [row])" using len' m by (simp add: batch_def)
    have "\<not> int (m + 1) < shardSize" using m n by (auto simp: max_def split: if_splits)
    then have full: "\<not> int (length (map request_repo (drop (j * n) (pre @ [row])))) < shardSize"
      by (simp only: length_map len' not_False_eq_True)
    have "j * 1 \<le> j * n" using n0 by (intro mult_le_mono2) simp
    then have "j + 1 < 2 ^ 31" using len jn(1) by linarith
    then have i: "i32 (int j + 1) = int (j + 1)" by (simp add: i32_between)
    have "publish_body (\<lambda>r. Inr (enc r)) shardSize datetime row st =
        Inr \<lparr>ps_repos = [], ps_shard_num = int (j + 1),
          ps_pub = \<lparr>pb_messages = map (batch_message enc datetime n (pre @ [row])) [0 ..< j + 1]\<rparr>\<rparr>"
      by (simp only: publish_body_def repos Let_def full if_False publish_def sum.case st(2,3) i prod.case option.case)
        (simp add: old b batch_message_def)
    moreover have "drop ((j + 1) * n) (pre @ [row]) = []" using jn(1) m by simp
    ultimately show ?thesis by (simp only: publishing_def d) simp
  qed
qed

lemma publish_rows:
  assumes n: "n = max 1 (nat shardSize)" and len: "length rows < 2 ^ 31"
  shows "\<exists>st. run_rows (publish_body (\<lambda>r. Inr (enc r)) shardSize datetime) rows e
      \<lparr>ps_repos = [], ps_shard_num = 0, ps_pub = \<lparr>pb_messages = []\<rparr>\<rparr> =
        (case e of None \<Rightarrow> Finished st | Some e \<Rightarrow> ReadError e st) \<and>
    publishing enc datetime n rows st"
proof -
  have "\<exists>st'. run_rows (publish_body (\<lambda>r. Inr (enc r)) shardSize datetime) rs e st =
        (case e of None \<Rightarrow> Finished st' | Some e \<Rightarrow> ReadError e st') \<and> publishing enc datetime n (pre @ rs) st'"
    if "publishing enc datetime n pre st" "length (pre @ rs) < 2 ^ 31" for pre rs st
    using that
  proof (induction rs arbitrary: pre st)
    case Nil
    then show ?case by (cases e) auto
  next
    case (Cons r rs)
    then have "length pre + 1 < 2 ^ 31" by simp
    from publishing_step [OF Cons.prems(1) n this, of r] obtain st' where
      "publish_body (\<lambda>r. Inr (enc r)) shardSize datetime r st = Inr st'" "publishing enc datetime n (pre @ [r]) st'" by blast
    with Cons.IH [of "pre @ [r]" st'] Cons.prems(2) show ?case by simp
  qed
  from this [of "[]" "\<lparr>ps_repos = [], ps_shard_num = 0, ps_pub = \<lparr>pb_messages = []\<rparr>\<rparr>" rows] len
  show ?thesis by (simp add: publishing_def)
qed

lemma finish_publishing_batches:
  assumes P: "publishing enc datetime n rows st" and n0: "0 < n" and len: "length rows < 2 ^ 31"
  shows "finish_publishing (\<lambda>r. Inr (enc r)) send datetime st =
    (let k = batches n rows;
         p = \<lparr>pb_messages = map (batch_message enc datetime n rows) [0 ..< k]\<rparr>
     in ((int k - 1, map_option (\<lambda>e. errorf [L ''error running topicPublisher.Close: '', W e]) (publisher_close send p)), p))"
proof -
  define j m where "j = length rows div n" and "m = length rows mod n"
  have jn: "length rows = j * n + m" "m < n" using n0 by (simp_all add: j_def m_def)
  have st: "ps_repos st = map request_repo (drop (j * n) rows)" "ps_shard_num st = int j"
    "ps_pub st = \<lparr>pb_messages = map (batch_message enc datetime n rows) [0 ..< j]\<rparr>"
    using P by (simp_all add: publishing_def j_def)
  define q where "q = j * n"
  have c: "n * j = q" "n * Suc j = q + n" "n * Suc (Suc j) = q + n + n" "length rows = q + m"
    using jn(1) by (simp_all add: q_def)
  show ?thesis
  proof (cases "m = 0")
    case True
    have k: "batches n rows = j"
      unfolding batches_def
    proof (rule div_nat_eqI)
      show "n * j \<le> length rows + n - 1" unfolding c using n0 by simp
      show "length rows + n - 1 < n * Suc j" unfolding c using n0 True by simp
    qed
    have "j * 1 \<le> j * n" using n0 by (intro mult_le_mono2) simp
    then have "j < 2 ^ 31" using len jn(1) by linarith
    then have "i32 (int j - 1) = int j - 1" by (intro i32_between) simp_all
    moreover have "ps_repos st = []" using st(1) jn(1) True by simp
    ultimately show ?thesis by (simp add: finish_publishing_def Let_def k st(2,3))
  next
    case False
    have k: "batches n rows = j + 1"
      unfolding batches_def Suc_eq_plus1 [symmetric]
    proof (rule div_nat_eqI)
      show "n * Suc j \<le> length rows + n - 1" unfolding c using False by simp
      show "length rows + n - 1 < n * Suc (Suc j)" unfolding c using jn(2) by simp
    qed
    have b: "batch n rows j = drop (j * n) rows" using jn by (simp add: batch_def)
    have "0 < length (ps_repos st)" using st(1) jn(1) False by simp
    then show ?thesis
      by (simp only: finish_publishing_def Let_def if_True publish_def sum.case st prod.case option.case k)
        (simp add: batch_message_def b)
  qed
qed

text \<open>What publishing the contents of a list of files comes to.\<close>

lemma publish_content:
  assumes n: "n = max 1 (nat shardSize)"
    and content: "chain_contents (map (\<lambda>ds. decoded_content K (drop_header ds)) dss) = (rows, e)"
    and len: "length rows < 2 ^ 31"
  shows "\<exists>st. publishing enc datetime n rows st \<and>
    publish_to_repo_request_topic (\<lambda>r. Inr (enc r)) send (nested_methods (csv_methods K))
        (make_nested_iterator (map make_iterator_from dss)) \<lparr>pb_messages = []\<rparr> shardSize datetime =
      Some (Ret (case e of
          None \<Rightarrow> finish_publishing (\<lambda>r. Inr (enc r)) send datetime st
        | Some e \<Rightarrow> ((ps_shard_num st, Some (errorf [L ''error reading repoURL: '', W e])), ps_pub st)))"
proof -
  from publish_rows [OF n len] obtain st where
    "run_rows (publish_body (\<lambda>r. Inr (enc r)) shardSize datetime) rows e
      \<lparr>ps_repos = [], ps_shard_num = 0, ps_pub = \<lparr>pb_messages = []\<rparr>\<rparr> =
        (case e of None \<Rightarrow> Finished st | Some e \<Rightarrow> ReadError e st)" "publishing enc datetime n rows st" by blast
  then show ?thesis
    by (intro exI [of _ st]) (simp add: publish_to_repo_request_topic_def
        nested.for_each_content [OF nested_start(1)] nested_start(2) content split: option.split)
qed



section \<open>Where the lists come from\<close>

definition get_prefix :: "'s object_store \<Rightarrow> settings \<Rightarrow> 's \<Rightarrow> string \<Rightarrow> string res" where
  "get_prefix B S st bucket =
     (case get_input_bucket_prefix S of
        Inl e \<Rightarrow> Inl (errorf [L ''config.GetInputBucketPrefix: '', W e])
      | Inr pfx \<Rightarrow>
          if pfx \<noteq> [] then Inr pfx
          else (case get_input_bucket_prefix_file S of
              Inl e \<Rightarrow> Inl (errorf [L ''config.GetInputBucketPrefixFile: '', W e])
            | Inr prefixFile \<Rightarrow>
                if prefixFile = [] then Inr []
                else (case get_blob_content B st bucket prefixFile of
                    Inl e \<Rightarrow> Inl (errorf [L ''fetching contents of prefix-file: '', W e])
                  | Inr b \<Rightarrow> Inr (trim_space b))))"

text \<open>
  \<open>decode\<close> is what \<open>encoding/csv\<close> and \<open>csvutil\<close> make of a text; \<open>open_file\<close> also opens the file.
\<close>

fun read_objects ::
  "'s object_store \<Rightarrow> (string \<Rightarrow> decoded list) \<Rightarrow> 's \<Rightarrow> string \<Rightarrow> string list \<Rightarrow> csv_iterator list res" where
  "read_objects B decode st bucket [] = Inr []"
| "read_objects B decode st bucket (f # fs) =
     (case get_blob_content B st bucket f of
        Inl e \<Rightarrow> Inl (errorf [L ''data.GetBlobContent: '', W e])
      | Inr b \<Rightarrow>
          (case read_objects B decode st bucket fs of
             Inl e \<Rightarrow> Inl e
           | Inr iters \<Rightarrow> Inr (make_iterator_from (decode b) # iters)))"

definition bucket_files ::
  "'s object_store \<Rightarrow> (string \<Rightarrow> decoded list) \<Rightarrow> settings \<Rightarrow> 's \<Rightarrow> csv_iterator nested_iterator res" where
  "bucket_files B decode S st =
     (case get_input_bucket_url S of
        Inl e \<Rightarrow> Inl (errorf [L ''config.GetInputBucketURL: '', W e])
      | Inr bucket \<Rightarrow>
          (case get_prefix B S st bucket of
             Inl e \<Rightarrow> Inl (errorf [L ''getPrefix: '', W e])
           | Inr pfx \<Rightarrow>
               (case get_blob_keys_with_prefix B st bucket pfx of
                  Inl e \<Rightarrow> Inl (errorf [L ''data.GetBlobKeysWithPrefix: '', W e])
                | Inr files \<Rightarrow>
                    (case read_objects B decode st bucket files of
                       Inl e \<Rightarrow> Inl e
                     | Inr iters \<Rightarrow> Inr (make_nested_iterator iters)))))"

fun open_files :: "(string \<Rightarrow> decoded list res) \<Rightarrow> string list \<Rightarrow> csv_iterator list res" where
  "open_files open_file [] = Inr []"
| "open_files open_file (f # fs) =
     (case open_file f of
        Inl e \<Rightarrow> Inl (errorf [L ''unable to open input file: '', W e])
      | Inr ds \<Rightarrow>
          (case open_files open_file fs of
             Inl e \<Rightarrow> Inl e
           | Inr iters \<Rightarrow> Inr (make_iterator_from ds # iters)))"

definition local_files :: "(string \<Rightarrow> decoded list res) \<Rightarrow> string list \<Rightarrow> csv_iterator nested_iterator res" where
  "local_files open_file filenames =
     (case open_files open_file filenames of Inl e \<Rightarrow> Inl e | Inr iters \<Rightarrow> Inr (make_nested_iterator iters))"

section \<open>The program\<close>

record 's controller_env =
  kn_store :: "'s object_store"
  kn_read_file :: "string \<Rightarrow> string \<times> err option"
  kn_config_file :: string
  kn_open_topic :: "string \<Rightarrow> err option"
  kn_send :: "nat \<Rightarrow> err option"
  kn_marshal :: "batch_request \<Rightarrow> string res"
  kn_marshal_metadata :: "shard_metadata \<Rightarrow> string res"
  kn_open_file :: "string \<Rightarrow> decoded list res"
  kn_decode :: "string \<Rightarrow> decoded list"
  kn_kinds :: repo_kinds
  kn_git_commit :: string

definition write_shard_metadata ::
  "'s controller_env \<Rightarrow> 's \<Rightarrow> string \<Rightarrow> string \<Rightarrow> civil \<Rightarrow> int \<Rightarrow> unit outcome \<times> 's" where
  "write_shard_metadata E st kind bucket t numShard =
     (case kn_marshal_metadata E \<lparr>sm_shard_loc = Some (bucket @ ''/'' @ get_blob_filename [] t),
          sm_num_shard = Some numShard, sm_commit_sha = Some (kn_git_commit E)\<rparr> of
        Inl e \<Rightarrow> (Panic (''error during protojson.Marshal'' @ kind @ '': '' @ err_text e), st)
      | Inr metadataJSON \<Rightarrow>
          (case write_to_blob_store (kn_store E) st bucket (get_shard_metadata_filename t) metadataJSON of
             (Some e, st') \<Rightarrow> (Panic (''error writing to BlobStore'' @ kind @ '': '' @ err_text e), st')
           | (None, st') \<Rightarrow> (Ret (), st')))"

definition write_all_metadata ::
  "'s controller_env \<Rightarrow> 's \<Rightarrow> string \<Rightarrow> string \<Rightarrow> civil \<Rightarrow> int \<Rightarrow> unit outcome \<times> 's" where
  "write_all_metadata E st bucket rawBucket t shardNum =
     (case write_shard_metadata E st [] bucket t (i32 (shardNum + 1)) of
        (Panic m, st1) \<Rightarrow> (Panic m, st1)
      | (Ret u, st1) \<Rightarrow>
          if rawBucket \<noteq> [] then write_shard_metadata E st1 '' raw'' rawBucket t (i32 (shardNum + 1))
          else (Ret (), st1))"

definition publish_and_record ::
  "'s controller_env \<Rightarrow> 's \<Rightarrow> csv_iterator nested_iterator \<Rightarrow> publisher \<Rightarrow> int \<Rightarrow> string \<Rightarrow> string \<Rightarrow> civil \<Rightarrow>
   (unit outcome \<times> 's \<times> publisher) option" where
  "publish_and_record E st reader topicPublisher shardSize bucket rawBucket t =
     map_option (\<lambda>r. case r of
         Panic m \<Rightarrow> (Panic m, st, topicPublisher)
       | Ret ((shardNum, Some e), p) \<Rightarrow> (Panic (err_text e), st, p)
       | Ret ((shardNum, None), p) \<Rightarrow>
           (case write_all_metadata E st bucket rawBucket t shardNum of (r, st') \<Rightarrow> (r, st', p)))
       (publish_to_repo_request_topic (kn_marshal E) (kn_send E) (nested_methods (csv_methods (kn_kinds E))) reader
          topicPublisher shardSize t)"

text \<open>The checks of \<open>main\<close> in their order; the first error is a panic, before anything is published.\<close>

definition controller_setup ::
  "'s controller_env \<Rightarrow> settings \<Rightarrow> string list \<Rightarrow> 's \<Rightarrow>
   (csv_iterator nested_iterator \<times> publisher \<times> int \<times> string \<times> string) res" where
  "controller_setup E S0 args st =
     (case read_config (kn_read_file E) (kn_config_file E) S0 of
        (Some e, S) \<Rightarrow> Inl e
      | (None, S) \<Rightarrow>
          bind_res (get_request_topic_url S) (\<lambda>topic.
          bind_res (create_publisher (kn_open_topic E) topic) (\<lambda>topicPublisher.
          bind_res (get_shard_size S) (\<lambda>shardSize.
          bind_res (get_result_data_bucket_url S) (\<lambda>bucket.
          bind_res (get_raw_result_data_bucket_url S) (\<lambda>rawBucket.
          bind_res (if args \<noteq> [] then local_files (kn_open_file E) args
                    else bucket_files (kn_store E) (kn_decode E) S st) (\<lambda>reader.
            Inr (reader, topicPublisher, shardSize, bucket, rawBucket))))))))"

definition controller_main ::
  "'s controller_env \<Rightarrow> settings \<Rightarrow> string list \<Rightarrow> civil \<Rightarrow> 's \<Rightarrow> (unit outcome \<times> 's \<times> publisher) option" where
  "controller_main E S args t st =
     (case controller_setup E S args st of
        Inl e \<Rightarrow> Some (Panic (err_text e), st, \<lparr>pb_messages = []\<rparr>)
      | Inr (reader, topicPublisher, shardSize, bucket, rawBucket) \<Rightarrow>
          publish_and_record E st reader topicPublisher shardSize bucket rawBucket t)"

lemma open_files_iterators: "open_files open_file fs = Inr iters \<Longrightarrow> \<exists>dss. iters = map make_iterator_from dss"
  by (induction fs arbitrary: iters) (auto simp: Cons_eq_map_conv split: sum.splits)

lemma read_objects_iterators: "read_objects B decode st bucket fs = Inr iters \<Longrightarrow> \<exists>dss. iters = map make_iterator_from dss"
  by (induction fs arbitrary: iters) (auto simp: Cons_eq_map_conv split: sum.splits)

lemma controller_setup_reader:
  assumes "controller_setup E S args st = Inr (reader, topicPublisher, shardSize, bucket, rawBucket)"
  shows "topicPublisher = \<lparr>pb_messages = []\<rparr> \<and> (\<exists>dss. reader = make_nested_iterator (map make_iterator_from dss))"
  using assms
  by (auto simp: controller_setup_def create_publisher_def local_files_def bucket_files_def
      dest: open_files_iterators read_objects_iterators split: prod.splits option.splits sum.splits if_splits)

text \<open>Whatever the decoder and the publisher do: what a successful publication means.\<close>

lemma publish_body_count:
  fixes pre :: "repo_format list"
  assumes "publish_body marshal shardSize t r st = Inr st'" "length pre < 2 ^ 31 - 1"
    and "ps_shard_num st = int (length (pb_messages (ps_pub st))) \<and> length (pb_messages (ps_pub st)) \<le> length pre"
  shows "ps_shard_num st' = int (length (pb_messages (ps_pub st'))) \<and>
    length (pb_messages (ps_pub st')) \<le> length (pre @ [r])"
proof -
  have "int (length (pb_messages (ps_pub st))) + 1 < 2 ^ 31" using assms(2,3) by simp
  then have "i32 (int (length (pb_messages (ps_pub st))) + 1) = int (length (pb_messages (ps_pub st))) + 1"
    by (simp add: i32_between)
  then show ?thesis
    using assms(1,3) by (auto simp: publish_body_def publish_def Let_def split: if_splits sum.splits)
qed

lemma publish_success:
  assumes pub: "publish_to_repo_request_topic marshal send (nested_methods (csv_methods K))
      (make_nested_iterator (map make_iterator_from dss)) \<lparr>pb_messages = []\<rparr> shardSize t = Some (Ret ((n, None), p))"
    and c: "chain_contents (map (\<lambda>ds. decoded_content K (drop_header ds)) dss) = (rows, e)"
    and len: "length rows < 2 ^ 31 - 1"
  shows "e = None \<and> n = int (length (pb_messages p)) - 1 \<and> (\<forall>i < length (pb_messages p). send i = None) \<and>
    length (pb_messages p) \<le> length rows + 1"
proof -
  let ?st0 = "\<lparr>ps_repos = [], ps_shard_num = 0, ps_pub = \<lparr>pb_messages = []\<rparr>\<rparr>"
  let ?P = "\<lambda>(pre :: repo_format list) st. ps_shard_num st = int (length (pb_messages (ps_pub st))) \<and>
      length (pb_messages (ps_pub st)) \<le> length pre"
  from pub obtain st where run: "run_rows (publish_body marshal shardSize t) rows e ?st0 = Finished st"
    and fin: "finish_publishing marshal send t st = ((n, None), p)"
    by (auto simp: publish_to_repo_request_topic_def nested.for_each_content [OF nested_start(1)] nested_start(2) c
        split: looped.splits)
  have "e = None \<and> (length ([] @ rows) < 2 ^ 31 - 1 \<longrightarrow> ?P ([] @ rows) st)"
  proof (rule run_rows_induct [OF run, where P = "\<lambda>pre st. length pre < 2 ^ 31 - 1 \<longrightarrow> ?P pre st"])
    show "length [] < 2 ^ 31 - 1 \<longrightarrow> ?P [] ?st0" by simp
  next
    fix pre :: "repo_format list" and r s s'
    assume "length pre < 2 ^ 31 - 1 \<longrightarrow> ?P pre s" "publish_body marshal shardSize t r s = Inr s'"
    then show "length (pre @ [r]) < 2 ^ 31 - 1 \<longrightarrow> ?P (pre @ [r]) s'"
      using publish_body_count [of marshal shardSize t r s s' pre] by simp
  qed
  then have P: "e = None" "?P rows st" using len by simp_all
  then have "i32 (int (length (pb_messages (ps_pub st))) - 1) = int (length (pb_messages (ps_pub st))) - 1"
    using len by (intro i32_between) simp_all
  moreover have "publisher_close send p = None"
    using fin by (auto simp: finish_publishing_def Let_def split: if_splits prod.splits option.splits)
  then have "\<forall>i < length (pb_messages p). send i = None"
    by (auto simp: publisher_close_def send_failures_def filter_empty_conv split: if_splits)
  ultimately show ?thesis
    using P fin by (auto simp: finish_publishing_def publish_def Let_def split: if_splits prod.splits option.splits sum.splits)
qed

text \<open>The rows of the inputs of a run.\<close>

definition reader_content :: "repo_kinds \<Rightarrow> csv_iterator nested_iterator \<Rightarrow> contents" where
  "reader_content K reader = nested_content (csv_content K) reader"

lemma write_shard_metadata_Ret:
  assumes "write_shard_metadata E st kind bucket t n = (Ret u, st')" "bucket_model (kn_store E) objs"
  shows "\<exists>md d. kn_marshal_metadata E md = Inr d \<and> sm_num_shard md = Some n \<and>
    objs st' = (objs st)((bucket, get_shard_metadata_filename t) \<mapsto> d)"
  using assms(1) bucket_model.written [OF assms(2)]
  by (auto simp: write_shard_metadata_def split: sum.splits option.splits prod.splits) force

lemma controller_counts:
  assumes begun: "controller_setup E S args st = Inr (reader, pub, shardSize, bucket, rawBucket)"
    and main: "controller_main E S args t st = Some (r, st', p)"
    and len: "length (fst (reader_content (kn_kinds E) reader)) < 2 ^ 31 - 1"
    and laws: "bucket_model (kn_store E) objs"
  shows "(st' \<noteq> st \<longrightarrow> snd (reader_content (kn_kinds E) reader) = None \<and>
      (\<forall>i < length (pb_messages p). kn_send E i = None)) \<and>
    (r = Ret () \<longrightarrow> length (pb_messages p) < 2 ^ 31 \<and> (\<exists>md d. kn_marshal_metadata E md = Inr d \<and>
      sm_num_shard md = Some (int (length (pb_messages p))) \<and>
      objs st' (bucket, get_shard_metadata_filename t) = Some d))"
proof -
  from controller_setup_reader [OF begun] obtain dss where pub: "pub = \<lparr>pb_messages = []\<rparr>"
    and reader: "reader = make_nested_iterator (map make_iterator_from dss)" by blast
  obtain rows e where c: "chain_contents (map (\<lambda>ds. decoded_content (kn_kinds E) (drop_header ds)) dss) = (rows, e)"
    by fastforce
  have rc: "reader_content (kn_kinds E) reader = (rows, e)" by (simp add: reader_content_def reader nested_start(2) c)
  let ?pub = "publish_to_repo_request_topic (kn_marshal E) (kn_send E) (nested_methods (csv_methods (kn_kinds E))) reader
      pub shardSize t"
  have m: "publish_and_record E st reader pub shardSize bucket rawBucket t = Some (r, st', p)"
    using main begun by (simp add: controller_main_def)
  show ?thesis
  proof (cases "\<exists>n. ?pub = Some (Ret ((n, None), p))")
    case False
    then have "st' = st \<and> r \<noteq> Ret ()"
    proof (cases ?pub)
      case None
      then show ?thesis using m by (simp add: publish_and_record_def)
    next
      case (Some o')
      then show ?thesis
      proof (cases o')
        case (Ret x)
        then obtain n err p' where "x = ((n, err), p')" by (metis surj_pair)
        with Ret Some m False show ?thesis
          by (cases err) (auto simp: publish_and_record_def split: prod.splits)
      qed (use m in \<open>auto simp: publish_and_record_def\<close>)
    qed
    then show ?thesis by simp
  next
    case True
    then obtain n where n: "?pub = Some (Ret ((n, None), p))" by blast
    from publish_success [OF n [unfolded reader pub] c] len rc
    have ok: "e = None" "n = int (length (pb_messages p)) - 1" "\<forall>i < length (pb_messages p). kn_send E i = None"
      and "length (pb_messages p) \<le> length rows + 1" "length rows < 2 ^ 31 - 1" by auto
    then have i: "i32 (n + 1) = int (length (pb_messages p))" by (simp add: i32_between)
    have w: "write_all_metadata E st bucket rawBucket t n = (r, st')"
      using m n by (auto simp: publish_and_record_def split: prod.splits)
    have fits: "length (pb_messages p) < 2 ^ 31"
      using \<open>length (pb_messages p) \<le> length rows + 1\<close> \<open>length rows < 2 ^ 31 - 1\<close> by simp
    show ?thesis
    proof (intro conjI impI)
      show "length (pb_messages p) < 2 ^ 31" by (rule fits)
      show "snd (reader_content (kn_kinds E) reader) = None" using ok(1) rc by simp
      show "\<forall>i < length (pb_messages p). kn_send E i = None" by (rule ok(3))
      assume "r = Ret ()"
      with w obtain st1 where w1: "write_shard_metadata E st [] bucket t (i32 (n + 1)) = (Ret (), st1)"
        and w2: "st' = st1 \<or> (\<exists>u. write_shard_metadata E st1 '' raw'' rawBucket t (i32 (n + 1)) = (Ret u, st'))"
        by (auto simp: write_all_metadata_def split: prod.splits outcome.splits if_splits)
      note a = write_shard_metadata_Ret [OF w1 laws]
      from w2 show "\<exists>md d. kn_marshal_metadata E md = Inr d \<and> sm_num_shard md = Some (int (length (pb_messages p))) \<and>
          objs st' (bucket, get_shard_metadata_filename t) = Some d"
      proof
        assume "st' = st1"
        with a i show ?thesis by auto
      next
        assume "\<exists>u. write_shard_metadata E st1 '' raw'' rawBucket t (i32 (n + 1)) = (Ret u, st')"
        then obtain u where "write_shard_metadata E st1 '' raw'' rawBucket t (i32 (n + 1)) = (Ret u, st')" ..
        from write_shard_metadata_Ret [OF this laws] a i show ?thesis by (cases "rawBucket = bucket") auto
      qed
    qed
  qed
qed

text \<open>
  C29.  The metadata of a run is written last and is right.  If the controller has changed the
  storage at all, every row of its inputs was read and every request was sent; and if it ends
  without a panic, the results bucket holds metadata that expects exactly as many shards as
  requests were sent.
\<close>

theorem metadata_counts_requests:
  assumes begun: "controller_setup E S args st = Inr (reader, pub, shardSize, bucket, rawBucket)"
    and main: "controller_main E S args t st = Some (r, st', p)"
    and len: "length (fst (reader_content (kn_kinds E) reader)) < 2 ^ 31 - 1"
    and laws: "bucket_model (kn_store E) objs"
  shows "(st' \<noteq> st \<longrightarrow> snd (reader_content (kn_kinds E) reader) = None \<and>
      (\<forall>i < length (pb_messages p). kn_send E i = None)) \<and>
    (r = Ret () \<longrightarrow> (\<exists>md d. kn_marshal_metadata E md = Inr d \<and>
      sm_num_shard md = Some (int (length (pb_messages p))) \<and>
      objs st' (bucket, get_shard_metadata_filename t) = Some d))"
  using controller_counts [OF assms] by blast

text \<open>One local file, shards of two repositories, no bucket for raw results.\<close>

definition example_controller :: "mem_storage controller_env" where
  "example_controller = \<lparr>kn_store = mem_bucket, kn_read_file = (\<lambda>f. ([], None)), kn_config_file = [],
     kn_open_topic = (\<lambda>u. None), kn_send = (\<lambda>i. None),
     kn_marshal = (\<lambda>r. Inr (concat (map br_url (bt_repos r)))),
     kn_marshal_metadata = (\<lambda>m. Inr (itoa (get_num_shard m))), kn_open_file = (\<lambda>f. Inr add_input),
     kn_decode = (\<lambda>s. []), kn_kinds = any_repo, kn_git_commit = []\<rparr>"

definition example_config :: config where
  "example_config = \<lparr>cf_project_id = [], cf_result_data_bucket_url = example_url, cf_request_topic_url = ''mem://topic'',
     cf_request_subscription_url = [], cf_bigquery_dataset = [], cf_bigquery_table = [],
     cf_completion_threshold = file_threshold, cf_webhook_url = [], cf_metric_exporter = [],
     cf_metric_stackdriver_prefix = [], cf_shard_size = 2, cf_input_bucket_url = [], cf_input_bucket_prefix = [],
     cf_additional_params = [''scorecard'' \<mapsto> Map.empty]\<rparr>"

definition example_controller_settings :: settings where
  "example_controller_settings = \<lparr>st_lookup_env = Map.empty, st_config_yaml = [],
     st_unmarshal = (\<lambda>y. Inr example_config), st_parse_float = (\<lambda>s. Inr (0, 0))\<rparr>"

lemma example_controller_setup:
  "controller_setup example_controller example_controller_settings [''projects.csv''] empty_storage =
     Inr (make_nested_iterator (map make_iterator_from [add_input]), \<lparr>pb_messages = []\<rparr>, 2, example_url, [])"
  by (simp add: controller_setup_def read_config_def example_controller_def example_controller_settings_def
      get_request_topic_url_def get_result_data_bucket_url_def get_shard_size_def get_raw_result_data_bucket_url_def
      get_scorecard_param_def get_scorecard_values_def get_additional_params_def get_map_config_value_def
      get_string_config_value_def get_int_config_value_def get_config_value_def get_reflected_value_def
      get_parsed_config_def config_field_def example_config_def example_url_def map_index_def create_publisher_def
      local_files_def)

lemma example_controller_content: "reader_content any_repo (make_nested_iterator (map make_iterator_from [add_input])) =
    (add_rows, None)"
  unfolding reader_content_def nested_start(2) by (simp add: add_input_rows)

definition example_recorded :: mem_storage where
  "example_recorded = \<lparr>ms_objects = [((example_url, get_shard_metadata_filename wtime), itoa 2)], ms_closed = []\<rparr>"

lemma example_controller_run:
  "\<exists>p. length (pb_messages p) = 2 \<and>
     controller_main example_controller example_controller_settings [''projects.csv''] wtime empty_storage =
       Some (Ret (), example_recorded, p)"
proof -
  have c: "chain_contents (map (\<lambda>ds. decoded_content any_repo (drop_header ds)) [add_input]) = (add_rows, None)"
    and "length add_rows < 2 ^ 31" and l: "length add_rows = 3"
    by (simp_all add: add_input_rows) (simp_all add: add_rows_def)
  let ?enc = "\<lambda>r. concat (map br_url (bt_repos r))"
  from publish_content [OF refl c \<open>length add_rows < 2 ^ 31\<close>, where shardSize = 2 and enc = ?enc and
      datetime = wtime and send = "\<lambda>i. None"] obtain st where
    st: "publishing ?enc wtime (max 1 (nat 2)) add_rows st" and
    p: "publish_to_repo_request_topic (\<lambda>r. Inr (?enc r)) (\<lambda>i. None) (nested_methods (csv_methods any_repo))
        (make_nested_iterator (map make_iterator_from [add_input])) \<lparr>pb_messages = []\<rparr> 2 wtime =
      Some (Ret (finish_publishing (\<lambda>r. Inr (?enc r)) (\<lambda>i. None) wtime st))" by auto
  let ?p = "\<lparr>pb_messages = map (batch_message ?enc wtime (max 1 (nat 2)) add_rows) [0 ..< 2]\<rparr>"
  have "batches (max 1 (nat 2)) add_rows = 2" using l by (simp add: batches_def flip: numeral_2_eq_2)
  with finish_publishing_batches [OF st _ \<open>length add_rows < 2 ^ 31\<close>, of "\<lambda>i. None"]
  have f: "finish_publishing (\<lambda>r. Inr (?enc r)) (\<lambda>i. None) wtime st = ((1, None), ?p)"
    by (simp add: Let_def publisher_close_def send_failures_def)
  let ?st = "\<lparr>ms_objects = [((example_url, get_shard_metadata_filename wtime), itoa 2)], ms_closed = []\<rparr>"
  have main: "controller_main example_controller example_controller_settings [''projects.csv''] wtime empty_storage =
      Some (Ret (), ?st, ?p)"
    unfolding controller_main_def example_controller_setup sum.case prod.case publish_and_record_def
    by (simp add: example_controller_def p [unfolded f, simplified] write_all_metadata_def write_shard_metadata_def get_num_shard_def
        mem_bucket_write empty_storage_def i32_between)
  then show ?thesis by (intro exI [of _ ?p]) (simp add: example_recorded_def)
qed

lemma metadata_counts_requests_witness:
  "\<exists>p. controller_main example_controller example_controller_settings [''projects.csv''] wtime empty_storage =
      Some (Ret (), example_recorded, p) \<and> length (pb_messages p) = 2 \<and>
    map_of (ms_objects example_recorded) (example_url, get_shard_metadata_filename wtime) = Some (itoa 2)"
proof -
  obtain p where main: "controller_main example_controller example_controller_settings [''projects.csv''] wtime empty_storage =
      Some (Ret (), example_recorded, p)" and l: "length (pb_messages p) = 2" using example_controller_run by blast
  have "length add_rows = 3" by (simp add: add_rows_def)
  with metadata_counts_requests [OF example_controller_setup main, of "\<lambda>s. map_of (ms_objects s)"]
    example_controller_content l main
  show ?thesis
    by (auto simp: example_controller_def mem_bucket.bucket_model_axioms get_num_shard_def)
qed

end
