(* ===== verification/WorkLoop.thy ===== *)
theory WorkLoop
  imports Controller
begin

text \<open>
  \<open>cron/worker/worker.go\<close>: the loop of a batch worker, over the \<open>Subscriber\<close> it pulls requests
  from and the \<open>Worker\<close> it hands them to.  The contract of a subscriber is a locale.
\<close>

section \<open>Effects\<close>

text \<open>
  A call that returns, ends the process with \<open>log.Fatal\<close>, panics, or waits for a message that
  never comes.
\<close>

datatype 'a effect = Returns 'a | Fatal string | Crash string | Blocked

record 'u subscriber =
  su_pull :: "'u \<Rightarrow> (batch_request option res \<times> 'u) effect"
  su_ack :: "'u \<Rightarrow> 'u effect"
  su_nack :: "'u \<Rightarrow> 'u effect"
  su_close :: "'u \<Rightarrow> (err option \<times> 'u) effect"

text \<open>A worker over a state that includes the storage.\<close>

record 'w worker =
  wk_store :: "'w object_store"
  wk_process :: "batch_request \<Rightarrow> string \<Rightarrow> 'w \<Rightarrow> err option \<times> 'w"
  wk_post_process :: "'w \<Rightarrow> 'w"

section \<open>One request\<close>

definition shard_name :: "int \<Rightarrow> string" where
  "shard_name n = ''shard-'' @ (if n < 0 then CHR ''-'' # pad0 6 (itoa_nat (nat (- n))) else pad0 7 (itoa_nat (nat n)))"

definition result_filename :: "batch_request \<Rightarrow> string" where
  "result_filename sbr = get_blob_filename (shard_name (bt_shard_num sbr)) (bt_job_time sbr)"

definition result_exists :: "'w object_store \<Rightarrow> 'w \<Rightarrow> batch_request \<Rightarrow> string \<Rightarrow> bool res" where
  "result_exists B w sbr bucketURL =
     (case blob_exists B w bucketURL (result_filename sbr) of
        Inl e \<Rightarrow> Inl (errorf [L ''error during BlobExists: '', W e])
      | Inr exists \<Rightarrow> Inr exists)"

definition has_metadata_file :: "'w object_store \<Rightarrow> 'w \<Rightarrow> batch_request \<Rightarrow> string \<Rightarrow> bool res" where
  "has_metadata_file B w req bucketURL =
     (case blob_exists B w bucketURL (get_shard_metadata_filename (bt_job_time req)) of
        Inl e \<Rightarrow> Inl (errorf [L ''data.BlobExists: '', W e])
      | Inr exists \<Rightarrow> Inr exists)"

text \<open>What the loop does with a request, and the state it leaves: \<open>True\<close> stands for an ack.\<close>

definition handle_request :: "'w worker \<Rightarrow> string \<Rightarrow> 'w \<Rightarrow> batch_request \<Rightarrow> bool \<times> 'w" where
  "handle_request K bucketURL w req =
     (case has_metadata_file (wk_store K) w req bucketURL of
        Inl e \<Rightarrow> (False, w)
      | Inr hasMd \<Rightarrow>
          if \<not> hasMd then (False, w)
          else (case result_exists (wk_store K) w req bucketURL of
              Inl e \<Rightarrow> (False, w)
            | Inr exists \<Rightarrow>
                if exists then (True, wk_post_process K w)
                else (case wk_process K req bucketURL w of
                    (Some e, w1) \<Rightarrow> (False, w1)
                  | (None, w1) \<Rightarrow> (True, wk_post_process K w1))))"

section \<open>The loop\<close>

datatype loop_event = Pulled batch_request | Acked | Nacked | Closed

text \<open>
  The loop of \<open>Run\<close>, with the calls it makes to the subscriber; \<open>None\<close> if it never ends.  Its
  result is the error \<open>Run\<close> returns.
\<close>

partial_function (option) run_loop ::
  "'u subscriber \<Rightarrow> 'w worker \<Rightarrow> string \<Rightarrow> 'u \<Rightarrow> 'w \<Rightarrow> loop_event list \<Rightarrow>
   (err option effect \<times> 'w \<times> loop_event list) option" where
  "run_loop S K bucketURL u w tr =
     (case su_pull S u of
        Fatal m \<Rightarrow> Some (Fatal m, w, tr)
      | Crash m \<Rightarrow> Some (Crash m, w, tr)
      | Blocked \<Rightarrow> Some (Blocked, w, tr)
      | Returns (Inl e, u1) \<Rightarrow> Some (Returns (Some (errorf [L ''subscriber.SynchronousPull: '', W e])), w, tr)
      | Returns (Inr None, u1) \<Rightarrow>
          (case su_close S u1 of
             Fatal m \<Rightarrow> Some (Fatal m, w, tr)
           | Crash m \<Rightarrow> Some (Crash m, w, tr)
           | Blocked \<Rightarrow> Some (Blocked, w, tr)
           | Returns (Some e, u2) \<Rightarrow> Some (Returns (Some (errorf [L ''subscriber.Close: '', W e])), w, tr @ [Closed])
           | Returns (None, u2) \<Rightarrow> Some (Returns None, w, tr @ [Closed]))
      | Returns (Inr (Some req), u1) \<Rightarrow>
          (case handle_request K bucketURL w req of
             (ack, w1) \<Rightarrow>
               (case (if ack then su_ack S u1 else su_nack S u1) of
                  Fatal m \<Rightarrow> Some (Fatal m, w1, tr @ [Pulled req])
                | Crash m \<Rightarrow> Some (Crash m, w1, tr @ [Pulled req])
                | Blocked \<Rightarrow> Some (Blocked, w1, tr @ [Pulled req])
                | Returns u2 \<Rightarrow> run_loop S K bucketURL u2 w1 (tr @ [Pulled req, if ack then Acked else Nacked]))))"

text \<open>\<open>Run\<close>, up to its loop; \<open>create\<close> is \<open>CreateSubscriber\<close>.\<close>

definition run_worker ::
  "(string \<Rightarrow> string \<times> err option) \<Rightarrow> string \<Rightarrow> (string \<Rightarrow> 'u res) \<Rightarrow> 'u subscriber \<Rightarrow> 'w worker \<Rightarrow> settings \<Rightarrow> 'w \<Rightarrow>
   (err option effect \<times> 'w \<times> loop_event list) option" where
  "run_worker read_file config_file create S K st w =
     (case read_config read_file config_file st of
        (Some e, st1) \<Rightarrow> Some (Returns (Some (errorf [L ''config.ReadConfig: '', W e])), w, [])
      | (None, st1) \<Rightarrow>
      case get_request_subscription_url st1 of
        Inl e \<Rightarrow> Some (Returns (Some (errorf [L ''config.GetRequestSubscriptionURL: '', W e])), w, [])
      | Inr subscriptionURL \<Rightarrow>
      case create subscriptionURL of
        Inl e \<Rightarrow> Some (Returns (Some (errorf [L ''config.CreateSubscriber: '', W e])), w, [])
      | Inr u \<Rightarrow>
      case get_result_data_bucket_url st1 of
        Inl e \<Rightarrow> Some (Returns (Some (errorf [L ''config.GetResultDataBucketURL: '', W e])), w, [])
      | Inr bucketURL \<Rightarrow> run_loop S K bucketURL u w [])"

section \<open>The contract of a subscriber\<close>

text \<open>
  \<open>idle\<close> holds where a pull may be called, \<open>holding\<close> after a pull that gave a request, \<open>ended\<close>
  after one that gave none; \<open>left\<close> bounds the requests still to come.
\<close>

locale subscriber_contract =
  fixes S :: "'u subscriber" and idle :: "'u \<Rightarrow> bool" and holding :: "'u \<Rightarrow> bool" and ended :: "'u \<Rightarrow> bool"
    and left :: "'u \<Rightarrow> nat"
  assumes pull_safe: "idle u \<Longrightarrow> su_pull S u \<noteq> Crash m"
    and pull_request: "idle u \<Longrightarrow> su_pull S u = Returns (Inr (Some req), u1) \<Longrightarrow> holding u1 \<and> left u1 < left u"
    and pull_none: "idle u \<Longrightarrow> su_pull S u = Returns (Inr None, u1) \<Longrightarrow> ended u1"
    and ack_safe: "holding u \<Longrightarrow> su_ack S u \<noteq> Crash m"
    and ack_idle: "holding u \<Longrightarrow> su_ack S u = Returns u1 \<Longrightarrow> idle u1 \<and> left u1 = left u"
    and nack_safe: "holding u \<Longrightarrow> su_nack S u \<noteq> Crash m"
    and nack_idle: "holding u \<Longrightarrow> su_nack S u = Returns u1 \<Longrightarrow> idle u1 \<and> left u1 = left u"
    and close_safe: "ended u \<Longrightarrow> su_close S u \<noteq> Crash m"
begin

text \<open>A loop over a subscriber that keeps its contract ends, and not by a panic.\<close>

lemma loop_ends:
  "idle u \<Longrightarrow> \<exists>r w' tr'. run_loop S K url u w tr = Some (r, w', tr') \<and> (\<forall>m. r \<noteq> Crash m)"
proof (induction "left u" arbitrary: u w tr rule: less_induct)
  case less
  note step = run_loop.simps [of S K url u w tr]
  show ?case
  proof (cases "su_pull S u")
    case (Returns ru)
    obtain r u1 where ru: "ru = (r, u1)" by fastforce
    show ?thesis
    proof (cases r)
      case (Inr o')
      show ?thesis
      proof (cases o')
        case None
        then have "ended u1" using pull_none [OF less.prems] Returns ru Inr by simp
        then show ?thesis
          using step Returns ru Inr None close_safe [of u1] by (auto split: effect.splits option.splits)
      next
        case (Some req)
        then have h: "holding u1" "left u1 < left u" using pull_request [OF less.prems] Returns ru Inr by auto
        obtain ack w1 where hr: "handle_request K url w req = (ack, w1)" by fastforce
        define e where "e = (if ack then su_ack S u1 else su_nack S u1)"
        have safe: "e \<noteq> Crash m" for m using ack_safe [OF h(1)] nack_safe [OF h(1)] by (simp add: e_def)
        have next_idle: "idle u2 \<and> left u2 = left u1" if "e = Returns u2" for u2
          using that ack_idle [OF h(1), of u2] nack_idle [OF h(1), of u2] by (simp add: e_def split: if_splits)
        show ?thesis
        proof (cases e)
          case (Returns u2)
          then have "left u2 < left u" "idle u2" using next_idle h by auto
          from less.hyps [OF this, of w1 "tr @ [Pulled req, if ack then Acked else Nacked]"]
          show ?thesis
            using step \<open>su_pull S u = Returns ru\<close> ru Inr Some hr Returns by (simp add: e_def)
        qed (use step Returns ru Inr Some hr safe in \<open>simp_all add: e_def\<close>)
      qed
    qed (use step Returns ru in simp)
  qed (use step pull_safe [OF less.prems] in simp_all)
qed

end

section \<open>What a run amounts to\<close>

text \<open>Handling requests one after the other.\<close>

fun handle_all :: "'w worker \<Rightarrow> string \<Rightarrow> 'w \<Rightarrow> batch_request list \<Rightarrow> bool list \<times> 'w" where
  "handle_all K url w [] = ([], w)"
| "handle_all K url w (req # reqs) =
     (case handle_request K url w req of (a, w1) \<Rightarrow>
      case handle_all K url w1 reqs of (as, w2) \<Rightarrow> (a # as, w2))"

definition answers :: "batch_request list \<Rightarrow> bool list \<Rightarrow> loop_event list" where
  "answers reqs as = concat (map2 (\<lambda>req a. [Pulled req, if a then Acked else Nacked]) reqs as)"

text \<open>
  \<open>run_of\<close> relates a run to the requests it pulled: either every one of them was answered, or
  the call that should have answered the last did not return.
\<close>

definition run_of ::
  "'w worker \<Rightarrow> string \<Rightarrow> 'w \<Rightarrow> batch_request list \<Rightarrow> err option effect \<times> 'w \<times> loop_event list \<Rightarrow> bool" where
  "run_of K url w reqs x \<longleftrightarrow>
     (case x of (r, w', tr) \<Rightarrow>
        (case handle_all K url w reqs of (as, w2) \<Rightarrow> w' = w2 \<and>
          (tr = answers reqs as \<or> tr = answers reqs as @ [Closed] \<or>
           reqs \<noteq> [] \<and> tr = butlast (answers reqs as) \<and> (\<forall>e. r \<noteq> Returns e))))"

lemma answers_Cons: "answers (req # reqs) (a # as) = Pulled req # (if a then Acked else Nacked) # answers reqs as"
  by (simp add: answers_def)

lemma length_handle_all: "length (fst (handle_all K url w reqs)) = length reqs"
proof (induction reqs arbitrary: w)
  case (Cons req reqs)
  obtain a w1 as w2 where "handle_request K url w req = (a, w1)" "handle_all K url w1 reqs = (as, w2)" by (meson surj_pair)
  then show ?case using Cons [of w1] by simp
qed simp

lemma answers_acked:
  "length as = length reqs \<Longrightarrow> answers reqs as = pre @ [Pulled req, Acked] @ post \<Longrightarrow>
   (req, True) \<in> set (zip reqs as)"
proof (induction as reqs arbitrary: pre rule: list_induct2)
  case Nil
  then show ?case by (simp add: answers_def)
next
  case (Cons a as r reqs)
  show ?case
  proof (cases pre)
    case Nil
    then show ?thesis using Cons.prems by (simp add: answers_Cons split: if_splits)
  next
    case (Cons e pre1)
    then show ?thesis
      using Cons.prems Cons.IH by (cases pre1) (auto simp: answers_Cons split: if_splits)
  qed
qed

lemma run_of_Cons:
  assumes "handle_request K url w req = (a, w1)" "run_of K url w1 reqs (r, w', tr)"
  shows "run_of K url w (req # reqs) (r, w', Pulled req # (if a then Acked else Nacked) # tr)"
proof -
  obtain as w2 where h: "handle_all K url w1 reqs = (as, w2)" by fastforce
  then have "length as = length reqs" using length_handle_all [of K url w1 reqs] by simp
  then have "reqs \<noteq> [] \<Longrightarrow> answers reqs as \<noteq> []" by (cases reqs; cases as) (auto simp: answers_Cons)
  then show ?thesis using assms h by (auto simp: run_of_def answers_Cons)
qed

lemma run_loop_trace:
  assumes "run_loop S K url u w tr = Some x"
  shows "\<exists>reqs r w' tr'. x = (r, w', tr @ tr') \<and> run_of K url w reqs (r, w', tr')"
proof (rule run_loop.raw_induct [where P = "\<lambda>S K url u w tr x.
    \<exists>reqs r w' tr'. x = (r, w', tr @ tr') \<and> run_of K url w reqs (r, w', tr')", OF _ assms], goal_cases)
  case (1 f S K url u w tr x)
  show ?case
  proof (cases "\<exists>req u1. su_pull S u = Returns (Inr (Some req), u1)")
    case False
    have "run_of K url w [] (r, w, [])" "run_of K url w [] (r, w, [Closed])" for r
      by (simp_all add: run_of_def answers_def)
    then show ?thesis
      using 1(2) False by (fastforce split: effect.splits prod.splits sum.splits option.splits)
  next
    case True
    then obtain req u1 where p: "su_pull S u = Returns (Inr (Some req), u1)" by blast
    obtain a w1 where h: "handle_request K url w req = (a, w1)" by fastforce
    let ?e = "if a then su_ack S u1 else su_nack S u1"
    show ?thesis
    proof (cases ?e)
      case (Returns u2)
      then have "f S K url u2 w1 (tr @ [Pulled req, if a then Acked else Nacked]) = Some x"
        using 1(2) p h by simp
      from 1(1) [OF this] obtain reqs r w' tr' where
        x: "x = (r, w', (tr @ [Pulled req, if a then Acked else Nacked]) @ tr')" "run_of K url w1 reqs (r, w', tr')"
        by blast
      from run_of_Cons [OF h x(2)] x(1) show ?thesis
        by (intro exI [of _ "req # reqs"] exI [of _ r] exI [of _ w']) simp
    qed (use 1(2) p h in \<open>force simp: run_of_def answers_def intro!: exI [of _ "[req]"]\<close>)+
  qed
qed

lemma run_of_acked:
  assumes "run_of K url w reqs (r, w', tr)" "tr = pre @ [Pulled req, Acked] @ post"
  shows "\<exists>as. handle_all K url w reqs = (as, w') \<and> (req, True) \<in> set (zip reqs as)"
proof -
  obtain as where h: "handle_all K url w reqs = (as, w')" and len: "length as = length reqs"
    and tr: "tr = answers reqs as \<or> tr = answers reqs as @ [Closed] \<or> reqs \<noteq> [] \<and> tr = butlast (answers reqs as)"
    using assms(1) length_handle_all [of K url w reqs] by (auto simp: run_of_def split: prod.splits)
  have "\<exists>post. answers reqs as = pre @ [Pulled req, Acked] @ post"
  proof -
    consider "tr = answers reqs as" | "tr = answers reqs as @ [Closed]" | "tr = butlast (answers reqs as)" "tr \<noteq> []"
      using tr assms(2) by blast
    then show ?thesis
    proof cases
      case 2
      then show ?thesis
        using assms(2) by (cases post rule: rev_cases) (auto dest: sym)
    next
      case 3
      then have "answers reqs as = tr @ [last (answers reqs as)]"
        by (metis append_butlast_last_id butlast.simps(1))
      then show ?thesis using assms(2) by (metis append_assoc)
    qed (use assms(2) in blast)
  qed
  then show ?thesis using h answers_acked [OF len] by blast
qed

text \<open>Every request of a run was pulled.\<close>

lemma answers_pulled: "length as = length reqs \<Longrightarrow> Pulled req \<in> set (answers reqs as) \<longleftrightarrow> req \<in> set reqs"
  by (induction as reqs rule: list_induct2) (auto simp: answers_Cons, simp add: answers_def)

lemma answers_last: "length as = length reqs \<Longrightarrow> reqs \<noteq> [] \<Longrightarrow> last (answers reqs as) \<in> {Acked, Nacked}"
proof (induction as reqs rule: list_induct2)
  case (Cons a as r reqs)
  show ?case
  proof (cases "reqs = []")
    case False
    then have "answers reqs as \<noteq> []" using Cons.hyps by (cases reqs; cases as) (auto simp: answers_Cons)
    then show ?thesis using Cons.IH [OF False] by (simp add: answers_Cons)
  qed (use Cons.hyps in \<open>simp add: answers_Cons, simp add: answers_def\<close>)
qed simp

lemma run_of_pulled:
  assumes "run_of K url w reqs (r, w', tr)" "req \<in> set reqs"
  shows "Pulled req \<in> set tr"
proof -
  obtain as where len: "length as = length reqs"
    and tr: "tr = answers reqs as \<or> tr = answers reqs as @ [Closed] \<or> reqs \<noteq> [] \<and> tr = butlast (answers reqs as)"
    using assms(1) length_handle_all [of K url w reqs] by (auto simp: run_of_def split: prod.splits)
  have "Pulled req \<in> set (butlast (answers reqs as))" if "reqs \<noteq> []"
    using answers_last [OF len that] answers_pulled [OF len, of req] assms(2)
    by (metis append_butlast_last_id empty_iff empty_set in_set_butlastD insert_iff loop_event.distinct(1,3) rotate1.simps(2) set_ConsD set_rotate1)
  moreover have "reqs \<noteq> []" using assms(2) by auto
  ultimately show ?thesis using tr answers_pulled [OF len, of req] assms(2) by auto
qed

text \<open>
  C26.  A run of the loop is the handling of the requests it pulled, one after the other and
  each once, whatever the subscriber does: every request is answered by one ack or one nack
  before the next pull, as its handling says, unless the answer itself ends the process; and
  without a next request there is at most a close.
\<close>

theorem loop_answers_each_request:
  assumes "run_loop S K url u w [] = Some (r, w', tr)"
  shows "\<exists>reqs as. handle_all K url w reqs = (as, w') \<and> length as = length reqs \<and>
    (tr = answers reqs as \<or> tr = answers reqs as @ [Closed] \<or>
     reqs \<noteq> [] \<and> tr = butlast (answers reqs as) \<and> (\<forall>e. r \<noteq> Returns e))"
proof -
  from run_loop_trace [OF assms] obtain reqs where "run_of K url w reqs (r, w', tr)" by auto
  then show ?thesis
    using length_handle_all [of K url w reqs] by (auto simp: run_of_def split: prod.splits)
qed

text \<open>
   A request of a job without metadata is never processed: it is nacked, and neither the
  storage nor the worker changes; so is one whose metadata or result cannot be looked up.  A
  request whose result is stored is acked without being processed again.
\<close>

theorem unrecorded_jobs_wait:
  "(has_metadata_file (wk_store K) w req url \<noteq> Inr True \<longrightarrow> handle_request K url w req = (False, w)) \<and>
   (\<forall>e. has_metadata_file (wk_store K) w req url = Inr True \<and> result_exists (wk_store K) w req url = Inl e \<longrightarrow>
     handle_request K url w req = (False, w)) \<and>
   (has_metadata_file (wk_store K) w req url = Inr True \<and> result_exists (wk_store K) w req url = Inr True \<longrightarrow>
     handle_request K url w req = (True, wk_post_process K w))"
  by (auto simp: handle_request_def split: sum.splits)

section \<open>The contract of a worker\<close>

text \<open>
  A worker that has processed a request without an error has stored its result, and never
  removes an object.
\<close>

locale worker_contract = bucket_model "wk_store K" objs
  for K :: "'w worker" and objs :: "'w \<Rightarrow> string \<times> string \<rightharpoonup> string" +
  assumes process_stores: "wk_process K req url w = (None, w1) \<Longrightarrow> objs w1 (url, result_filename req) \<noteq> None"
    and process_keeps: "wk_process K req url w = (r, w1) \<Longrightarrow> objs w k \<noteq> None \<Longrightarrow> objs w1 k \<noteq> None"
    and post_process_keeps: "objs (wk_post_process K w) = objs w"
begin

lemma handle_request_stores:
  "handle_request K url w req = (True, w1) \<Longrightarrow> objs w1 (url, result_filename req) \<noteq> None"
  using process_stores present
  by (auto simp: handle_request_def result_exists_def post_process_keeps split: sum.splits if_splits prod.splits option.splits)

lemma handle_request_keeps:
  "handle_request K url w req = (a, w1) \<Longrightarrow> objs w k \<noteq> None \<Longrightarrow> objs w1 k \<noteq> None"
  using process_keeps [where k = k]
  by (auto simp: handle_request_def post_process_keeps split: sum.splits if_splits prod.splits option.splits)

lemma handle_all_keeps: "handle_all K url w reqs = (as, w1) \<Longrightarrow> objs w k \<noteq> None \<Longrightarrow> objs w1 k \<noteq> None"
proof (induction reqs arbitrary: w as)
  case (Cons req reqs)
  then show ?case using handle_request_keeps by (auto split: prod.splits)
qed simp

lemma acked_stored:
  "handle_all K url w reqs = (as, w1) \<Longrightarrow> (req, True) \<in> set (zip reqs as) \<Longrightarrow>
   objs w1 (url, result_filename req) \<noteq> None"
proof (induction reqs arbitrary: w as)
  case (Cons r reqs)
  then obtain a w2 as2 where h: "handle_request K url w r = (a, w2)" "handle_all K url w2 reqs = (as2, w1)" "as = a # as2"
    by (auto split: prod.splits)
  show ?case
  proof (cases "req = r \<and> a")
    case True
    then show ?thesis using h(1) handle_request_stores handle_all_keeps [OF h(2)] by auto
  next
    case False
    then have "(req, True) \<in> set (zip reqs as2)" using Cons.prems(2) h(3) by auto
    from Cons.IH [OF h(2) this] show ?thesis .
  qed
qed simp

lemma loop_stores:
  assumes "run_loop S K url u w [] = Some (r, w', tr)" "tr = pre @ [Pulled req, Acked] @ post"
  shows "objs w' (url, result_filename req) \<noteq> None"
proof -
  from run_loop_trace [OF assms(1)] obtain reqs where "run_of K url w reqs (r, w', tr)" by auto
  from run_of_acked [OF this assms(2)] show ?thesis using acked_stored by blast
qed

end

text \<open>A subscriber over a list of requests, a worker that stores a constant.\<close>

definition list_subscriber :: "batch_request list subscriber" where
  "list_subscriber = \<lparr>su_pull = (\<lambda>u. case u of [] \<Rightarrow> Returns (Inr None, []) | r # rs \<Rightarrow> Returns (Inr (Some r), rs)),
     su_ack = Returns, su_nack = Returns, su_close = (\<lambda>u. Returns (None, u))\<rparr>"

definition example_worker :: "mem_storage worker" where
  "example_worker = \<lparr>wk_store = mem_bucket,
     wk_process = (\<lambda>req url w. write_to_blob_store mem_bucket w url (result_filename req) ''{}''),
     wk_post_process = (\<lambda>w. w)\<rparr>"

definition example_request :: batch_request where
  "example_request = \<lparr>bt_job_time = wtime, bt_shard_num = 0, bt_repos = []\<rparr>"

lemma example_result_filename: "result_filename example_request = get_blob_filename ''shard-0000000'' wtime"
  by (simp add: result_filename_def example_request_def shard_name_def pad0_def itoa_step digit_char_def
      eval_nat_numeral)

lemma example_lookup:
  "has_metadata_file mem_bucket example_bucket example_request example_url = Inr True"
  "result_exists mem_bucket example_bucket example_request example_url = Inr True"
  "has_metadata_file mem_bucket empty_storage example_request example_url = Inr False"
  unfolding has_metadata_file_def result_exists_def example_result_filename
  by (simp_all add: blob_exists_def mem_bucket_def mem_store_def example_bucket_def empty_storage_def example_request_def)

lemma unrecorded_jobs_wait_witness:
  "handle_request example_worker example_url empty_storage example_request = (False, empty_storage) \<and>
   handle_request example_worker example_url example_bucket example_request = (True, example_bucket)"
  using unrecorded_jobs_wait [of example_worker empty_storage example_request example_url]
    unrecorded_jobs_wait [of example_worker example_bucket example_request example_url] example_lookup
  by (simp add: example_worker_def)

lemma example_handled:
  "handle_request example_worker example_url example_bucket example_request = (True, example_bucket)"
  using example_lookup by (simp add: handle_request_def example_worker_def)

lemma loop_answers_each_request_witness:
  "\<exists>reqs as. handle_all example_worker example_url example_bucket reqs = (as, example_bucket) \<and>
     length as = length reqs \<and> (answers reqs as = [Pulled example_request, Acked, Closed] \<or>
       answers reqs as = [Pulled example_request, Acked])"
proof -
  have "run_loop list_subscriber example_worker example_url [example_request] example_bucket [] =
      Some (Returns None, example_bucket, [Pulled example_request, Acked, Closed])"
    by (simp add: run_loop.simps [where u = "[example_request]"] run_loop.simps [where u = "[]"] list_subscriber_def
        example_handled)
  from loop_answers_each_request [OF this] obtain reqs as where
    "handle_all example_worker example_url example_bucket reqs = (as, example_bucket)" "length as = length reqs"
    "answers reqs as = [Pulled example_request, Acked, Closed] \<or> answers reqs as = [Pulled example_request, Acked]"
    by (auto simp: append_eq_Cons_conv dest: sym)
  then show ?thesis by blast
qed

end
