(* ===== verification/ApiProgram.thy ===== *)
theory ApiProgram
  imports GetResults WorkLoop
begin

text \<open>
  \<open>api/main.go\<close>: the program of the public API around the generated server, whose shutdown is
  deferred.  The embedded specification and the server are parameters, the parsing of flags is left
  out.
\<close>

text \<open>
  \<open>load\<close> is the error of \<open>loads.Embedded\<close>, \<open>serve\<close> what becomes of \<open>Serve\<close>, \<open>shutdown\<close> the
  error of \<open>Shutdown\<close>.  Beside how the program ends: what it did to shut the server down,
  nothing or a call whose error is logged.
\<close>

definition api_main :: "err option \<Rightarrow> err option effect \<Rightarrow> err option \<Rightarrow> unit effect \<times> string list option" where
  "api_main load serve shutdown =
     (case load of
        Some e \<Rightarrow> (Fatal (err_text e), None)
      | None \<Rightarrow>
          let down = (case shutdown of Some e \<Rightarrow> [err_text e] | None \<Rightarrow> [])
          in (case serve of
                Returns (Some e) \<Rightarrow> (Fatal (err_text e), None)
              | Returns None \<Rightarrow> (Returns (), Some down)
              | Crash m \<Rightarrow> (Crash m, Some down)
              | Fatal m \<Rightarrow> (Fatal m, None)
              | Blocked \<Rightarrow> (Blocked, None)))"

text \<open>
  The deferred shutdown is skipped exactly when it would clean up after an error: \<open>log.Fatalln\<close>
  ends the process without running what was deferred.
\<close>

theorem shutdown_skipped_on_error:
  "snd (api_main load serve shutdown) \<noteq> None \<longleftrightarrow> load = None \<and> (serve = Returns None \<or> (\<exists>m. serve = Crash m))"
  by (auto simp: api_main_def Let_def split: option.splits effect.splits)

end
