(* ===== verification/Subscribers.thy ===== *)
theory Subscribers
  imports WorkLoop
begin

text \<open>
  \<open>cron/internal/pubsub\<close>: the three subscribers, and the choice between them.  What a provider
  answers to the calls of a run is a list in the state of its subscriber; after the last answer
  a receive waits for ever.  The renewals of a held message are in the theory \<open>Heartbeat\<close>.
\<close>

definition parse_json_to_request :: "(string \<Rightarrow> batch_request res) \<Rightarrow> string \<Rightarrow> batch_request res" where
  "parse_json_to_request unmarshal json =
     (case unmarshal json of Inl e \<Rightarrow> Inl (errorf [L ''protojson.Unmarshal: '', W e]) | Inr r \<Rightarrow> Inr r)"

section \<open>Choosing a subscriber\<close>

definition errUnsupportedScheme :: err where
  "errUnsupportedScheme = Sentinel ''unsupported subscription URL scheme''"

datatype backend = SQS | GCS | Gocloud

definition create_gcp_subscriber :: "(string \<Rightarrow> string) \<Rightarrow> backend" where
  "create_gcp_subscriber getenv = (if getenv ''PUBSUB_EMULATOR_HOST'' \<noteq> [] then Gocloud else GCS)"

definition create_subscriber :: "(string \<Rightarrow> string res) \<Rightarrow> (string \<Rightarrow> string) \<Rightarrow> string \<Rightarrow> backend res" where
  "create_subscriber url_scheme getenv subscriptionURL =
     (case url_scheme subscriptionURL of
        Inl e \<Rightarrow> Inl (errorf [L ''error parsing subscription URL: '', W e])
      | Inr scheme \<Rightarrow>
          if scheme = ''awssqs'' then Inr SQS
          else if scheme = ''gcppubsub'' then Inr (create_gcp_subscriber getenv)
          else Inl (errorf [W errUnsupportedScheme, L '': '', L (quote scheme)]))"

section \<open>Google Pub/Sub\<close>

datatype gcs_answer = PullError err | Received "(string \<times> string) list" \<comment> \<open>ack identifiers and data\<close>

record gcs_subscriber =
  gs_answers :: "gcs_answer list"
  gs_done_closed :: bool
  gs_subscription_url :: string
  gs_recvd_ack_id :: string

definition create_gcs_subscriber :: "err option \<Rightarrow> gcs_answer list \<Rightarrow> string \<Rightarrow> gcs_subscriber res" where
  "create_gcs_subscriber client_error ans subscriptionURL =
     (case client_error of
        Some e \<Rightarrow> Inl (errorf [L ''error during NewSubscriberClient: '', W e])
      | None \<Rightarrow> Inr \<lparr>gs_answers = ans, gs_done_closed = False,
          gs_subscription_url = trim_prefix ''gcppubsub://'' subscriptionURL, gs_recvd_ack_id = []\<rparr>)"

text \<open>Pulling until there is a message; \<open>None\<close> after an error.\<close>

fun gcs_receive :: "gcs_answer list \<Rightarrow> ((string \<times> string) option \<times> gcs_answer list) effect" where
  "gcs_receive [] = Blocked"
| "gcs_receive (PullError e # as) = Returns (None, as)"
| "gcs_receive (Received [] # as) = gcs_receive as"
| "gcs_receive (Received (m # ms) # as) =
     (if 1 < length (m # ms) then
        Fatal (''expected to receive max 1 messages, got '' @ itoa (int (length (m # ms))))
      else Returns (Some m, as))"

definition gcs_synchronous_pull ::
  "(string \<Rightarrow> batch_request res) \<Rightarrow> gcs_subscriber \<Rightarrow> (batch_request option res \<times> gcs_subscriber) effect" where
  "gcs_synchronous_pull unmarshal s =
     (let s = s\<lparr>gs_done_closed := False\<rparr>
      in case gcs_receive (gs_answers s) of
           Blocked \<Rightarrow> Blocked
         | Fatal m \<Rightarrow> Fatal m
         | Crash m \<Rightarrow> Crash m
         | Returns (None, as) \<Rightarrow> Returns (Inr None, s\<lparr>gs_answers := as\<rparr>)
         | Returns (Some (ack_id, json), as) \<Rightarrow>
             Returns (case parse_json_to_request unmarshal json of Inl e \<Rightarrow> Inl e | Inr r \<Rightarrow> Inr (Some r),
               s\<lparr>gs_answers := as, gs_recvd_ack_id := ack_id\<rparr>))"

definition close_done :: "gcs_subscriber \<Rightarrow> gcs_subscriber effect" where
  "close_done s = (if gs_done_closed s then Crash ''close of closed channel'' else Returns (s\<lparr>gs_done_closed := True\<rparr>))"

text \<open>\<open>acknowledge\<close> and \<open>close_client\<close> are the errors of the client.\<close>

definition gcs_ack :: "(string \<Rightarrow> err option) \<Rightarrow> gcs_subscriber \<Rightarrow> gcs_subscriber effect" where
  "gcs_ack acknowledge s =
     (let err = acknowledge (gs_recvd_ack_id s)
      in case close_done s of
           Returns s' \<Rightarrow> (case err of Some e \<Rightarrow> Fatal (err_text e) | None \<Rightarrow> Returns s')
         | Crash m \<Rightarrow> Crash m | Fatal m \<Rightarrow> Fatal m | Blocked \<Rightarrow> Blocked)"

definition gcs_nack :: "gcs_subscriber \<Rightarrow> gcs_subscriber effect" where
  "gcs_nack s = close_done s"

definition gcs_close :: "err option \<Rightarrow> gcs_subscriber \<Rightarrow> (err option \<times> gcs_subscriber) effect" where
  "gcs_close close_client s =
     (case close_done s of
        Returns s' \<Rightarrow> Returns (map_option (\<lambda>e. errorf [L ''error during Close: '', W e]) close_client, s')
      | Crash m \<Rightarrow> Crash m | Fatal m \<Rightarrow> Fatal m | Blocked \<Rightarrow> Blocked)"

definition gcs_methods ::
  "(string \<Rightarrow> batch_request res) \<Rightarrow> (string \<Rightarrow> err option) \<Rightarrow> err option \<Rightarrow> gcs_subscriber subscriber" where
  "gcs_methods unmarshal acknowledge close_client =
     \<lparr>su_pull = gcs_synchronous_pull unmarshal, su_ack = gcs_ack acknowledge, su_nack = gcs_nack,
      su_close = gcs_close close_client\<rparr>"

section \<open>gocloud\<close>

record gocloud_subscriber =
  gc_answers :: "string res list" \<comment> \<open>the bodies, or the errors of \<open>Receive\<close>\<close>
  gc_msg :: "string option"

definition create_gocloud_subscriber :: "err option \<Rightarrow> string res list \<Rightarrow> gocloud_subscriber res" where
  "create_gocloud_subscriber open_err ans =
     (case open_err of
        Some e \<Rightarrow> Inl (errorf [L ''error during pubsub.OpenSubscription: '', W e])
      | None \<Rightarrow> Inr \<lparr>gc_answers = ans, gc_msg = None\<rparr>)"

definition gocloud_synchronous_pull ::
  "(string \<Rightarrow> batch_request res) \<Rightarrow> gocloud_subscriber \<Rightarrow> (batch_request option res \<times> gocloud_subscriber) effect" where
  "gocloud_synchronous_pull unmarshal s =
     (case gc_answers s of
        [] \<Rightarrow> Blocked
      | Inl e # as \<Rightarrow> Returns (Inr None, s\<lparr>gc_answers := as\<rparr>)
      | Inr body # as \<Rightarrow>
          Returns (case parse_json_to_request unmarshal body of Inl e \<Rightarrow> Inl e | Inr r \<Rightarrow> Inr (Some r),
            s\<lparr>gc_answers := as, gc_msg := Some body\<rparr>))"

text \<open>\<open>Ack\<close> and \<open>Nack\<close> of the held message; there is none before the first pull.\<close>

definition gocloud_answer :: "gocloud_subscriber \<Rightarrow> gocloud_subscriber effect" where
  "gocloud_answer s = (case gc_msg s of None \<Rightarrow> Crash ''nil pointer dereference'' | Some m \<Rightarrow> Returns s)"

definition gocloud_close :: "err option \<Rightarrow> gocloud_subscriber \<Rightarrow> (err option \<times> gocloud_subscriber) effect" where
  "gocloud_close shutdown s =
     Returns (map_option (\<lambda>e. errorf [L ''error during subscription.Shutdown: '', W e]) shutdown, s)"

definition gocloud_methods ::
  "(string \<Rightarrow> batch_request res) \<Rightarrow> err option \<Rightarrow> gocloud_subscriber subscriber" where
  "gocloud_methods unmarshal shutdown =
     \<lparr>su_pull = gocloud_synchronous_pull unmarshal, su_ack = gocloud_answer, su_nack = gocloud_answer,
      su_close = gocloud_close shutdown\<rparr>"

section \<open>Amazon SQS\<close>

definition errNoSQSClient :: err where "errNoSQSClient = Sentinel ''subscription did not expose an SQS client''"
definition errNoSQSMessage :: err where "errNoSQSMessage = Sentinel ''message did not expose an SQS message''"

text \<open>
  A message as the driver hands it over: the receipt handle, a pointer, in what \<open>As\<close> finds if it
  finds an SQS message, and the body.
\<close>

type_synonym sqs_message = "string option option \<times> string"

definition receipt_handle_from_message :: "sqs_message \<Rightarrow> string option" where
  "receipt_handle_from_message msg =
     (case fst msg of
        None \<Rightarrow> None
      | Some receiptHandle \<Rightarrow>
          (let handle = (case receiptHandle of None \<Rightarrow> [] | Some h \<Rightarrow> h)
           in if handle \<noteq> [] then Some handle else None))"

text \<open>
  What \<open>Receive\<close> gives: a message; or an error, with the two times the context may be found
  cancelled: just after it, and during the wait before the next try.
\<close>

datatype sqs_answer =
  Message sqs_message
| ReceiveError err bool bool

record sqs_subscriber =
  sq_answers :: "sqs_answer list"
  sq_msg :: "sqs_message option"
  sq_stop_once :: "bool option" \<comment> \<open>whether the \<open>sync.Once\<close> has fired; \<open>None\<close> for the nil pointer\<close>
  sq_running :: nat \<comment> \<open>the goroutines \<open>wg\<close> counts\<close>
  sq_queue_url :: string
  sq_min_backoff :: duration
  sq_max_backoff :: duration
  sq_waits :: "duration list" \<comment> \<open>the delays waited for, a log\<close>
  sq_acked :: "string list" \<comment> \<open>the bodies acked, a log\<close>
  sq_nacked :: "string list" \<comment> \<open>the bodies handed back, a log\<close>

text \<open>\<open>code\<close> is \<open>smithy.APIError\<close>'s \<open>ErrorCode\<close> of an error that is one.\<close>

definition is_permanent_receive_error :: "(err \<Rightarrow> string option) \<Rightarrow> err \<Rightarrow> bool" where
  "is_permanent_receive_error code e =
     (case code e of
        None \<Rightarrow> False
      | Some c \<Rightarrow> c \<in> {''AccessDenied'', ''AccessDeniedException'', ''AWS.SimpleQueueService.NonExistentQueue'',
          ''InvalidClientTokenId'', ''QueueDoesNotExist'', ''UnrecognizedClientException''})"

fun sqs_receive ::
  "(err \<Rightarrow> string option) \<Rightarrow> duration \<Rightarrow> duration \<Rightarrow> sqs_answer list \<Rightarrow> duration list \<Rightarrow>
   (sqs_message option res \<times> sqs_answer list \<times> duration list) effect" where
  "sqs_receive code backoff max_backoff [] waits = Blocked"
| "sqs_receive code backoff max_backoff (Message m # as) waits = Returns (Inr (Some m), as, waits)"
| "sqs_receive code backoff max_backoff (ReceiveError e cancelled interrupted # as) waits =
     (if cancelled then Returns (Inr None, as, waits)
      else if is_permanent_receive_error code e then
        Returns (Inl (errorf [L ''error during Receive: '', W e]), as, waits)
      else if interrupted then Returns (Inr None, as, waits @ [backoff])
      else sqs_receive code (min (backoff * 2) max_backoff) max_backoff as (waits @ [backoff]))"

text \<open>Closing the stop channel once, then waiting for the goroutines.\<close>

definition stop_heartbeat :: "sqs_subscriber \<Rightarrow> sqs_subscriber" where
  "stop_heartbeat s =
     (case sq_stop_once s of
        None \<Rightarrow> s
      | Some fired \<Rightarrow> s\<lparr>sq_stop_once := Some True, sq_running := 0\<rparr>)"

definition ack_message :: "sqs_subscriber \<Rightarrow> sqs_subscriber" where
  "ack_message s = (case sq_msg s of None \<Rightarrow> s | Some m \<Rightarrow> s\<lparr>sq_acked := sq_acked s @ [snd m]\<rparr>)"

definition sqs_ack :: "sqs_subscriber \<Rightarrow> sqs_subscriber effect" where
  "sqs_ack s = Returns (ack_message (stop_heartbeat s))"

definition nack_message :: "sqs_subscriber \<Rightarrow> sqs_subscriber" where
  "nack_message s = (case sq_msg s of None \<Rightarrow> s | Some m \<Rightarrow> s\<lparr>sq_nacked := sq_nacked s @ [snd m]\<rparr>)"

definition sqs_nack :: "sqs_subscriber \<Rightarrow> sqs_subscriber effect" where
  "sqs_nack s = Returns (nack_message (stop_heartbeat s))"

definition hold_message :: "sqs_message \<Rightarrow> sqs_subscriber \<Rightarrow> sqs_subscriber" where
  "hold_message m s = s\<lparr>sq_msg := Some m, sq_stop_once := Some False, sq_running := sq_running s + 1\<rparr>"

lemma sqs_receive_shorter:
  "sqs_receive code b mb as ws = Returns (Inr (Some m), as', ws') \<Longrightarrow> length as' < length as"
  by (induction code b mb as ws rule: sqs_receive.induct) (auto split: if_splits)

lemma answers_kept [simp]:
  "sq_answers (stop_heartbeat s) = sq_answers s" "sq_answers (nack_message s) = sq_answers s"
  "sq_answers (ack_message s) = sq_answers s"
  "sq_answers (hold_message m s) = sq_answers s"
  by (simp_all add: stop_heartbeat_def nack_message_def ack_message_def hold_message_def split: option.split)

function sqs_synchronous_pull ::
  "(string \<Rightarrow> batch_request res) \<Rightarrow> (err \<Rightarrow> string option) \<Rightarrow> sqs_subscriber \<Rightarrow>
   (batch_request option res \<times> sqs_subscriber) effect" where
  "sqs_synchronous_pull unmarshal code s =
     (case sqs_receive code (sq_min_backoff s) (sq_max_backoff s) (sq_answers s) (sq_waits s) of
        Blocked \<Rightarrow> Blocked
      | Fatal m \<Rightarrow> Fatal m
      | Crash m \<Rightarrow> Crash m
      | Returns (Inl e, as, ws) \<Rightarrow> Returns (Inl e, s\<lparr>sq_answers := as, sq_waits := ws\<rparr>)
      | Returns (Inr None, as, ws) \<Rightarrow> Returns (Inr None, s\<lparr>sq_answers := as, sq_waits := ws\<rparr>)
      | Returns (Inr (Some m), as, ws) \<Rightarrow>
          let s = s\<lparr>sq_answers := as, sq_waits := ws\<rparr>
          in (case receipt_handle_from_message m of
                None \<Rightarrow> Returns (Inl errNoSQSMessage, s\<lparr>sq_nacked := sq_nacked s @ [snd m]\<rparr>)
              | Some handle \<Rightarrow>
                  (case parse_json_to_request unmarshal (snd m) of
                     Inr req \<Rightarrow> Returns (Inr (Some req), hold_message m s)
                   | Inl e \<Rightarrow> sqs_synchronous_pull unmarshal code (nack_message (stop_heartbeat (hold_message m s))))))"
  by pat_completeness auto
termination
  by (relation "measure (\<lambda>(unmarshal, code, s). length (sq_answers s))") (auto dest: sqs_receive_shorter)

declare sqs_synchronous_pull.simps [simp del]

definition sqs_close :: "err option \<Rightarrow> sqs_subscriber \<Rightarrow> (err option \<times> sqs_subscriber) effect" where
  "sqs_close shutdown s =
     Returns (map_option (\<lambda>e. errorf [L ''error during subscription.Shutdown: '', W e]) shutdown, stop_heartbeat s)"

definition sqs_methods ::
  "(string \<Rightarrow> batch_request res) \<Rightarrow> (err \<Rightarrow> string option) \<Rightarrow> err option \<Rightarrow> sqs_subscriber subscriber" where
  "sqs_methods unmarshal code shutdown =
     \<lparr>su_pull = sqs_synchronous_pull unmarshal code, su_ack = sqs_ack, su_nack = sqs_nack, su_close = sqs_close shutdown\<rparr>"

text \<open>
  \<open>parsed\<close> is the host and path of the URL; \<open>open_err\<close> that of the driver, \<open>has_client\<close> whether
  the subscription is backed by SQS.
\<close>

definition create_sqs_subscriber ::
  "(string \<times> string) res \<Rightarrow> err option \<Rightarrow> bool \<Rightarrow> sqs_answer list \<Rightarrow> sqs_subscriber res" where
  "create_sqs_subscriber parsed open_err has_client ans =
     (case parsed of
        Inl e \<Rightarrow> Inl (errorf [L ''error parsing subscription URL: '', W e])
      | Inr (host, path) \<Rightarrow>
          (case open_err of
             Some e \<Rightarrow> Inl (errorf [L ''error during OpenSubscriptionURL: '', W e])
           | None \<Rightarrow>
               if \<not> has_client then Inl errNoSQSClient
               else Inr \<lparr>sq_answers = ans, sq_msg = None, sq_stop_once = None, sq_running = 0,
                 sq_queue_url = ''https://'' @ path_join [host, path], sq_min_backoff = second_ns,
                 sq_max_backoff = 30 * second_ns, sq_waits = [], sq_acked = [], sq_nacked = []\<rparr>))"

section \<open>The subscribers keep their contract\<close>

lemma gcs_receive_shorter: "gcs_receive as = Returns (Some m, as') \<Longrightarrow> length as' < length as"
  by (induction as rule: gcs_receive.induct) (auto split: if_splits)

lemma gcs_receive_safe: "gcs_receive as \<noteq> Crash m"
  by (induction as rule: gcs_receive.induct) auto

lemma sqs_receive_safe: "sqs_receive code b mb as ws \<noteq> Crash m" "sqs_receive code b mb as ws \<noteq> Fatal m"
  by (induction code b mb as ws rule: sqs_receive.induct) auto

interpretation gcs: subscriber_contract "gcs_methods unmarshal acknowledge close_client" "\<lambda>s. True"
    "\<lambda>s. \<not> gs_done_closed s" "\<lambda>s. \<not> gs_done_closed s" "\<lambda>s. length (gs_answers s)" for unmarshal acknowledge close_client
  by unfold_locales
    (auto simp: gcs_methods_def gcs_synchronous_pull_def gcs_ack_def gcs_nack_def gcs_close_def close_done_def Let_def
      gcs_receive_safe dest: gcs_receive_shorter split: effect.splits prod.splits option.splits sum.splits if_splits)

interpretation gocloud: subscriber_contract "gocloud_methods unmarshal shutdown" "\<lambda>s. True"
    "\<lambda>s. gc_msg s \<noteq> None" "\<lambda>s. True" "\<lambda>s. length (gc_answers s)" for unmarshal shutdown
  by unfold_locales
    (auto simp: gocloud_methods_def gocloud_synchronous_pull_def gocloud_answer_def gocloud_close_def
      split: list.splits sum.splits option.splits)

lemma sqs_receive_error:
  "sqs_receive code b mb as ws = Returns (Inl e, as', ws') \<Longrightarrow>
   \<exists>e'. is_permanent_receive_error code e' \<and> e = errorf [L ''error during Receive: '', W e']"
  by (induction code b mb as ws rule: sqs_receive.induct) (auto split: if_splits)

text \<open>What a pull of an SQS subscriber without a running heartbeat can come to.\<close>

definition sqs_pulled ::
  "(string \<Rightarrow> batch_request res) \<Rightarrow> (err \<Rightarrow> string option) \<Rightarrow> nat \<Rightarrow> (batch_request option res \<times> sqs_subscriber) effect \<Rightarrow> bool" where
  "sqs_pulled unmarshal code n r \<longleftrightarrow>
     (case r of
        Crash m \<Rightarrow> False
      | Fatal m \<Rightarrow> False
      | Blocked \<Rightarrow> True
      | Returns (Inl e, s) \<Rightarrow> e = errNoSQSMessage \<or>
          (\<exists>e'. is_permanent_receive_error code e' \<and> e = errorf [L ''error during Receive: '', W e'])
      | Returns (Inr None, s) \<Rightarrow> sq_running s = 0
      | Returns (Inr (Some req), s) \<Rightarrow> length (sq_answers s) < n \<and> sq_running s = 1 \<and> sq_stop_once s = Some False \<and>
          (\<exists>m. sq_msg s = Some m \<and> receipt_handle_from_message m \<noteq> None \<and>
             parse_json_to_request unmarshal (snd m) = Inr req))"

lemma sqs_pulled_mono: "sqs_pulled unmarshal code m r \<Longrightarrow> m \<le> n \<Longrightarrow> sqs_pulled unmarshal code n r"
  by (auto simp: sqs_pulled_def split: effect.splits sum.splits option.splits)

lemma sqs_pull_outcome:
  "sq_running s = 0 \<Longrightarrow> sqs_pulled unmarshal code (length (sq_answers s)) (sqs_synchronous_pull unmarshal code s)"
proof (induction "length (sq_answers s)" arbitrary: s rule: less_induct)
  case less
  note step = sqs_synchronous_pull.simps [of unmarshal code s]
  let ?rcv = "sqs_receive code (sq_min_backoff s) (sq_max_backoff s) (sq_answers s) (sq_waits s)"
  show ?case
  proof (cases ?rcv)
    case (Returns x)
    obtain r as ws where x: "x = (r, as, ws)" by (metis surj_pair)
    show ?thesis
    proof (cases r)
      case (Inl e)
      then show ?thesis using step Returns x sqs_receive_error [of code] by (auto simp: sqs_pulled_def)
    next
      case (Inr o')
      show ?thesis
      proof (cases o')
        case None
        then show ?thesis using step Returns x Inr less.prems by (simp add: sqs_pulled_def)
      next
        case (Some m)
        let ?s = "s\<lparr>sq_answers := as, sq_waits := ws\<rparr>"
        have shorter: "length as < length (sq_answers s)"
          using sqs_receive_shorter Returns x Inr Some by blast
        show ?thesis
        proof (cases "\<exists>handle e. receipt_handle_from_message m = Some handle \<and> parse_json_to_request unmarshal (snd m) = Inl e")
          case True
          then obtain handle e where he: "receipt_handle_from_message m = Some handle"
            "parse_json_to_request unmarshal (snd m) = Inl e" by blast
          let ?s' = "nack_message (stop_heartbeat (hold_message m ?s))"
          have "sq_running ?s' = 0" by (simp add: nack_message_def stop_heartbeat_def hold_message_def)
          moreover have "length (sq_answers ?s') < length (sq_answers s)" using shorter by simp
          ultimately have "sqs_pulled unmarshal code (length (sq_answers s)) (sqs_synchronous_pull unmarshal code ?s')"
            using less.hyps [of ?s'] sqs_pulled_mono less_imp_le by blast
          then show ?thesis using step Returns x Inr Some he by (simp add: Let_def)
        next
          case False
          then show ?thesis
            using step Returns x Inr Some shorter less.prems
            by (cases m; cases "receipt_handle_from_message m"; cases "parse_json_to_request unmarshal (snd m)") (auto simp: sqs_pulled_def hold_message_def)
        qed
      qed
    qed
  qed (use step sqs_receive_safe in \<open>auto simp: sqs_pulled_def\<close>)
qed

lemma sqs_pull_cases:
  assumes "sq_running s = 0"
  shows "sqs_synchronous_pull unmarshal code s \<noteq> Crash m"
    and "sqs_synchronous_pull unmarshal code s = Returns (Inr (Some req), s1) \<Longrightarrow>
      length (sq_answers s1) < length (sq_answers s) \<and> sq_running s1 = 1 \<and> sq_stop_once s1 = Some False"
    and "sqs_synchronous_pull unmarshal code s = Returns (Inr None, s1) \<Longrightarrow> sq_running s1 = 0"
  using sqs_pull_outcome [OF assms, of unmarshal code] by (auto simp: sqs_pulled_def)

text \<open>Between requests no heartbeat runs, while one is held exactly one does.\<close>

interpretation sqs: subscriber_contract "sqs_methods unmarshal code shutdown" "\<lambda>s. sq_running s = 0"
    "\<lambda>s. sq_running s = 1 \<and> sq_stop_once s = Some False" "\<lambda>s. sq_running s = 0" "\<lambda>s. length (sq_answers s)"
    for unmarshal code shutdown
proof unfold_locales
  fix u u1 :: sqs_subscriber and m req
  show "su_pull (sqs_methods unmarshal code shutdown) u \<noteq> Crash m" if "sq_running u = 0"
    using sqs_pull_cases [OF that] by (simp add: sqs_methods_def)
  show "(sq_running u1 = 1 \<and> sq_stop_once u1 = Some False) \<and> length (sq_answers u1) < length (sq_answers u)"
    if "sq_running u = 0" "su_pull (sqs_methods unmarshal code shutdown) u = Returns (Inr (Some req), u1)"
    using sqs_pull_cases [OF that(1)] that(2) by (simp add: sqs_methods_def)
  show "sq_running u1 = 0"
    if "sq_running u = 0" "su_pull (sqs_methods unmarshal code shutdown) u = Returns (Inr None, u1)"
    using sqs_pull_cases [OF that(1)] that(2) by (simp add: sqs_methods_def)
qed (auto simp: sqs_methods_def sqs_ack_def sqs_nack_def sqs_close_def stop_heartbeat_def ack_message_def nack_message_def
    split: option.splits)

section \<open>Properties\<close>


definition example_sqs :: sqs_subscriber where
  "example_sqs = \<lparr>sq_answers = [Message (Some (Some ''h''), ''not json'')], sq_msg = None, sq_stop_once = None, sq_running = 0,
     sq_queue_url = ''https://'' @ path_join [''sqs'', ''/q''], sq_min_backoff = second_ns,
     sq_max_backoff = 30 * second_ns, sq_waits = [], sq_acked = [], sq_nacked = []\<rparr>"


text \<open>
   An SQS subscriber hands a body it cannot parse back to the queue and goes on; its pull
  fails only with an error no retry could cure, or when the driver gives something that is
  not an SQS message.  The Google subscribers let the same body end the worker: their pull
  returns the error of the parser.
\<close>

theorem unparseable_messages:
  "(\<forall>e s1. sq_running s = 0 \<and> sqs_synchronous_pull unmarshal code s = Returns (Inl e, s1) \<longrightarrow>
      e = errNoSQSMessage \<or> (\<exists>e'. is_permanent_receive_error code e' \<and> e = errorf [L ''error during Receive: '', W e'])) \<and>
   (\<forall>e ack_id body as. unmarshal body = Inl e \<and> gs_answers g = Received [(ack_id, body)] # as \<longrightarrow>
      (\<exists>g1. gcs_synchronous_pull unmarshal g = Returns (Inl (errorf [L ''protojson.Unmarshal: '', W e]), g1)))"
proof (intro conjI allI impI)
  fix e s1 assume "sq_running s = 0 \<and> sqs_synchronous_pull unmarshal code s = Returns (Inl e, s1)"
  then show "e = errNoSQSMessage \<or>
      (\<exists>e'. is_permanent_receive_error code e' \<and> e = errorf [L ''error during Receive: '', W e'])"
    using sqs_pull_outcome [of s unmarshal code] by (auto simp: sqs_pulled_def)
next
  fix e ack_id body as assume "unmarshal body = Inl e \<and> gs_answers g = Received [(ack_id, body)] # as"
  then show "\<exists>g1. gcs_synchronous_pull unmarshal g = Returns (Inl (errorf [L ''protojson.Unmarshal: '', W e]), g1)"
    by (simp add: gcs_synchronous_pull_def parse_json_to_request_def)
qed

definition example_gcs :: gcs_subscriber where
  "example_gcs = \<lparr>gs_answers = [Received [(''id'', ''not json'')]], gs_done_closed = False, gs_subscription_url = [],
     gs_recvd_ack_id = []\<rparr>"

lemma unparseable_messages_witness:
  "(\<forall>e s1. sqs_synchronous_pull (\<lambda>b. Inl EOF) (\<lambda>e. None) example_sqs = Returns (Inl e, s1) \<longrightarrow> e = errNoSQSMessage) \<and>
   (\<exists>g1. gcs_synchronous_pull (\<lambda>b. Inl EOF) example_gcs = Returns (Inl (errorf [L ''protojson.Unmarshal: '', W EOF]), g1))"
proof -
  have "sq_running example_sqs = 0" "gs_answers example_gcs = [Received [(''id'', ''not json'')]]"
    by (simp_all add: example_sqs_def example_gcs_def)
  with unparseable_messages [of example_sqs "\<lambda>b. Inl EOF" "\<lambda>e. None" example_gcs]
  show ?thesis by (simp add: is_permanent_receive_error_def)
qed

text \<open>
  The delays between tries to receive double from the first to the limit: the \<open>i\<close>th is
  the first doubled \<open>i\<close> times, or the limit if that is less.
\<close>

lemma sqs_receive_waits:
  "sqs_receive code b mb as ws = Returns (r, as', ws') \<Longrightarrow> 0 \<le> b \<Longrightarrow> b \<le> mb \<Longrightarrow>
   \<exists>k. ws' = ws @ map (\<lambda>i. min (b * 2 ^ i) mb) [0 ..< k]"
proof (induction code b mb as ws rule: sqs_receive.induct)
  case (3 code b mb e c i as ws)
  show ?case
  proof (cases "c \<or> is_permanent_receive_error code e \<or> i")
    case True
    then show ?thesis
      using 3(2-) by (auto split: if_splits intro!: exI [of _ "0 :: nat"] exI [of _ "1 :: nat"])
  next
    case False
    then have "sqs_receive code (min (b * 2) mb) mb as (ws @ [b]) = Returns (r, as', ws')" using 3(2) by simp
    from 3(1) [OF _ _ _ this] False 3(3,4) obtain k where
      k: "ws' = (ws @ [b]) @ map (\<lambda>i. min (min (b * 2) mb * 2 ^ i) mb) [0 ..< k]" by auto
    have "min (min (b * 2) mb * 2 ^ i) mb = min (b * 2 ^ Suc i) mb" for i
    proof (cases "b * 2 \<le> mb")
      case False
      have "1 \<le> (2 :: int) ^ i" by simp
      then have "mb * 1 \<le> mb * 2 ^ i" "mb * 1 \<le> (b * 2) * 2 ^ i"
        using False 3(3,4) by (intro mult_left_mono, simp, simp, intro mult_mono, simp_all)
      then show ?thesis using False by simp
    qed (simp add: ac_simps)
    then have "ws' = ws @ map (\<lambda>i. min (b * 2 ^ i) mb) [0 ..< Suc k]"
      using k 3(4) by (simp add: upt_conv_Cons map_Suc_upt [symmetric] del: upt_Suc)
    then show ?thesis by blast
  qed
qed (auto intro: exI [of _ "0 :: nat"])

end
