(* ===== verification/GoJson.thy ===== *)
theory GoJson
  imports GoStrings
begin

text \<open>
  What the program uses of \<open>encoding/json\<close> to write: the text of a value as \<open>json.Encoder\<close> makes
  it, HTML characters escaped, and a reader of such texts that the round trips are stated with.
  Strings are bytes, as they are in Go.
\<close>

section \<open>Values\<close>

datatype json =
  JNull
| JBool bool
| JNumber string \<comment> \<open>its text\<close>
| JString string
| JArray "json list"
| JObject "(string \<times> json) list"

section \<open>Characters of more than one byte\<close>

definition cont :: "char \<Rightarrow> bool" where
  "cont c \<longleftrightarrow> 128 \<le> ord c \<and> ord c < 192"

text \<open>The second byte after a first byte \<open>n\<close> of a character of three or four bytes.\<close>

definition second_byte :: "nat \<Rightarrow> char \<Rightarrow> bool" where
  "second_byte n c \<longleftrightarrow> cont c \<and> (n = 224 \<longrightarrow> 160 \<le> ord c) \<and> (n = 237 \<longrightarrow> ord c < 160) \<and>
     (n = 240 \<longrightarrow> 144 \<le> ord c) \<and> (n = 244 \<longrightarrow> ord c < 144)"

text \<open>The length of the well-formed character a text begins with, 0 if it does not begin with one.\<close>

fun rune_len :: "string \<Rightarrow> nat" where
  "rune_len [] = 0"
| "rune_len (b # s) =
     (let n = ord b in
      if n < 128 then 1
      else if 194 \<le> n \<and> n < 224 then (case s of c # t \<Rightarrow> if cont c then 2 else 0 | _ \<Rightarrow> 0)
      else if 224 \<le> n \<and> n < 240 then
        (case s of c # d # t \<Rightarrow> if second_byte n c \<and> cont d then 3 else 0 | _ \<Rightarrow> 0)
      else if 240 \<le> n \<and> n < 245 then
        (case s of c # d # e # t \<Rightarrow> if second_byte n c \<and> cont d \<and> cont e then 4 else 0 | _ \<Rightarrow> 0)
      else 0)"

definition replacement :: string where "replacement = [CHR 0xEF, CHR 0xBF, CHR 0xBD]"
definition line_separator :: string where "line_separator = [CHR 0xE2, CHR 0x80, CHR 0xA8]"
definition paragraph_separator :: string where "paragraph_separator = [CHR 0xE2, CHR 0x80, CHR 0xA9]"

lemma rune_len_le: "rune_len s \<le> length s"
  by (cases s) (auto simp: Let_def split: list.split)

section \<open>Strings\<close>

definition ascii_escape :: "char \<Rightarrow> string" where
  "ascii_escape c =
     (if c = CHR 0x22 then [CHR 0x5C, CHR 0x22]
      else if c = CHR 0x5C then [CHR 0x5C, CHR 0x5C]
      else if c = CHR 0x08 then [CHR 0x5C, CHR ''b'']
      else if c = CHR 0x0C then [CHR 0x5C, CHR ''f'']
      else if c = CHR 0x0A then [CHR 0x5C, CHR ''n'']
      else if c = CHR 0x0D then [CHR 0x5C, CHR ''r'']
      else if c = CHR 0x09 then [CHR 0x5C, CHR ''t'']
      else if ord c < 32 \<or> c = CHR ''<'' \<or> c = CHR ''>'' \<or> c = CHR ''&''
           then [CHR 0x5C, CHR ''u'', CHR ''0'', CHR ''0'', hex_digit (ord c div 16), hex_digit (ord c mod 16)]
      else [c])"

function json_chars :: "string \<Rightarrow> string" where
  "json_chars [] = []"
| "json_chars (b # s) =
     (if ord b < 128 then ascii_escape b @ json_chars s
      else if rune_len (b # s) = 0 then CHR 0x5C # ''ufffd'' @ json_chars s
      else if prefix line_separator (b # s) then CHR 0x5C # ''u2028'' @ json_chars (drop 2 s)
      else if prefix paragraph_separator (b # s) then CHR 0x5C # ''u2029'' @ json_chars (drop 2 s)
      else take (rune_len (b # s)) (b # s) @ json_chars (drop (rune_len (b # s) - 1) s))"
  by pat_completeness auto
termination
  by (relation "measure length") auto

text \<open>A string as it comes back: its ill-formed bytes replaced.\<close>

function well_formed :: "string \<Rightarrow> string" where
  "well_formed [] = []"
| "well_formed (b # s) =
     (if rune_len (b # s) = 0 then replacement @ well_formed s
      else take (rune_len (b # s)) (b # s) @ well_formed (drop (rune_len (b # s) - 1) s))"
  by pat_completeness auto
termination
  by (relation "measure length") auto

declare json_chars.simps(2) [simp del] well_formed.simps(2) [simp del]

definition json_string :: "string \<Rightarrow> string" where
  "json_string s = CHR 0x22 # json_chars s @ [CHR 0x22]"

section \<open>Texts\<close>

fun json_text :: "json \<Rightarrow> string" where
  "json_text JNull = ''null''"
| "json_text (JBool b) = (if b then ''true'' else ''false'')"
| "json_text (JNumber t) = t"
| "json_text (JString s) = json_string s"
| "json_text (JArray vs) = CHR ''['' # join '','' (map json_text vs) @ '']''"
| "json_text (JObject ms) =
     CHR 0x7B # join '','' (map (\<lambda>m. json_string (fst m) @ '':'' @ json_text (snd m)) ms) @ [CHR 0x7D]"

text \<open>\<open>Encoder.Encode\<close>: a value and a line feed.\<close>

definition encode_json :: "json \<Rightarrow> string" where
  "encode_json v = json_text v @ [CHR 0x0A]"

fun well_formed_json :: "json \<Rightarrow> json" where
  "well_formed_json (JString s) = JString (well_formed s)"
| "well_formed_json (JArray vs) = JArray (map well_formed_json vs)"
| "well_formed_json (JObject ms) = JObject (map (\<lambda>m. (well_formed (fst m), well_formed_json (snd m))) ms)"
| "well_formed_json v = v"

definition number_char :: "char \<Rightarrow> bool" where
  "number_char c \<longleftrightarrow> is_digit c \<or> c \<in> set ''+-.eE''"

fun numbers_ok :: "json \<Rightarrow> bool" where
  "numbers_ok (JNumber t) \<longleftrightarrow> t \<noteq> [] \<and> list_all number_char t"
| "numbers_ok (JArray vs) \<longleftrightarrow> list_all numbers_ok vs"
| "numbers_ok (JObject ms) \<longleftrightarrow> list_all (\<lambda>m. numbers_ok (snd m)) ms"
| "numbers_ok v \<longleftrightarrow> True"

section \<open>Reading\<close>

definition hex_val :: "char \<Rightarrow> nat option" where
  "hex_val c =
     (if is_digit c then Some (ord c - 48)
      else if 97 \<le> ord c \<and> ord c < 103 then Some (ord c - 87)
      else if 65 \<le> ord c \<and> ord c < 71 then Some (ord c - 55)
      else None)"

definition utf8 :: "nat \<Rightarrow> string" where
  "utf8 n =
     (if n < 128 then [char_of n]
      else if n < 2048 then [char_of (192 + n div 64), char_of (128 + n mod 64)]
      else [char_of (224 + n div 4096), char_of (128 + n div 64 mod 64), char_of (128 + n mod 64)])"

fun read_escape :: "string \<Rightarrow> (string \<times> string) option" where
  "read_escape [] = None"
| "read_escape (c # s) =
     (if c = CHR 0x22 \<or> c = CHR 0x5C \<or> c = CHR ''/'' then Some ([c], s)
      else if c = CHR ''b'' then Some ([CHR 0x08], s)
      else if c = CHR ''f'' then Some ([CHR 0x0C], s)
      else if c = CHR ''n'' then Some ([CHR 0x0A], s)
      else if c = CHR ''r'' then Some ([CHR 0x0D], s)
      else if c = CHR ''t'' then Some ([CHR 0x09], s)
      else if c = CHR ''u'' then
        (case s of
           c1 # c2 # c3 # c4 # t \<Rightarrow>
             (case (hex_val c1, hex_val c2, hex_val c3, hex_val c4) of
                (Some d1, Some d2, Some d3, Some d4) \<Rightarrow> Some (utf8 (4096 * d1 + 256 * d2 + 16 * d3 + d4), t)
              | _ \<Rightarrow> None)
         | _ \<Rightarrow> None)
      else None)"

lemma read_escape_shorter: "read_escape s = Some (x, t) \<Longrightarrow> length t < length s"
  by (cases s) (auto split: if_splits list.splits option.splits)

text \<open>The rest of a string, after its opening quote.\<close>

function read_chars :: "string \<Rightarrow> (string \<times> string) option" where
  "read_chars [] = None"
| "read_chars (c # s) =
     (if c = CHR 0x22 then Some ([], s)
      else if c = CHR 0x5C then
        (case read_escape s of
           None \<Rightarrow> None
         | Some (x, t) \<Rightarrow> map_option (map_prod ((@) x) id) (read_chars t))
      else map_option (map_prod ((#) c) id) (read_chars s))"
  by pat_completeness auto
termination
  by (relation "measure length") (auto dest: read_escape_shorter)

declare read_chars.simps(2) [simp del]

fun read_json :: "nat \<Rightarrow> string \<Rightarrow> (json \<times> string) option"
  and read_elements :: "nat \<Rightarrow> string \<Rightarrow> (json list \<times> string) option"
  and read_members :: "nat \<Rightarrow> string \<Rightarrow> ((string \<times> json) list \<times> string) option" where
  "read_json 0 s = None"
| "read_json (Suc n) s =
     (if prefix ''null'' s then Some (JNull, drop 4 s)
      else if prefix ''true'' s then Some (JBool True, drop 4 s)
      else if prefix ''false'' s then Some (JBool False, drop 5 s)
      else if prefix ''[]'' s then Some (JArray [], drop 2 s)
      else if prefix ''['' s then map_option (map_prod JArray id) (read_elements n (drop 1 s))
      else if prefix [CHR 0x7B, CHR 0x7D] s then Some (JObject [], drop 2 s)
      else if prefix [CHR 0x7B] s then map_option (map_prod JObject id) (read_members n (drop 1 s))
      else if prefix [CHR 0x22] s then map_option (map_prod JString id) (read_chars (drop 1 s))
      else if takeWhile number_char s \<noteq> [] then Some (JNumber (takeWhile number_char s), dropWhile number_char s)
      else None)"
| "read_elements 0 s = None"
| "read_elements (Suc n) s =
     (case read_json n s of
        None \<Rightarrow> None
      | Some (v, t) \<Rightarrow>
          if prefix '','' t then map_option (map_prod ((#) v) id) (read_elements n (drop 1 t))
          else if prefix '']'' t then Some ([v], drop 1 t) else None)"
| "read_members 0 s = None"
| "read_members (Suc n) s =
     (if \<not> prefix [CHR 0x22] s then None
      else (case read_chars (drop 1 s) of
          None \<Rightarrow> None
        | Some (k, r) \<Rightarrow>
            if \<not> prefix '':'' r then None
            else (case read_json n (drop 1 r) of
                None \<Rightarrow> None
              | Some (v, t) \<Rightarrow>
                  if prefix '','' t then map_option (map_prod ((#) (k, v)) id) (read_members n (drop 1 t))
                  else if prefix [CHR 0x7D] t then Some ([(k, v)], drop 1 t) else None)))"

definition parse_json :: "string \<Rightarrow> json option" where
  "parse_json s = (case read_json (length s) s of Some (v, []) \<Rightarrow> Some v | _ \<Rightarrow> None)"

text \<open>A text of lines, each a value.\<close>

definition json_lines :: "string \<Rightarrow> json option list" where
  "json_lines s = map parse_json (butlast (split_on (CHR 0x0A) s))"

section \<open>The round trip of strings\<close>

lemma read_chars_quote [simp]: "read_chars (CHR 0x22 # s) = Some ([], s)"
  by (simp add: read_chars.simps(2))

lemma read_chars_plain:
  "c \<noteq> CHR 0x22 \<Longrightarrow> c \<noteq> CHR 0x5C \<Longrightarrow> read_chars (c # s) = map_option (map_prod ((#) c) id) (read_chars s)"
  by (simp add: read_chars.simps(2))

lemma read_chars_high:
  "list_all (\<lambda>c. 128 \<le> ord c) xs \<Longrightarrow> read_chars (xs @ s) = map_option (map_prod ((@) xs) id) (read_chars s)"
proof (induction xs)
  case Nil
  then show ?case by (simp add: map_prod.identity option.map_ident)
next
  case (Cons c xs)
  then have "c \<noteq> CHR 0x22" "c \<noteq> CHR 0x5C" by (auto simp: ord_def)
  then show ?case using Cons by (simp add: read_chars_plain option.map_comp o_def map_prod_def split_def)
qed

lemma hex_val_digits: "\<forall>d<16. hex_val (hex_digit d) = Some d"
  by code_simp

lemma hex_val_digit: "d < 16 \<Longrightarrow> hex_val (hex_digit d) = Some d"
  using hex_val_digits by blast

lemma read_escape_hex:
  assumes "ord c < 128"
  shows "read_escape (CHR ''u'' # CHR ''0'' # CHR ''0'' # hex_digit (ord c div 16) # hex_digit (ord c mod 16) # s) =
    Some ([c], s)"
proof -
  have "hex_val (hex_digit (ord c div 16)) = Some (ord c div 16)" "hex_val (hex_digit (ord c mod 16)) = Some (ord c mod 16)"
    using assms by (auto intro: hex_val_digit)
  moreover have "hex_val (CHR ''0'') = Some 0" by code_simp
  moreover have "utf8 (ord c) = [c]" using assms by (simp add: utf8_def) (simp add: ord_def)
  ultimately show ?thesis by simp
qed

lemma ascii_escape_cases:
  "c \<in> {CHR 0x22, CHR 0x5C, CHR 0x08, CHR 0x0C, CHR 0x0A, CHR 0x0D, CHR 0x09} \<or>
   ascii_escape c = [CHR 0x5C, CHR ''u'', CHR ''0'', CHR ''0'', hex_digit (ord c div 16), hex_digit (ord c mod 16)] \<or>
   ascii_escape c = [c] \<and> c \<noteq> CHR 0x22 \<and> c \<noteq> CHR 0x5C \<and> 32 \<le> ord c"
  by (simp add: ascii_escape_def)

lemma read_ascii_escape:
  assumes "ord c < 128"
  shows "read_chars (ascii_escape c @ s) = map_option (map_prod ((#) c) id) (read_chars s)"
proof -
  have esc: "read_chars (CHR 0x5C # t) = (case read_escape t of None \<Rightarrow> None | Some (x, u) \<Rightarrow>
      map_option (map_prod ((@) x) id) (read_chars u))" for t
    by (simp add: read_chars.simps(2))
  have app: "(@) [c] = (#) c" for c :: char by auto
  consider (special) "c \<in> {CHR 0x22, CHR 0x5C, CHR 0x08, CHR 0x0C, CHR 0x0A, CHR 0x0D, CHR 0x09}"
    | (hex) "ascii_escape c = [CHR 0x5C, CHR ''u'', CHR ''0'', CHR ''0'', hex_digit (ord c div 16), hex_digit (ord c mod 16)]"
    | (plain) "ascii_escape c = [c]" "c \<noteq> CHR 0x22" "c \<noteq> CHR 0x5C"
    using ascii_escape_cases [of c] by blast
  then show ?thesis
  proof cases
    case special
    then show ?thesis by (auto simp: ascii_escape_def esc app)
  next
    case hex
    then show ?thesis using read_escape_hex [OF assms] by (simp add: esc app)
  qed (simp add: read_chars_plain)
qed

lemma rune_len_ascii: "rune_len (b # s) = 1 \<longleftrightarrow> ord b < 128"
  by (auto simp: Let_def split: list.split)

lemma cont_high: "cont c \<Longrightarrow> 128 \<le> ord c"
  by (simp add: cont_def)

lemma second_byte_high: "second_byte n c \<Longrightarrow> 128 \<le> ord c"
  by (simp add: second_byte_def cont_def)

lemma rune_high: "\<not> ord b < 128 \<Longrightarrow> list_all (\<lambda>c. 128 \<le> ord c) (take (rune_len (b # s)) (b # s))"
  by (auto simp: Let_def numeral_eq_Suc dest: cont_high second_byte_high split: list.split)

lemma separator_len: "prefix line_separator s \<Longrightarrow> rune_len s = 3" "prefix paragraph_separator s \<Longrightarrow> rune_len s = 3"
  by (auto simp: line_separator_def paragraph_separator_def prefix_def second_byte_def cont_def ord_def)

declare rune_len.simps(2) [simp del]

lemma well_formed_rune:
  assumes "b # s = x @ t" "rune_len (b # s) = length x" "x \<noteq> []"
  shows "well_formed (b # s) = x @ well_formed t"
proof -
  have "take (length x) (b # s) = x" "drop (length x - 1) s = t"
    using assms(1,3) by (auto simp: Cons_eq_append_conv)
  moreover have "rune_len (b # s) \<noteq> 0" using assms(2,3) by simp
  ultimately show ?thesis by (simp only: well_formed.simps(2) if_False assms(2))
qed

lemma read_unicode_escapes:
  "read_chars (CHR 0x5C # CHR ''u'' # CHR ''f'' # CHR ''f'' # CHR ''f'' # CHR ''d'' # s) = map_option (map_prod ((@) replacement) id) (read_chars s)"
  "read_chars (CHR 0x5C # CHR ''u'' # CHR ''2'' # CHR ''0'' # CHR ''2'' # CHR ''8'' # s) = map_option (map_prod ((@) line_separator) id) (read_chars s)"
  "read_chars (CHR 0x5C # CHR ''u'' # CHR ''2'' # CHR ''0'' # CHR ''2'' # CHR ''9'' # s) = map_option (map_prod ((@) paragraph_separator) id) (read_chars s)"
proof -
  have hex: "hex_val (CHR ''f'') = Some 15" "hex_val (CHR ''d'') = Some 13" "hex_val (CHR ''2'') = Some 2"
    "hex_val (CHR ''0'') = Some 0" "hex_val (CHR ''8'') = Some 8" "hex_val (CHR ''9'') = Some 9" by code_simp+
  have "utf8 0xFFFD = replacement" "utf8 0x2028 = line_separator" "utf8 0x2029 = paragraph_separator"
    by (simp_all add: utf8_def replacement_def line_separator_def paragraph_separator_def char_of_def bit_iff_odd)
  then show
    "read_chars (CHR 0x5C # CHR ''u'' # CHR ''f'' # CHR ''f'' # CHR ''f'' # CHR ''d'' # s) = map_option (map_prod ((@) replacement) id) (read_chars s)"
    "read_chars (CHR 0x5C # CHR ''u'' # CHR ''2'' # CHR ''0'' # CHR ''2'' # CHR ''8'' # s) = map_option (map_prod ((@) line_separator) id) (read_chars s)"
    "read_chars (CHR 0x5C # CHR ''u'' # CHR ''2'' # CHR ''0'' # CHR ''2'' # CHR ''9'' # s) = map_option (map_prod ((@) paragraph_separator) id) (read_chars s)"
    by (simp_all add: read_chars.simps(2) hex)
qed

lemma separator_split:
  "prefix line_separator (b # s) \<Longrightarrow> b # s = line_separator @ drop 2 s"
  "prefix paragraph_separator (b # s) \<Longrightarrow> b # s = paragraph_separator @ drop 2 s"
  by (auto simp: prefix_def line_separator_def paragraph_separator_def)

lemma read_json_chars: "read_chars (json_chars s @ CHR 0x22 # t) = Some (well_formed s, t)"
proof (induction s rule: json_chars.induct)
  case (2 b s)
  show ?case
  proof (cases "ord b < 128")
    case True
    moreover from this have "rune_len (b # s) = 1" by (simp only: rune_len_ascii)
    ultimately show ?thesis
      using 2(1) by (simp add: json_chars.simps(2) well_formed.simps(2) read_ascii_escape)
  next
    case False
    show ?thesis
    proof (cases "rune_len (b # s) = 0")
      case True
      then show ?thesis
        using 2(2) False by (simp add: json_chars.simps(2) well_formed.simps(2) read_unicode_escapes)
    next
      case nz: False
      consider (line) "prefix line_separator (b # s)" | (par) "\<not> prefix line_separator (b # s)" "prefix paragraph_separator (b # s)"
        | (other) "\<not> prefix line_separator (b # s)" "\<not> prefix paragraph_separator (b # s)" by blast
      then show ?thesis
      proof cases
        case line
        have "well_formed (b # s) = line_separator @ well_formed (drop 2 s)"
          using separator_len(1) [OF line] by (intro well_formed_rune separator_split(1) [OF line]) (simp_all add: line_separator_def)
        then show ?thesis
          using 2(3) False nz line by (simp add: json_chars.simps(2) read_unicode_escapes)
      next
        case par
        have "well_formed (b # s) = paragraph_separator @ well_formed (drop 2 s)"
          using separator_len(2) [OF par(2)]
          by (intro well_formed_rune separator_split(2) [OF par(2)]) (simp_all add: paragraph_separator_def)
        then show ?thesis
          using 2(4) False nz par by (simp add: json_chars.simps(2) read_unicode_escapes)
      next
        case other
        then show ?thesis
          using 2(5) False nz
          by (simp add: json_chars.simps(2) well_formed.simps(2) read_chars_high rune_high)
      qed
    qed
  qed
qed simp

text \<open>A string of well-formed characters comes back as it is.\<close>

lemma well_formed_ascii: "list_all is_ascii s \<Longrightarrow> well_formed s = s"
proof (induction s)
  case (Cons b s)
  then have "rune_len (b # s) = 1" by (intro rune_len_ascii [THEN iffD2]) (simp add: is_ascii_def)
  then show ?case using Cons by (simp add: well_formed.simps(2))
qed simp

section \<open>The round trip of texts\<close>

lemma json_induct [case_names JNull JBool JNumber JString JArray JObject]:
  assumes "P JNull" "\<And>b. P (JBool b)" "\<And>t. P (JNumber t)" "\<And>s. P (JString s)"
    and "\<And>vs. (\<And>v. v \<in> set vs \<Longrightarrow> P v) \<Longrightarrow> P (JArray vs)"
    and "\<And>ms. (\<And>m. m \<in> set ms \<Longrightarrow> P (snd m)) \<Longrightarrow> P (JObject ms)"
  shows "P v"
proof (induction v)
  case (JObject ms)
  have "P (snd m)" if "m \<in> set ms" for m
    using JObject [OF that, of "snd m"] by (simp add: snds.simps)
  then show ?case by (rule assms(6))
qed (use assms in blast)+

lemma json_chars_printable: "c \<in> set (json_chars s) \<Longrightarrow> 32 \<le> ord c"
proof (induction s rule: json_chars.induct)
  case (2 b s)
  have hex: "32 \<le> ord (hex_digit d)" if "d < 16" for d
    using hex_val_digit [OF that] by (auto simp: hex_val_def is_digit_def split: if_splits)
  have esc: "32 \<le> ord c" if "ord b < 128" "c \<in> set (ascii_escape b)"
  proof -
    from that(1) have "32 \<le> ord (hex_digit (ord b div 16))" "32 \<le> ord (hex_digit (ord b mod 16))"
      by (auto intro: hex)
    then show ?thesis
      using that(2) ascii_escape_cases [of b] by (auto simp: ascii_escape_def ord_def)
  qed
  have run: "32 \<le> ord c" if "\<not> ord b < 128" "c \<in> set (take (rune_len (b # s)) (b # s))"
    using rune_high [OF that(1)] that(2) by (fastforce simp: list_all_iff)
  show ?case
    using 2 esc run by (auto simp: json_chars.simps(2) ord_def split: if_splits)
qed simp

lemma number_char_printable: "number_char c \<Longrightarrow> 32 \<le> ord c"
  by (auto simp: number_char_def is_digit_def ord_def)

lemma set_join: "c \<in> set (join sep xs) \<Longrightarrow> c \<in> set sep \<or> (\<exists>x \<in> set xs. c \<in> set x)"
  by (induction sep xs rule: join.induct) auto

lemma json_text_printable: "numbers_ok v \<Longrightarrow> c \<in> set (json_text v) \<Longrightarrow> 32 \<le> ord c"
proof (induction v arbitrary: c rule: json_induct)
  case (JNumber t)
  then show ?case by (auto simp: list_all_iff dest: number_char_printable)
next
  case (JString s)
  then show ?case by (auto simp: json_string_def ord_def dest: json_chars_printable)
next
  case (JArray vs)
  then consider "c \<in> set ''[,]''" | v where "v \<in> set vs" "c \<in> set (json_text v)"
    using set_join [of c "'',''" "map json_text vs"] by auto
  then show ?case using JArray by cases (auto simp: ord_def list_all_iff)
next
  case (JObject ms)
  then consider "c \<in> {CHR 0x7B, CHR 0x7D, CHR '','', CHR '':'', CHR 0x22}"
    | m where "m \<in> set ms" "c \<in> set (json_chars (fst m))" | m where "m \<in> set ms" "c \<in> set (json_text (snd m))"
    using set_join [of c "'',''" "map (\<lambda>m. json_string (fst m) @ '':'' @ json_text (snd m)) ms"]
    by (auto simp: json_string_def)
  then show ?case
  proof cases
    case 3
    then show ?thesis using JObject.IH [of m c] JObject.prems(1) by (auto simp: list_all_iff)
  qed (auto simp: ord_def dest: json_chars_printable)
qed (auto simp: ord_def split: if_splits)

lemma json_text_one_line: "numbers_ok v \<Longrightarrow> CHR 0x0A \<notin> set (json_text v)"
  using json_text_printable [of v "CHR 0x0A"] by (auto simp: ord_def)

text \<open>Where a value may end.\<close>

definition ends :: "string \<Rightarrow> bool" where
  "ends s \<longleftrightarrow> (case s of [] \<Rightarrow> True | c # t \<Rightarrow> \<not> number_char c)"

lemma takeWhile_number: "list_all number_char t \<Longrightarrow> ends s \<Longrightarrow> takeWhile number_char (t @ s) = t"
  by (cases s) (auto simp: ends_def list_all_iff takeWhile_append)

lemma dropWhile_number: "list_all number_char t \<Longrightarrow> ends s \<Longrightarrow> dropWhile number_char (t @ s) = s"
  by (cases s) (auto simp: ends_def list_all_iff dropWhile_append)

lemma read_string: "read_json (Suc n) (json_string s @ t) = Some (JString (well_formed s), t)"
  using read_json_chars [of s t] by (simp add: json_string_def)

lemma read_number:
  assumes "numbers_ok (JNumber t)" "ends s"
  shows "read_json (Suc n) (t @ s) = Some (JNumber t, s)"
proof -
  obtain c u where t: "t = c # u" "number_char c" using assms(1) by (cases t) auto
  then have "c \<notin> set [CHR ''n'', CHR ''t'', CHR ''f'', CHR ''['', CHR 0x7B, CHR 0x22]"
    by (auto simp: number_char_def is_digit_def ord_def)
  then show ?thesis using assms t takeWhile_number [of t s] dropWhile_number [of t s] by auto
qed

lemma ends_simps [simp]:
  "ends []" "ends (CHR '','' # s)" "ends (CHR '']'' # s)" "ends (CHR 0x7D # s)" "ends (CHR 0x0A # s)"
  by (simp_all add: ends_def number_char_def is_digit_def ord_def)

lemma json_text_hd: "numbers_ok v \<Longrightarrow> \<exists>c u. json_text v = c # u \<and> c \<noteq> CHR '']''"
  by (cases v) (auto simp: json_string_def neq_Nil_conv number_char_def is_digit_def ord_def)

lemma join_texts_hd:
  assumes "\<forall>v \<in> set vs. numbers_ok v" "vs \<noteq> []"
  shows "\<exists>c u. join '','' (map json_text vs) = c # u \<and> c \<noteq> CHR '']''"
proof -
  obtain v ws where vs: "vs = v # ws" using assms(2) by (cases vs) auto
  obtain c u where "json_text v = c # u" "c \<noteq> CHR '']''" using json_text_hd [of v] assms(1) vs by auto
  then show ?thesis using vs by (cases ws) auto
qed

text \<open>A list of texts is read element by element, given that each element is.\<close>

lemma read_elements_text:
  assumes "\<And>v n t. v \<in> set vs \<Longrightarrow> length (json_text v) \<le> n \<Longrightarrow> ends t \<Longrightarrow>
      read_json n (json_text v @ t) = Some (f v, t)"
    and "vs \<noteq> []" "length (join '','' (map json_text vs)) < n"
  shows "read_elements n (join '','' (map json_text vs) @ CHR '']'' # t) = Some (map f vs, t)"
  using assms
proof (induction vs arbitrary: n)
  case (Cons v vs)
  then obtain m where n: "n = Suc m" by (cases n) auto
  show ?case
  proof (cases "vs = []")
    case True
    then show ?thesis using Cons.prems(1) [of v m "CHR '']'' # t"] Cons.prems(3) n by simp
  next
    case False
    then have j: "join '','' (map json_text (v # vs)) = json_text v @ '','' @ join '','' (map json_text vs)"
      by (simp add: join_Cons)
    have "read_json m (json_text v @ CHR '','' # join '','' (map json_text vs) @ CHR '']'' # t) =
        Some (f v, CHR '','' # join '','' (map json_text vs) @ CHR '']'' # t)"
      using Cons.prems(1,3) n j by simp
    moreover have "read_elements m (join '','' (map json_text vs) @ CHR '']'' # t) = Some (map f vs, t)"
      using Cons.IH [of m] Cons.prems False n j by simp
    ultimately show ?thesis using n j by simp
  qed
qed simp

abbreviation member_text :: "string \<times> json \<Rightarrow> string" where
  "member_text m \<equiv> json_string (fst m) @ '':'' @ json_text (snd m)"

lemma read_members_text:
  assumes "\<And>m n t. m \<in> set ms \<Longrightarrow> length (json_text (snd m)) \<le> n \<Longrightarrow> ends t \<Longrightarrow>
      read_json n (json_text (snd m) @ t) = Some (f (snd m), t)"
    and "ms \<noteq> []" "length (join '','' (map member_text ms)) < n"
  shows "read_members n (join '','' (map member_text ms) @ CHR 0x7D # t) =
    Some (map (\<lambda>m. (well_formed (fst m), f (snd m))) ms, t)"
  using assms
proof (induction ms arbitrary: n)
  case (Cons m ms)
  then obtain k where n: "n = Suc k" by (cases n) auto
  have key: "read_chars (json_chars (fst m) @ CHR 0x22 # u) = Some (well_formed (fst m), u)" for u
    by (rule read_json_chars)
  show ?case
  proof (cases "ms = []")
    case True
    then show ?thesis
      using Cons.prems(1) [of m k "CHR 0x7D # t"] Cons.prems(3) n key by (simp add: json_string_def)
  next
    case False
    then have j: "join '','' (map member_text (m # ms)) = member_text m @ '','' @ join '','' (map member_text ms)"
      by (simp add: join_Cons)
    have "read_json k (json_text (snd m) @ CHR '','' # join '','' (map member_text ms) @ CHR 0x7D # t) =
        Some (f (snd m), CHR '','' # join '','' (map member_text ms) @ CHR 0x7D # t)"
      using Cons.prems(1,3) n j by simp
    moreover have "read_members k (join '','' (map member_text ms) @ CHR 0x7D # t) =
        Some (map (\<lambda>m. (well_formed (fst m), f (snd m))) ms, t)"
      using Cons.IH [of k] Cons.prems False n j by simp
    ultimately show ?thesis using n j key by (simp add: json_string_def)
  qed
qed simp

lemma read_json_text:
  "numbers_ok v \<Longrightarrow> length (json_text v) \<le> n \<Longrightarrow> ends t \<Longrightarrow> read_json n (json_text v @ t) = Some (well_formed_json v, t)"
proof (induction v arbitrary: n t rule: json_induct)
  case JNull
  then show ?case by (cases n) auto
next
  case (JBool b)
  then show ?case by (cases n) (auto split: if_splits)
next
  case (JNumber u)
  then obtain m where "n = Suc m" by (cases n) auto
  then show ?case using read_number [OF JNumber.prems(1,3), of m] by simp
next
  case (JString s)
  then show ?case using read_string [of "n - 1" s t] by (cases n) (auto simp: json_string_def)
next
  case (JArray vs)
  then obtain m where n: "n = Suc m" by (cases n) auto
  show ?case
  proof (cases "vs = []")
    case False
    then obtain c u where "join '','' (map json_text vs) = c # u" "c \<noteq> CHR '']''"
      using join_texts_hd [of vs] JArray.prems(1) by (auto simp: list_all_iff)
    moreover have "read_elements m (join '','' (map json_text vs) @ CHR '']'' # t) = Some (map well_formed_json vs, t)"
      using JArray False n by (intro read_elements_text) (auto simp: list_all_iff)
    ultimately show ?thesis using n by simp
  qed (simp add: n)
next
  case (JObject ms)
  then obtain m where n: "n = Suc m" by (cases n) auto
  show ?case
  proof (cases "ms = []")
    case False
    then obtain u where "join '','' (map member_text ms) = CHR 0x22 # u"
      by (cases ms rule: list.exhaust; cases "tl ms") (auto simp: json_string_def join_Cons)
    moreover have "read_members m (join '','' (map member_text ms) @ CHR 0x7D # t) =
        Some (map (\<lambda>m. (well_formed (fst m), well_formed_json (snd m))) ms, t)"
      using JObject False n by (intro read_members_text) (force simp: list_all_iff)+
    ultimately show ?thesis using n by simp
  qed (simp add: n)
qed

lemma parse_json_text: "numbers_ok v \<Longrightarrow> parse_json (json_text v) = Some (well_formed_json v)"
  using read_json_text [of v "length (json_text v)" "[]"] by (simp add: parse_json_def)

lemma split_encoded:
  assumes "\<forall>v \<in> set vs. numbers_ok v"
  shows "split_on (CHR 0x0A) (concat (map encode_json vs)) = map json_text vs @ [[]]"
  using assms by (induction vs) (simp_all add: encode_json_def split_on_append json_text_one_line)

text \<open>Values written one after the other are read back as the lines of the text.\<close>

lemma json_lines_encoded:
  assumes "\<forall>v \<in> set vs. numbers_ok v"
  shows "json_lines (concat (map encode_json vs)) = map (\<lambda>v. Some (well_formed_json v)) vs"
  using assms by (simp add: json_lines_def split_encoded butlast_append parse_json_text)

end
