(* ===== verification/CronFormat.thy ===== *)
theory CronFormat
  imports GoJson GoTime GoFloat
begin

text \<open>
  \<open>cron/internal/format\<close>: the JSON records of a scan, as they are stored and loaded into
  BigQuery.  The results of the Scorecard engine are records of the fields that are used; the
  aggregate score, the documentation of the checks and the error of the engine are parameters.
\<close>

section \<open>Results of the engine\<close>

type_synonym log_level = string

text \<open>A detail of a check is given by what \<open>DetailToString\<close> makes of it at each log level.\<close>

record check_result =
  cr_name :: string
  cr_error :: "err option"
  cr_score :: int
  cr_reason :: string
  cr_details :: "(log_level \<Rightarrow> string) list"

record commit_info =
  cm_login :: string
  cm_message :: string
  cm_sha :: string

record changeset =
  ch_revision_id :: string
  ch_commits :: "commit_info list"

record update_tool =
  ut_name :: string
  ut_url :: "string option"
  ut_desc :: "string option"
  ut_files :: "string list" \<comment> \<open>their paths\<close>

record protection_rule =
  pr_required_approving :: "int option"
  pr_allow_deletions :: "bool option"
  pr_allow_force_pushes :: "bool option"
  pr_code_owner_reviews :: "bool option"
  pr_linear_history :: "bool option"
  pr_dismiss_stale :: "bool option"
  pr_enforce_admins :: "bool option"
  pr_status_checks :: "bool option"
  pr_up_to_date :: "bool option"
  pr_contexts :: "string list option" \<comment> \<open>\<open>None\<close> is the nil slice\<close>

record branch =
  bh_name :: "string option"
  bh_protected :: "bool option"
  bh_rule :: protection_rule

record raw_results =
  rw_changesets :: "changeset list"
  rw_vulnerabilities :: "string list"
  rw_binaries :: "string list"
  rw_policies :: "string list"
  rw_tools :: "update_tool list"
  rw_branches :: "branch list"

record scan_result =
  sr_repo_name :: string
  sr_repo_sha :: string
  sr_version :: string
  sr_engine_sha :: string
  sr_date :: civil
  sr_checks :: "check_result list"
  sr_metadata :: "string list option"
  sr_raw :: raw_results

text \<open>A \<open>float64\<close> that may be negative: \<open>(m, j)\<close> stands for \<open>m / 2 ^ j\<close>.\<close>

type_synonym score = "int \<times> nat"

record check_doc =
  cd_url :: "string \<Rightarrow> string" \<comment> \<open>by the commit of the engine\<close>
  cd_short :: string

record check_docs =
  dc_get_check :: "string \<Rightarrow> check_doc res"
  dc_aggregate :: "scan_result \<Rightarrow> score res"
  dc_internal :: "string \<Rightarrow> err" \<comment> \<open>\<open>sce.WithMessage(sce.ErrScorecardInternal, msg)\<close>\<close>

section \<open>Go values as JSON\<close>

definition json_int :: "int \<Rightarrow> json" where "json_int n = JNumber (itoa n)"

definition json_pointer :: "('a \<Rightarrow> json) \<Rightarrow> 'a option \<Rightarrow> json" where
  "json_pointer f p = (case p of None \<Rightarrow> JNull | Some x \<Rightarrow> f x)"

definition json_slice :: "('a \<Rightarrow> json) \<Rightarrow> 'a list option \<Rightarrow> json" where
  "json_slice f xs = (case xs of None \<Rightarrow> JNull | Some ys \<Rightarrow> JArray (map f ys))"

text \<open>A slice that elements were appended to, nil before.\<close>

definition appended :: "'a list \<Rightarrow> 'a list option" where
  "appended xs = (if xs = [] then None else Some xs)"

text \<open>\<open>fmt.Sprintf("%.1f", s)\<close>: to the nearest tenth, ties to even.\<close>

definition format_score :: "score \<Rightarrow> string" where
  "format_score s =
     (case s of (m, j) \<Rightarrow>
        let q = round_div (nat \<bar>m\<bar> * 10) (2 ^ j)
        in (if m < 0 then ''-'' else []) @ itoa_nat (q div 10) @ ''.'' @ [digit_char (q mod 10)])"

section \<open>Scored records\<close>

text \<open>The details that are shown: those with a text.\<close>

definition shown_details :: "bool \<Rightarrow> log_level \<Rightarrow> check_result \<Rightarrow> string list" where
  "shown_details showDetails logLevel c =
     (if showDetails then filter (\<lambda>m. m \<noteq> []) (map (\<lambda>d. d logLevel) (cr_details c)) else [])"

definition json_check :: "bool \<Rightarrow> log_level \<Rightarrow> check_result \<Rightarrow> json" where
  "json_check showDetails logLevel c =
     JObject [(''Name'', JString (cr_name c)),
       (''Details'', json_slice JString (appended (shown_details showDetails logLevel c))),
       (''Confidence'', json_int 0), (''Pass'', JBool False)]"

definition as_json :: "scan_result \<Rightarrow> bool \<Rightarrow> log_level \<Rightarrow> string res" where
  "as_json r showDetails logLevel =
     Inr (encode_json (JObject [(''Repo'', JString (sr_repo_name r)), (''Date'', JString (format_date (sr_date r))),
       (''Checks'', json_slice (json_check showDetails logLevel) (appended (sr_checks r))),
       (''Metadata'', json_slice JString (sr_metadata r))]))"

definition json_check_v2 :: "scan_result \<Rightarrow> bool \<Rightarrow> log_level \<Rightarrow> check_result \<Rightarrow> check_doc \<Rightarrow> json" where
  "json_check_v2 r showDetails logLevel c d =
     JObject [(''details'', json_slice JString (appended (shown_details showDetails logLevel c))),
       (''score'', json_int (cr_score c)), (''reason'', JString (cr_reason c)), (''name'', JString (cr_name c)),
       (''documentation'', JObject [(''url'', JString (cd_url d (sr_engine_sha r))), (''short'', JString (cd_short d))])]"

fun json_checks_v2 ::
  "check_docs \<Rightarrow> scan_result \<Rightarrow> bool \<Rightarrow> log_level \<Rightarrow> check_result list \<Rightarrow> json list res" where
  "json_checks_v2 D r showDetails logLevel [] = Inr []"
| "json_checks_v2 D r showDetails logLevel (c # cs) =
     (case dc_get_check D (cr_name c) of
        Inl e \<Rightarrow> Inl (dc_internal D (''GetCheck: '' @ cr_name c @ '': '' @ err_text e))
      | Inr d \<Rightarrow>
          (case json_checks_v2 D r showDetails logLevel cs of
             Inl e \<Rightarrow> Inl e
           | Inr js \<Rightarrow> Inr (json_check_v2 r showDetails logLevel c d # js)))"

definition json_repo :: "scan_result \<Rightarrow> json" where
  "json_repo r = JObject [(''name'', JString (sr_repo_name r)), (''commit'', JString (sr_repo_sha r))]"

definition json_scorecard :: "scan_result \<Rightarrow> json" where
  "json_scorecard r = JObject [(''version'', JString (sr_version r)), (''commit'', JString (sr_engine_sha r))]"

text \<open>The value \<open>AsJSON2\<close> encodes, and what it writes.\<close>

definition json_result_v2 :: "check_docs \<Rightarrow> scan_result \<Rightarrow> bool \<Rightarrow> log_level \<Rightarrow> json res" where
  "json_result_v2 D r showDetails logLevel =
     (case dc_aggregate D r of
        Inl e \<Rightarrow> Inl e
      | Inr score \<Rightarrow>
          (case json_checks_v2 D r showDetails logLevel (sr_checks r) of
             Inl e \<Rightarrow> Inl e
           | Inr cs \<Rightarrow> Inr (JObject
               [(''date'', JString (format_date (sr_date r))), (''repo'', json_repo r), (''scorecard'', json_scorecard r),
                (''score'', JNumber (format_score score)), (''checks'', json_slice id (appended cs)),
                (''metadata'', json_slice JString (sr_metadata r))])))"

definition as_json2 :: "check_docs \<Rightarrow> scan_result \<Rightarrow> bool \<Rightarrow> log_level \<Rightarrow> string res" where
  "as_json2 D r showDetails logLevel =
     (case json_result_v2 D r showDetails logLevel of Inl e \<Rightarrow> Inl e | Inr v \<Rightarrow> Inr (encode_json v))"

section \<open>Raw records\<close>

text \<open>The slices of \<open>jsonRawResults\<close>; every one is nil at first.\<close>

record json_raw_results =
  jr_vulnerabilities :: "json list option"
  jr_binaries :: "json list option"
  jr_policies :: "json list option"
  jr_tools :: "json list option"
  jr_branches :: "json list option"
  jr_changesets :: "json list option"

definition json_user :: "string \<Rightarrow> json" where "json_user login = JObject [(''login'', JString login)]"

text \<open>A file without its offset, which is omitted if it is 0.\<close>

definition json_file :: "string \<Rightarrow> json" where "json_file path = JObject [(''path'', JString path)]"

definition json_commit :: "commit_info \<Rightarrow> json" where
  "json_commit c = JObject [(''committer'', json_user (cm_login c)), (''message'', JString (cm_message c)), (''sha'', JString (cm_sha c))]"

definition json_changeset :: "changeset \<Rightarrow> json" where
  "json_changeset c = JObject [(''number'', JString (ch_revision_id c)), (''platform'', JString []), (''reviews'', JNull),
     (''authors'', JNull), (''commits'', JArray (map json_commit (ch_commits c)))]"

definition add_code_review_raw_results :: "json_raw_results \<Rightarrow> changeset list \<Rightarrow> json_raw_results" where
  "add_code_review_raw_results r cs = r\<lparr>jr_changesets := Some (map json_changeset cs)\<rparr>"

definition add_vulnerabilities_raw_results :: "json_raw_results \<Rightarrow> string list \<Rightarrow> json_raw_results" where
  "add_vulnerabilities_raw_results r ids = r\<lparr>jr_vulnerabilities := Some (map (\<lambda>i. JObject [(''id'', JString i)]) ids)\<rparr>"

definition add_binary_artifact_raw_results :: "json_raw_results \<Rightarrow> string list \<Rightarrow> json_raw_results" where
  "add_binary_artifact_raw_results r paths = r\<lparr>jr_binaries := Some (map json_file paths)\<rparr>"

definition add_security_policy_raw_results :: "json_raw_results \<Rightarrow> string list \<Rightarrow> json_raw_results" where
  "add_security_policy_raw_results r paths = r\<lparr>jr_policies := Some (map json_file paths)\<rparr>"

definition json_tool :: "update_tool \<Rightarrow> json" where
  "json_tool t = JObject [(''url'', json_pointer JString (ut_url t)), (''desc'', json_pointer JString (ut_desc t)),
     (''name'', JString (ut_name t)), (''file'', json_slice json_file (appended (ut_files t)))]"

definition add_dependency_update_tool_raw_results :: "json_raw_results \<Rightarrow> update_tool list \<Rightarrow> json_raw_results" where
  "add_dependency_update_tool_raw_results r ts = r\<lparr>jr_tools := Some (map json_tool ts)\<rparr>"

definition json_protection :: "protection_rule \<Rightarrow> json" where
  "json_protection p = JObject
     [(''requiredReviewerCount'', json_pointer json_int (pr_required_approving p)),
      (''allowsDeletions'', json_pointer JBool (pr_allow_deletions p)),
      (''allowsForcePushes'', json_pointer JBool (pr_allow_force_pushes p)),
      (''requiresCodeOwnerReview'', json_pointer JBool (pr_code_owner_reviews p)),
      (''requiredLinearHistory'', json_pointer JBool (pr_linear_history p)),
      (''dismissesStaleReviews'', json_pointer JBool (pr_dismiss_stale p)),
      (''enforcesAdmin'', json_pointer JBool (pr_enforce_admins p)),
      (''requiresStatusChecks'', json_pointer JBool (pr_status_checks p)),
      (''requiresUpdatedBranchesToMerge'', json_pointer JBool (pr_up_to_date p)),
      (''statusChecksContexts'', json_slice JString (pr_contexts p))]"

fun json_branches :: "branch list \<Rightarrow> json list" where
  "json_branches [] = []"
| "json_branches (b # bs) =
     (let bp = (if bh_protected b = Some True then json_protection (bh_rule b) else JNull)
      in case bh_name b of
           None \<Rightarrow> json_branches bs
         | Some name \<Rightarrow> JObject [(''protection'', bp), (''name'', JString name)] # json_branches bs)"

definition add_branch_protection_raw_results :: "json_raw_results \<Rightarrow> branch list \<Rightarrow> json_raw_results" where
  "add_branch_protection_raw_results r bs = r\<lparr>jr_branches := Some (json_branches bs)\<rparr>"

definition empty_raw :: json_raw_results where
  "empty_raw = \<lparr>jr_vulnerabilities = None, jr_binaries = None, jr_policies = None, jr_tools = None,
     jr_branches = None, jr_changesets = None\<rparr>"

definition fill_json_raw_results :: "json_raw_results \<Rightarrow> raw_results \<Rightarrow> json_raw_results" where
  "fill_json_raw_results r raw =
     (let r = add_vulnerabilities_raw_results r (rw_vulnerabilities raw);
          r = add_binary_artifact_raw_results r (rw_binaries raw);
          r = add_security_policy_raw_results r (rw_policies raw);
          r = add_dependency_update_tool_raw_results r (rw_tools raw);
          r = add_branch_protection_raw_results r (rw_branches raw)
      in add_code_review_raw_results r (rw_changesets raw))"

definition json_raw_value :: "json_raw_results \<Rightarrow> json" where
  "json_raw_value r = JObject
     [(''databaseVulnerabilities'', json_slice id (jr_vulnerabilities r)), (''binaries'', json_slice id (jr_binaries r)),
      (''securityPolicies'', json_slice id (jr_policies r)), (''dependencyUpdateTools'', json_slice id (jr_tools r)),
      (''branchProtections'', json_slice id (jr_branches r)), (''defaultBranchChangesets'', json_slice id (jr_changesets r))]"

definition json_raw_result :: "scan_result \<Rightarrow> json" where
  "json_raw_result r = JObject
     [(''date'', JString (format_date (sr_date r))), (''repo'', json_repo r), (''scorecard'', json_scorecard r),
      (''metadata'', json_slice JString (sr_metadata r)),
      (''results'', json_raw_value (fill_json_raw_results empty_raw (sr_raw r)))]"

definition as_raw_json :: "scan_result \<Rightarrow> string res" where
  "as_raw_json r = Inr (encode_json (json_raw_result r))"

section \<open>The records are read back\<close>

lemma itoa_nat_number: "list_all number_char (itoa_nat n)"
  using itoa_nat_digits [of n] by (auto simp: number_char_def list_all_iff)

lemma json_int_ok [simp]: "numbers_ok (json_int n)"
  using itoa_nat_number by (auto simp: json_int_def itoa_def number_char_def)

lemma format_score_ok [simp]: "format_score s \<noteq> []" "list_all number_char (format_score s)"
proof -
  have "number_char (digit_char (n mod 10))" for n
    using is_digit_digit_char [of "n mod 10"] by (simp add: number_char_def)
  then show "format_score s \<noteq> []" "list_all number_char (format_score s)"
    using itoa_nat_number by (cases s; auto simp: format_score_def Let_def number_char_def)+
qed

lemma json_slice_ok [simp]:
  "numbers_ok (json_slice f xs) \<longleftrightarrow> (\<forall>ys. xs = Some ys \<longrightarrow> list_all (\<lambda>y. numbers_ok (f y)) ys)"
  by (cases xs) (auto simp: json_slice_def list_all_iff)

lemma json_pointer_ok [simp]: "numbers_ok (json_pointer f p) \<longleftrightarrow> (\<forall>x. p = Some x \<longrightarrow> numbers_ok (f x))"
  by (cases p) (auto simp: json_pointer_def)

lemma appended_Some [simp]: "appended xs = Some ys \<longleftrightarrow> xs = ys \<and> xs \<noteq> []"
  by (auto simp: appended_def)

lemma json_checks_v2_ok:
  "json_checks_v2 D r sd l cs = Inr js \<Longrightarrow> list_all numbers_ok js"
  by (induction cs arbitrary: js) (auto simp: json_check_v2_def list.pred_True split: sum.splits)

lemma json_result_v2_ok: "json_result_v2 D r sd l = Inr v \<Longrightarrow> numbers_ok v"
  using json_checks_v2_ok [of D r sd l "sr_checks r"]
  by (auto simp: json_result_v2_def json_repo_def json_scorecard_def list.pred_True split: sum.splits)

lemma json_branches_ok: "list_all numbers_ok (json_branches bs)"
  by (induction bs) (auto simp: json_protection_def list.pred_True Let_def split: option.split)

lemma json_raw_result_ok: "numbers_ok (json_raw_result r)"
  by (simp add: json_raw_result_def json_repo_def json_scorecard_def json_raw_value_def fill_json_raw_results_def
      add_code_review_raw_results_def add_vulnerabilities_raw_results_def add_binary_artifact_raw_results_def
      add_security_policy_raw_results_def add_dependency_update_tool_raw_results_def
      add_branch_protection_raw_results_def json_file_def json_tool_def json_changeset_def
      json_commit_def json_user_def json_branches_ok list.pred_True list.pred_map o_def)

lemma as_json2_encoded: "as_json2 D r sd l = Inr t \<Longrightarrow> \<exists>v. json_result_v2 D r sd l = Inr v \<and> t = encode_json v \<and> numbers_ok v"
  using json_result_v2_ok by (auto simp: as_json2_def split: sum.splits)

text \<open>What the records hold, as a reader finds it.\<close>

fun member :: "string \<Rightarrow> json \<Rightarrow> json option" where
  "member k (JObject ms) = map_of ms k"
| "member k v = None"

fun elements :: "json \<Rightarrow> json list" where
  "elements (JArray vs) = vs"
| "elements v = []"

lemma map_of_well_formed:
  "list_all (\<lambda>m. list_all is_ascii (fst m)) ms \<Longrightarrow>
   map_of (map (\<lambda>m. (well_formed (fst m), well_formed_json (snd m))) ms) k = map_option well_formed_json (map_of ms k)"
  by (induction ms) (auto simp: well_formed_ascii)

lemma member_well_formed:
  "list_all (\<lambda>m. list_all is_ascii (fst m)) ms \<Longrightarrow>
   member k (well_formed_json (JObject ms)) = map_option well_formed_json (map_of ms k)"
  by (simp add: map_of_well_formed)

lemmas ascii_keys = is_ascii_def ord_def

lemma well_formed_slice:
  "well_formed_json (json_slice f xs) = json_slice (\<lambda>x. well_formed_json (f x)) xs"
  by (cases xs) (simp_all add: json_slice_def)

lemma elements_appended: "elements (json_slice f (appended xs)) = map f xs"
  by (simp add: json_slice_def appended_def)

lemma elements_Some: "elements (json_slice f (Some xs)) = map f xs"
  by (simp add: json_slice_def)

lemma ascii_digits: "list_all is_ascii (itoa_nat n)"
  using itoa_nat_digits [of n] by (auto simp: list_all_iff is_digit_def is_ascii_def)

lemma well_formed_date [simp]: "well_formed (format_date t) = format_date t"
proof -
  have "list_all is_ascii (pad0 w (itoa_nat n))" for w n
    using ascii_digits [of n] by (auto simp: pad0_def list_all_iff is_ascii_def ord_def)
  then have "list_all is_ascii (format_date t)"
    by (simp add: format_date_def fmt_year_def two_def) (simp add: is_ascii_def ord_def)
  then show ?thesis by (rule well_formed_ascii)
qed

lemma checks_v2_elements:
  "json_checks_v2 D r sd l cs = Inr js \<Longrightarrow>
   \<exists>ds. js = map2 (json_check_v2 r sd l) cs ds \<and> length ds = length cs \<and>
     list_all2 (\<lambda>c d. dc_get_check D (cr_name c) = Inr d) cs ds"
proof (induction cs arbitrary: js)
  case (Cons c cs)
  then obtain d js' where d: "dc_get_check D (cr_name c) = Inr d" "json_checks_v2 D r sd l cs = Inr js'"
      "js = json_check_v2 r sd l c d # js'"
    by (auto split: sum.splits)
  from Cons.IH [OF d(2)] obtain ds where
    "js' = map2 (json_check_v2 r sd l) cs ds" "length ds = length cs" "list_all2 (\<lambda>c d. dc_get_check D (cr_name c) = Inr d) cs ds"
    by blast
  then show ?case using d by (intro exI [of _ "d # ds"]) simp
qed simp

lemma map_map2:
  "length ds = length cs \<Longrightarrow> (\<And>c d. g (f c d) = h c) \<Longrightarrow> map g (map2 f cs ds) = map h cs"
  by (induction ds cs rule: list_induct2) auto

text \<open>
  C35.  What \<open>AsJSON2\<close> writes is one line, and a reader finds in it, whatever bytes the names and
  reasons contain, the date of the scan, the score to one decimal, and one entry for every
  check, in their order, with its name and its score.
\<close>

theorem record_reads_back:
  assumes "as_json2 D r showDetails logLevel = Inr text"
  shows "\<exists>v s. json_lines text = [Some v] \<and> dc_aggregate D r = Inr s \<and>
    member ''date'' v = Some (JString (format_date (sr_date r))) \<and>
    member ''score'' v = Some (JNumber (format_score s)) \<and>
    (\<exists>checks. member ''checks'' v = Some checks \<and>
      map (member ''name'') (elements checks) = map (\<lambda>c. Some (JString (well_formed (cr_name c)))) (sr_checks r) \<and>
      map (member ''score'') (elements checks) = map (\<lambda>c. Some (json_int (cr_score c))) (sr_checks r))"
proof -
  obtain v where v: "json_result_v2 D r showDetails logLevel = Inr v" "text = encode_json v" "numbers_ok v"
    using as_json2_encoded [OF assms] by blast
  then obtain s js where sj: "dc_aggregate D r = Inr s" "json_checks_v2 D r showDetails logLevel (sr_checks r) = Inr js"
    by (auto simp: json_result_v2_def split: sum.splits)
  obtain ds where js: "js = map2 (json_check_v2 r showDetails logLevel) (sr_checks r) ds" "length ds = length (sr_checks r)"
    using checks_v2_elements [OF sj(2)] by blast
  have lines: "json_lines text = [Some (well_formed_json v)]"
    using json_lines_encoded [of "[v]"] v by simp
  have mem: "member k (well_formed_json v) = map_option well_formed_json (member k v)" for k
    using v(1) sj by (auto simp: json_result_v2_def member_well_formed ascii_keys simp del: well_formed_json.simps map_of.simps)
  have cm: "member ''name'' (well_formed_json (json_check_v2 r showDetails logLevel c d)) = Some (JString (well_formed (cr_name c)))"
    "member ''score'' (well_formed_json (json_check_v2 r showDetails logLevel c d)) = Some (json_int (cr_score c))" for c d
    by (simp_all add: json_check_v2_def member_well_formed ascii_keys json_int_def del: well_formed_json.simps(2,3))
  have "elements (well_formed_json (json_slice id (appended js))) = map well_formed_json js"
    by (simp add: well_formed_slice elements_appended)
  then have el: "map g (elements (well_formed_json (json_slice id (appended js)))) = map h (sr_checks r)"
    if "\<And>c d. g (well_formed_json (json_check_v2 r showDetails logLevel c d)) = h c" for g :: "json \<Rightarrow> json option" and h
    using map_map2 [OF js(2), of "\<lambda>j. g (well_formed_json j)"] that js(1) by (simp add: o_def)
  have "member ''date'' v = Some (JString (format_date (sr_date r)))" "member ''score'' v = Some (JNumber (format_score s))"
    "member ''checks'' v = Some (json_slice id (appended js))"
    using v(1) sj by (auto simp: json_result_v2_def)
  moreover have
    "map (member ''name'') (elements (well_formed_json (json_slice id (appended js)))) =
       map (\<lambda>c. Some (JString (well_formed (cr_name c)))) (sr_checks r)"
    "map (member ''score'') (elements (well_formed_json (json_slice id (appended js)))) =
       map (\<lambda>c. Some (json_int (cr_score c))) (sr_checks r)"
    by (intro el cm)+
  ultimately show ?thesis
    using lines sj(1) by (intro exI [of _ "well_formed_json v"] exI [of _ s]) (simp add: mem)
qed

text \<open>
  \<open>AsJSON2\<close> fails exactly if the score cannot be computed or some check has no documentation; it
  writes nothing then.
\<close>

theorem as_json2_outcomes:
  "(\<exists>text. as_json2 D r showDetails logLevel = Inr text) \<longleftrightarrow>
     (\<exists>s. dc_aggregate D r = Inr s) \<and> (\<forall>c \<in> set (sr_checks r). \<exists>d. dc_get_check D (cr_name c) = Inr d)"
proof -
  have checks: "(\<exists>js. json_checks_v2 D r showDetails logLevel cs = Inr js) \<longleftrightarrow>
      (\<forall>c \<in> set cs. \<exists>d. dc_get_check D (cr_name c) = Inr d)" for cs
    by (induction cs) (auto split: sum.splits)
  show ?thesis
    using checks [of "sr_checks r"]
    by (cases "dc_aggregate D r"; cases "json_checks_v2 D r showDetails logLevel (sr_checks r)")
      (auto simp: as_json2_def json_result_v2_def)
qed

text \<open>The score that is printed is within a twentieth of the score.\<close>

lemma round_div_near:
  assumes "0 < b"
  shows "2 * x \<le> 2 * (round_div x b * b) + b"
proof -
  have "x = x div b * b + x mod b" by simp
  then have x: "2 * x = 2 * (x div b * b) + 2 * (x mod b)" by linarith
  have "x mod b < b" using assms by simp
  then show ?thesis using x by (auto simp: round_div_def Let_def)
qed

lemma format_score_near:
  "\<bar>2 * int (round_div (nat \<bar>m\<bar> * 10) (2 ^ j) * 2 ^ j) - 20 * \<bar>m\<bar>\<bar> \<le> 2 ^ j"
proof -
  define q where "q = round_div (nat \<bar>m\<bar> * 10) (2 ^ j) * 2 ^ j"
  have "2 * q \<le> 2 * (nat \<bar>m\<bar> * 10) + 2 ^ j" "2 * (nat \<bar>m\<bar> * 10) \<le> 2 * q + 2 ^ j"
    using round_div_le [of "2 ^ j" "nat \<bar>m\<bar> * 10"] round_div_near [of "2 ^ j" "nat \<bar>m\<bar> * 10"] by (simp_all add: q_def)
  then have "2 * int q \<le> 2 * (\<bar>m\<bar> * 10) + 2 ^ j" "2 * (\<bar>m\<bar> * 10) \<le> 2 * int q + 2 ^ j"
    by (simp_all flip: of_nat_le_iff [where 'a = int])
  then show ?thesis unfolding q_def [symmetric] by (intro abs_leI) linarith+
qed

text \<open>
   The raw record of every scan can be written, whatever the pointers of its branches are:
  it is one line, in which each branch that has a name is listed once, in order, with its
  settings exactly if it is known to be protected; branches without a name are left out.
\<close>

theorem raw_record_lists_branches:
  "\<exists>text v bs. as_raw_json r = Inr text \<and> json_lines text = [Some v] \<and>
     (case member ''results'' v of None \<Rightarrow> None | Some x \<Rightarrow> member ''branchProtections'' x) = Some (JArray bs) \<and>
     map (member ''name'') bs =
       map (\<lambda>b. map_option (\<lambda>n. JString (well_formed n)) (bh_name b)) (filter (\<lambda>b. bh_name b \<noteq> None) (rw_branches (sr_raw r))) \<and>
     map (\<lambda>b. member ''protection'' b = Some JNull) bs =
       map (\<lambda>b. bh_protected b \<noteq> Some True) (filter (\<lambda>b. bh_name b \<noteq> None) (rw_branches (sr_raw r)))"
proof -
  define bs where "bs = map well_formed_json (json_branches (rw_branches (sr_raw r)))"
  have lines: "json_lines (encode_json (json_raw_result r)) = [Some (well_formed_json (json_raw_result r))]"
    using json_lines_encoded [of "[json_raw_result r]"] json_raw_result_ok [of r] by simp
  have res: "member ''results'' (well_formed_json (json_raw_result r)) =
      Some (well_formed_json (json_raw_value (fill_json_raw_results empty_raw (sr_raw r))))"
    by (simp add: json_raw_result_def member_well_formed ascii_keys del: well_formed_json.simps)
  have br: "member ''branchProtections'' (well_formed_json (json_raw_value (fill_json_raw_results empty_raw (sr_raw r)))) =
      Some (JArray bs)"
    by (simp add: json_raw_value_def member_well_formed ascii_keys del: well_formed_json.simps)
      (simp add: well_formed_slice json_slice_def bs_def fill_json_raw_results_def add_code_review_raw_results_def
        add_branch_protection_raw_results_def)
  have names: "map (member ''name'') (map well_formed_json (json_branches xs)) =
      map (\<lambda>b. map_option (\<lambda>n. JString (well_formed n)) (bh_name b)) (filter (\<lambda>b. bh_name b \<noteq> None) xs)" for xs
    by (induction xs) (auto simp: Let_def well_formed_ascii ascii_keys split: option.split)
  have prot: "map (\<lambda>b. member ''protection'' b = Some JNull) (map well_formed_json (json_branches xs)) =
      map (\<lambda>b. bh_protected b \<noteq> Some True) (filter (\<lambda>b. bh_name b \<noteq> None) xs)" for xs
    by (induction xs) (auto simp: Let_def well_formed_ascii ascii_keys json_protection_def split: option.split)
  show ?thesis
    using lines res br names prot by (intro exI [of _ bs] exI) (auto simp: as_raw_json_def bs_def)
qed

section \<open>A record\<close>

definition example_docs :: check_docs where
  "example_docs = \<lparr>dc_get_check = (\<lambda>n. if n = ''SAST'' then Inr \<lparr>cd_url = (\<lambda>c. ''https://example.com/'' @ c), cd_short = ''s''\<rparr>
       else Inl (Sentinel ''no such check'')),
     dc_aggregate = (\<lambda>r. Inr (15, 1)), dc_internal = (\<lambda>m. errorf [W (Sentinel ''internal error''), L '': '', L m])\<rparr>"

definition example_day :: civil where
  "example_day = \<lparr>year = 2024, month = 5, day = 6, hour = 7, minute = 8, second = 9, nanos = 0\<rparr>"

definition example_result :: scan_result where
  "example_result = \<lparr>sr_repo_name = ''github.com/a/b'', sr_repo_sha = ''c0ffee'', sr_version = [], sr_engine_sha = [],
     sr_date = example_day,
     sr_checks = [\<lparr>cr_name = ''SAST'', cr_error = None, cr_score = 7, cr_reason = ''a <b>'', cr_details = []\<rparr>],
     sr_metadata = None,
     sr_raw = \<lparr>rw_changesets = [], rw_vulnerabilities = [], rw_binaries = [], rw_policies = [], rw_tools = [], rw_branches = []\<rparr>\<rparr>"

lemma record_reads_back_witness:
  "\<exists>line v checks. as_json2 example_docs example_result True ''INFO'' = Inr line \<and> json_lines line = [Some v] \<and>
     member ''score'' v = Some (JNumber ''7.5'') \<and> member ''checks'' v = Some checks \<and>
     map (member ''name'') (elements checks) = [Some (JString ''SAST'')]"
proof -
  obtain line where t: "as_json2 example_docs example_result True ''INFO'' = Inr line"
    by (simp add: as_json2_def json_result_v2_def example_docs_def example_result_def)
  have "format_score (15, 1) = ''7.5''"
    by (simp add: format_score_def round_div_def itoa_nat.simps digit_char_def)
  then show ?thesis
    using t record_reads_back [OF t]
    by (auto simp: example_docs_def example_result_def well_formed_ascii ascii_keys)
qed

end
