(* ===== verification/CronWorker.thy ===== *)
theory CronWorker
  imports Subscribers Cdn CronFormat
begin

text \<open>
  \<open>cron/internal/worker/main.go\<close> and \<open>cron/internal/provenance\<close>: the worker that scans the
  repositories of a request and stores the results.  The Scorecard engine and its check policy
  are parameters, the records are those of \<open>CronFormat\<close>; the CDN clients are those of the theory \<open>Cdn\<close>, which
  \<open>cron/internal/cdn\<close> repeats.
\<close>

section \<open>Provenance\<close>

record build_module =
  bm_path :: string
  bm_version :: string
  bm_replace :: "string option" \<comment> \<open>the version of the module that replaces it\<close>

definition engine_path :: string where "engine_path = ''github.com/ossf/scorecard/v5''"

fun version_of_deps :: "build_module list \<Rightarrow> string" where
  "version_of_deps [] = []"
| "version_of_deps (d # ds) =
     (if bm_path d \<noteq> engine_path then version_of_deps ds
      else (case bm_replace d of Some v \<Rightarrow> v | None \<Rightarrow> bm_version d))"

definition engine_version_from :: "build_module list option \<Rightarrow> string" where
  "engine_version_from bi = (case bi of None \<Rightarrow> [] | Some deps \<Rightarrow> version_of_deps deps)"

definition provenance_engine :: "build_module list option \<Rightarrow> string \<Rightarrow> string \<times> string" where
  "provenance_engine bi engineCommit = (engine_version_from bi, engineCommit)"

section \<open>The engine\<close>

record scan_repo =
  sp_uri :: string
  sp_type :: string
  sp_metadata :: "string list"

datatype forge = Github | Gitlab

record scan_engine =
  se_make_gitlab :: "string \<Rightarrow> scan_repo res"
  se_make_github :: "string \<Rightarrow> scan_repo res"
  se_get_enabled :: "bool \<Rightarrow> string \<Rightarrow> string list res" \<comment> \<open>by whether commit-based checks are required, and by type\<close>
  se_run :: "scan_repo \<Rightarrow> string \<Rightarrow> string list \<Rightarrow> forge \<Rightarrow> scan_result \<times> err option"
  se_docs :: check_docs
  se_info_level :: log_level

definition gitlab_disabled_checks :: "string list" where
  "gitlab_disabled_checks = [''Branch-Protection'', ''CI-Tests'', ''Contributors'', ''Dangerous-Workflow'',
     ''Dependency-Update-Tool'', ''SAST'', ''Token-Permissions'', ''Webhooks'']"

record 's worker_env =
  we_storage :: "'s object_store"
  we_engine :: scan_engine
  we_blacklisted_checks :: "string list"
  we_raw_bucket :: string
  we_api_bucket :: string
  we_ignore_runtime_errors :: bool
  we_provenance :: "string \<times> string"
  we_new_request :: "string \<Rightarrow> err option"
  we_network :: network
  we_purge_client :: purger

text \<open>The purger, from the environment and the configured base URL.\<close>

definition cron_get_purger :: "(string \<Rightarrow> string) \<Rightarrow> string \<Rightarrow> purger" where
  "cron_get_purger getenv apiBaseURL =
     (if getenv ''STORAGE_EMULATOR_HOST'' \<noteq> [] then NoOpClient
      else if apiBaseURL = [] then NoOpClient
      else if getenv ''FASTLY_PURGE_TOKEN'' = [] then NoOpClient
      else new_fastly_client (getenv ''FASTLY_PURGE_TOKEN'') apiBaseURL)"

section \<open>Storage inside the world\<close>

definition in_world :: "'s object_store \<Rightarrow> 's world object_store" where
  "in_world B = \<lparr>os_open = (\<lambda>w. os_open B (wd_store w)), os_list = (\<lambda>w. os_list B (wd_store w)),
     os_read_all = (\<lambda>w. os_read_all B (wd_store w)), os_exists = (\<lambda>w. os_exists B (wd_store w)),
     os_new_writer = (\<lambda>w. os_new_writer B (wd_store w)), os_write = (\<lambda>w. os_write B (wd_store w)),
     os_finish = (\<lambda>w u k d. case os_finish B (wd_store w) u k d of (e, s) \<Rightarrow> (e, w\<lparr>wd_store := s\<rparr>))\<rparr>"

lemma in_world_model: "bucket_model B objs \<Longrightarrow> bucket_model (in_world B) (\<lambda>w. objs (wd_store w))"
proof unfold_locales
  assume "bucket_model B objs"
  note laws = bucket_model.listed [OF this] bucket_model.finished [OF this] bucket_model.failed [OF this]
    bucket_model.read [OF this] bucket_model.exists [OF this]
  fix w u p k d e w' uk
  show "os_list (in_world B) w u p = (ks, None) \<Longrightarrow>
      distinct ks \<and> set ks = {k. objs (wd_store w) (u, k) \<noteq> None \<and> prefix p k}" for ks
    using laws(1) by (simp add: in_world_def)
  show "os_finish (in_world B) w u k d = (None, w') \<Longrightarrow> objs (wd_store w') = (objs (wd_store w))((u, k) \<mapsto> d)"
    using laws(2) by (auto simp: in_world_def split: prod.splits)
  show "os_finish (in_world B) w u k d = (Some e, w') \<Longrightarrow> objs (wd_store w) uk \<noteq> None \<Longrightarrow>
      objs (wd_store w') uk \<noteq> None"
    using laws(3) [of "wd_store w" u k d e _ uk] by (auto simp: in_world_def split: prod.splits)
  show "os_read_all (in_world B) w u k = Inr d \<Longrightarrow> objs (wd_store w) (u, k) = Some d"
    using laws(4) by (simp add: in_world_def)
  show "os_exists (in_world B) w u k = Inr b \<Longrightarrow> b \<longleftrightarrow> objs (wd_store w) (u, k) \<noteq> None" for b
    using laws(5) by (simp add: in_world_def)
qed

section \<open>One repository\<close>

datatype 's scanned =
  Skipped
| Failed err "'s world"
| Stored string string "'s world" \<comment> \<open>its record, its raw record\<close>

definition str_contains :: "string \<Rightarrow> string \<Rightarrow> bool" where
  "str_contains s sub = list_ex (prefix sub) (suffixes s)"

definition choose_repo :: "'s worker_env \<Rightarrow> string \<Rightarrow> (scan_repo \<times> forge \<times> string list) option" where
  "choose_repo E url =
     (case se_make_gitlab (we_engine E) url of
        Inr repo \<Rightarrow> Some (repo, Gitlab, gitlab_disabled_checks)
      | Inl e \<Rightarrow>
          (case se_make_github (we_engine E) url of
             Inr repo \<Rightarrow> Some (repo, Github, we_blacklisted_checks E)
           | Inl e' \<Rightarrow> None))"

text \<open>The first check with an internal error, unless such errors are ignored.\<close>

definition runtime_error :: "'s worker_env \<Rightarrow> scan_result \<Rightarrow> err option" where
  "runtime_error E result =
     (if we_ignore_runtime_errors E then None
      else (case find (\<lambda>c. case cr_error c of None \<Rightarrow> False | Some e \<Rightarrow> errors_is ''internal error'' e) (sr_checks result) of
          None \<Rightarrow> None
        | Some c \<Rightarrow> map_option (\<lambda>e. Sentinel (''check '' @ cr_name c @ '' has a runtime error: '' @ err_text e)) (cr_error c)))"

text \<open>Writing an object, with the error the worker makes of a failure.\<close>

definition store_object :: "'s worker_env \<Rightarrow> string \<Rightarrow> 's world \<Rightarrow> string \<Rightarrow> string \<Rightarrow> string \<Rightarrow> err option \<times> 's world" where
  "store_object E what w url k d =
     (case write_to_blob_store (in_world (we_storage E)) w url k d of
        (Some e, w1) \<Rightarrow> (Some (errorf [L what, W e]), w1)
      | (None, w1) \<Rightarrow> (None, w1))"

definition purge_path :: "'s worker_env \<Rightarrow> 's world \<Rightarrow> string \<Rightarrow> 's world" where
  "purge_path E w path = snd (purge (we_new_request E) (we_network E) (we_purge_client E) w path)"

definition export_results ::
  "'s worker_env \<Rightarrow> 's world \<Rightarrow> string \<Rightarrow> string \<Rightarrow> string \<Rightarrow> string \<Rightarrow> err option \<times> 's world" where
  "export_results E w uri sha json raw =
     (case store_object E ''error during writing to exportBucketURL: '' w (we_api_bucket E) (uri @ ''/results.json'') json of
        (Some e, w1) \<Rightarrow> (Some e, w1)
      | (None, w1) \<Rightarrow>
      let w2 = purge_path E w1 (''/projects/'' @ uri) in
      case store_object E ''error during exportBucketURL with commit SHA: '' w2 (we_api_bucket E)
             (uri @ ''/'' @ sha @ ''/results.json'') json of
        (Some e, w3) \<Rightarrow> (Some e, w3)
      | (None, w3) \<Rightarrow>
      let w4 = purge_path E w3 (''/projects/'' @ uri @ ''?commit='' @ sha) in
      case store_object E ''error during writing to exportBucketURL for raw results: '' w4 (we_api_bucket E)
             (uri @ ''/raw.json'') raw of
        (Some e, w5) \<Rightarrow> (Some e, w5)
      | (None, w5) \<Rightarrow>
      store_object E ''error during exportBucketURL for raw results with commit SHA: '' w5 (we_api_bucket E)
             (uri @ ''/'' @ sha @ ''/raw.json'') raw)"

definition scan_and_store ::
  "'s worker_env \<Rightarrow> civil \<Rightarrow> batch_repo \<Rightarrow> scan_repo \<Rightarrow> forge \<Rightarrow> string list \<Rightarrow> 's world \<Rightarrow> 's scanned" where
  "scan_and_store E jobTime repoReq repo forge enabledChecks w =
     (let commitSHA = (if br_commit repoReq \<noteq> head_sha then br_commit repoReq else head_sha) in
      case se_run (we_engine E) repo commitSHA enabledChecks forge of (result, err) \<Rightarrow>
      if (case err of None \<Rightarrow> False | Some e \<Rightarrow> errors_is ''repo unreachable'' e) then Skipped
      else if (case err of None \<Rightarrow> False | Some e \<Rightarrow> str_contains (err_text e) ''organization has an IP allow list'') then Skipped
      else case err of Some e \<Rightarrow> Failed (errorf [L ''error during scorecard.Run: '', W e]) w
      | None \<Rightarrow>
      case runtime_error E result of Some e \<Rightarrow> Failed e w
      | None \<Rightarrow>
      let result = result\<lparr>sr_version := fst (we_provenance E), sr_engine_sha := snd (we_provenance E), sr_date := jobTime\<rparr> in
      case as_json2 (se_docs (we_engine E)) result True (se_info_level (we_engine E)) of Inl e \<Rightarrow> Failed (errorf [L ''error during result.AsJSON2: '', W e]) w
      | Inr json \<Rightarrow>
      case as_raw_json result of
        Inl e \<Rightarrow> Failed (errorf [L ''error during result.AsRawJSON for export: '', W e]) w
      | Inr raw \<Rightarrow>
      case export_results E w (sp_uri repo) (sr_repo_sha result) json raw of
        (Some e, w1) \<Rightarrow> Failed e w1
      | (None, w1) \<Rightarrow> Stored json raw w1)"

definition process_repo :: "'s worker_env \<Rightarrow> civil \<Rightarrow> 's world \<Rightarrow> batch_repo \<Rightarrow> 's scanned" where
  "process_repo E jobTime w repoReq =
     (case choose_repo E (br_url repoReq) of
        None \<Rightarrow> Skipped
      | Some (repo, forge, disabledChecks) \<Rightarrow>
          let repo = repo\<lparr>sp_metadata := sp_metadata repo @ br_metadata repoReq\<rparr>
          in (case se_get_enabled (we_engine E) (br_commit repoReq \<noteq> head_sha) (sp_type repo) of
                Inl e \<Rightarrow> Failed (errorf [L ''error during policy.GetEnabled: '', W e]) w
              | Inr checksToRun \<Rightarrow>
                  scan_and_store E jobTime repoReq repo forge
                    (filter (\<lambda>c. c \<notin> set disabledChecks) checksToRun) w))"

section \<open>One request\<close>

fun process_repos ::
  "'s worker_env \<Rightarrow> civil \<Rightarrow> batch_repo list \<Rightarrow> 's world \<Rightarrow> string \<Rightarrow> string \<Rightarrow> (err + string \<times> string) \<times> 's world" where
  "process_repos E jobTime [] w buffer2 rawBuffer = (Inr (buffer2, rawBuffer), w)"
| "process_repos E jobTime (r # rs) w buffer2 rawBuffer =
     (case process_repo E jobTime w r of
        Skipped \<Rightarrow> process_repos E jobTime rs w buffer2 rawBuffer
      | Failed e w1 \<Rightarrow> (Inl e, w1)
      | Stored json raw w1 \<Rightarrow> process_repos E jobTime rs w1 (buffer2 @ json) (rawBuffer @ raw))"

definition process_batch :: "'s worker_env \<Rightarrow> batch_request \<Rightarrow> string \<Rightarrow> 's world \<Rightarrow> err option \<times> 's world" where
  "process_batch E batchRequest bucketURL w =
     (let filename = result_filename batchRequest in
      case process_repos E (bt_job_time batchRequest) (bt_repos batchRequest) w [] [] of
        (Inl e, w1) \<Rightarrow> (Some e, w1)
      | (Inr (buffer2, rawBuffer), w1) \<Rightarrow>
      case store_object E ''error during WriteToBlobStore2: '' w1 (we_raw_bucket E) filename rawBuffer of
        (Some e, w2) \<Rightarrow> (Some e, w2)
      | (None, w2) \<Rightarrow> store_object E ''error during WriteToBlobStore2: '' w2 bucketURL filename buffer2)"

text \<open>The \<open>Worker\<close>; \<open>PostProcess\<close> flushes metrics.\<close>

definition scorecard_worker :: "'s worker_env \<Rightarrow> 's world worker" where
  "scorecard_worker E = \<lparr>wk_store = in_world (we_storage E), wk_process = process_batch E, wk_post_process = (\<lambda>w. w)\<rparr>"

section \<open>The worker keeps its contract\<close>

text \<open>\<open>keeps objs w w'\<close>: no object of \<open>w\<close> is gone in \<open>w'\<close>.\<close>

definition keeps :: "('s \<Rightarrow> string \<times> string \<rightharpoonup> string) \<Rightarrow> 's world \<Rightarrow> 's world \<Rightarrow> bool" where
  "keeps objs w w' \<longleftrightarrow> (\<forall>uk. objs (wd_store w) uk \<noteq> None \<longrightarrow> objs (wd_store w') uk \<noteq> None)"

lemma keeps_refl [simp]: "keeps objs w w"
  by (simp add: keeps_def)

lemma keeps_trans: "keeps objs w1 w2 \<Longrightarrow> keeps objs w2 w3 \<Longrightarrow> keeps objs w1 w3"
  by (simp add: keeps_def)

lemma purge_path_store: "wd_store (purge_path E w path) = wd_store w"
  unfolding purge_path_def by (metis extends_store purge_extends surjective_pairing)

lemma keeps_purge [simp]:
  "keeps objs w' (purge_path E w path) = keeps objs w' w"
  "keeps objs (purge_path E w path) w' = keeps objs w w'"
  by (simp_all add: keeps_def purge_path_store)

context bucket_model begin

lemma store_object_stored:
  assumes "we_storage E = B" "store_object E what w u k d = (None, w')"
  shows "objs (wd_store w') = (objs (wd_store w))((u, k) \<mapsto> d)"
  using bucket_model.written [OF in_world_model [OF bucket_model_axioms], of w u k d w'] assms
  by (auto simp: store_object_def split: prod.splits option.splits)

lemma store_object_keeps:
  assumes "we_storage E = B" "store_object E what w u k d = (r, w')"
  shows "keeps objs w w'"
proof -
  obtain e where "write_to_blob_store (in_world B) w u k d = (e, w')"
    using assms by (auto simp: store_object_def split: prod.splits option.splits)
  from bucket_model.never_removed [OF in_world_model [OF bucket_model_axioms] this] show ?thesis
    by (simp add: keeps_def)
qed

lemma export_keeps:
  assumes B: "we_storage E = B" and "export_results E w uri sha json raw = (r, w')"
  shows "keeps objs w w'"
  using assms(2)
  by (auto simp: export_results_def Let_def split: prod.splits option.splits dest!: store_object_keeps [OF B])
    (blast intro: keeps_trans)+

lemma process_repo_keeps:
  assumes B: "we_storage E = B"
  shows "process_repo E t w r = Failed e w' \<Longrightarrow> keeps objs w w'"
    and "process_repo E t w r = Stored json raw w' \<Longrightarrow> keeps objs w w'"
  using export_keeps [OF B]
  by (auto simp: process_repo_def scan_and_store_def Let_def split: prod.splits option.splits sum.splits if_splits)

lemma process_repos_keeps:
  assumes B: "we_storage E = B"
  shows "process_repos E t rs w b rb = (x, w') \<Longrightarrow> keeps objs w w'"
proof (induction rs arbitrary: w b rb)
  case (Cons r rs)
  then show ?case
    using process_repo_keeps [OF B, of t w r] by (auto split: scanned.splits intro: keeps_trans)
qed simp

lemma process_batch_keeps:
  assumes B: "we_storage E = B" and p: "process_batch E req url w = (r, w')"
  shows "keeps objs w w'"
proof -
  obtain x w1 where x: "process_repos E (bt_job_time req) (bt_repos req) w [] [] = (x, w1)" by fastforce
  note k1 = process_repos_keeps [OF B x]
  show ?thesis
    using p k1 by (auto simp: process_batch_def Let_def x split: prod.splits option.splits sum.splits
        dest!: store_object_keeps [OF B]) (blast intro: keeps_trans)+
qed

lemma process_batch_stores:
  assumes B: "we_storage E = B" and p: "process_batch E req url w = (None, w')"
  shows "objs (wd_store w') (url, result_filename req) \<noteq> None"
  using p by (auto simp: process_batch_def Let_def split: prod.splits option.splits sum.splits
      dest!: store_object_stored [OF B])

end

lemma scorecard_worker_contract:
  assumes "bucket_model B objs" "we_storage E = B"
  shows "worker_contract (scorecard_worker E) (\<lambda>w. objs (wd_store w))"
proof -
  have "bucket_model (wk_store (scorecard_worker E)) (\<lambda>w. objs (wd_store w))"
    using in_world_model [OF assms(1)] assms(2) by (simp add: scorecard_worker_def)
  then show ?thesis
    using bucket_model.process_batch_keeps [OF assms] bucket_model.process_batch_stores [OF assms]
    by (auto simp: worker_contract_def worker_contract_axioms_def scorecard_worker_def keeps_def)
qed

text \<open>
   The batch worker over a subscriber of any kind, with storage that keeps its documented
  laws: when a run ends, every request it acked has its shard file in the results bucket,
  whatever the engine, the CDN and the other requests did; so an acked request is never lost.
\<close>

theorem acked_results_stored:
  assumes "bucket_model B objs" "we_storage E = B"
    and "run_loop S (scorecard_worker E) url u w [] = Some (r, w', tr)"
    and "tr = pre @ [Pulled req, Acked] @ post"
  shows "objs (wd_store w') (url, result_filename req) \<noteq> None"
  using worker_contract.loop_stores [OF scorecard_worker_contract [OF assms(1,2)] assms(3,4)] .

section \<open>The files of a request\<close>

text \<open>
  What the files of a request should hold: the records of its repositories, one after the
  other, without those that are not scanned.
\<close>

definition stamped :: "'s worker_env \<Rightarrow> civil \<Rightarrow> scan_result \<Rightarrow> scan_result" where
  "stamped E t result =
     result\<lparr>sr_version := fst (we_provenance E), sr_engine_sha := snd (we_provenance E), sr_date := t\<rparr>"

definition documents_of :: "'s worker_env \<Rightarrow> civil \<Rightarrow> batch_repo \<Rightarrow> (json \<times> json) option" where
  "documents_of E t r =
     (case choose_repo E (br_url r) of None \<Rightarrow> None
      | Some (repo, forge, disabled) \<Rightarrow>
      case se_get_enabled (we_engine E) (br_commit r \<noteq> head_sha) (sp_type repo) of Inl e \<Rightarrow> None
      | Inr checks \<Rightarrow>
      case se_run (we_engine E) (repo\<lparr>sp_metadata := sp_metadata repo @ br_metadata r\<rparr>) (br_commit r)
             (filter (\<lambda>c. c \<notin> set disabled) checks) forge of
        (result, Some e) \<Rightarrow> None
      | (result, None) \<Rightarrow>
      case json_result_v2 (se_docs (we_engine E)) (stamped E t result) True (se_info_level (we_engine E)) of Inl e \<Rightarrow> None
      | Inr doc \<Rightarrow> Some (doc, json_raw_result (stamped E t result)))"

lemma process_repo_documents:
  "process_repo E t w r = Skipped \<Longrightarrow> documents_of E t r = None"
  "process_repo E t w r = Stored json raw w' \<Longrightarrow>
     \<exists>doc rdoc. documents_of E t r = Some (doc, rdoc) \<and> json = encode_json doc \<and> raw = encode_json rdoc"
  by (auto simp: process_repo_def scan_and_store_def documents_of_def Let_def stamped_def as_json2_def as_raw_json_def
      split: prod.splits option.splits sum.splits if_splits)

lemma process_repos_documents:
  "process_repos E t rs w b rb = (Inr (b2, rb2), w') \<Longrightarrow>
   b2 = b @ concat (map (\<lambda>d. encode_json (fst d)) (List.map_filter (documents_of E t) rs)) \<and>
   rb2 = rb @ concat (map (\<lambda>d. encode_json (snd d)) (List.map_filter (documents_of E t) rs))"
proof (induction rs arbitrary: w b rb)
  case (Cons r rs)
  then show ?case
    using process_repo_documents [of E t w r]
    by (cases "process_repo E t w r") (fastforce simp: map_filter_simps dest!: Cons.IH)+
qed (simp add: map_filter_simps)

lemma document_numbers_ok: "documents_of E t r = Some d \<Longrightarrow> numbers_ok (fst d) \<and> numbers_ok (snd d)"
  by (auto simp: documents_of_def json_raw_result_ok dest: json_result_v2_ok split: option.splits prod.splits sum.splits)

lemma documents_read_back:
  defines "docs \<equiv> \<lambda>E t rs. List.map_filter (documents_of E t) rs"
  shows "json_lines (concat (map (\<lambda>d. encode_json (fst d)) (docs E t rs))) = map (\<lambda>d. Some (well_formed_json (fst d))) (docs E t rs)"
    and "json_lines (concat (map (\<lambda>d. encode_json (snd d)) (docs E t rs))) = map (\<lambda>d. Some (well_formed_json (snd d))) (docs E t rs)"
proof -
  have ok: "\<forall>v \<in> set (map fst (docs E t rs)). numbers_ok v" "\<forall>v \<in> set (map snd (docs E t rs)). numbers_ok v"
    using document_numbers_ok [of E t] by (force simp: docs_def List.map_filter_def)+
  show "json_lines (concat (map (\<lambda>d. encode_json (fst d)) (docs E t rs))) = map (\<lambda>d. Some (well_formed_json (fst d))) (docs E t rs)"
    using json_lines_encoded [OF ok(1)] by (simp add: o_def)
  show "json_lines (concat (map (\<lambda>d. encode_json (snd d)) (docs E t rs))) = map (\<lambda>d. Some (well_formed_json (snd d))) (docs E t rs)"
    using json_lines_encoded [OF ok(2)] by (simp add: o_def)
qed

context bucket_model begin

lemma process_batch_files:
  assumes B: "we_storage E = B" and p: "process_batch E req url w = (None, w')"
  defines "docs \<equiv> List.map_filter (documents_of E (bt_job_time req)) (bt_repos req)"
  shows "(\<exists>f. objs (wd_store w') (url, result_filename req) = Some f \<and>
      json_lines f = map (\<lambda>d. Some (well_formed_json (fst d))) docs) \<and>
    (we_raw_bucket E \<noteq> url \<longrightarrow> (\<exists>f. objs (wd_store w') (we_raw_bucket E, result_filename req) = Some f \<and>
      json_lines f = map (\<lambda>d. Some (well_formed_json (snd d))) docs))"
  using p by (auto simp: process_batch_def docs_def documents_read_back Let_def
      split: prod.splits option.splits sum.splits dest!: store_object_stored [OF B] process_repos_documents)

end


section \<open>The raw bucket\<close>

lemma unopened_bucket:
  assumes "\<And>s. os_open (we_storage E) s u \<noteq> None"
  shows "store_object E what w u k d \<noteq> (None, w')"
  using assms [of "wd_store w"] by (auto simp: store_object_def write_to_blob_store_def in_world_def)

text \<open>
   The controller treats the bucket for raw results as optional and the worker does not:
  where the configured bucket does not open, as no bucket is opened by an empty URL, processing
  a request always fails, however many of its repositories were scanned and exported.
\<close>

theorem raw_bucket_required:
  assumes "\<And>s. os_open (we_storage E) s (we_raw_bucket E) \<noteq> None"
  shows "fst (wk_process (scorecard_worker E) req url w) \<noteq> None"
proof
  assume "fst (wk_process (scorecard_worker E) req url w) = None"
  then obtain rb w1 w2 where "store_object E ''error during WriteToBlobStore2: '' w1 (we_raw_bucket E)
      (result_filename req) rb = (None, w2)"
    by (auto simp: scorecard_worker_def process_batch_def Let_def split: prod.splits option.splits sum.splits)
  then show False using unopened_bucket [OF assms] by blast
qed

section \<open>A run\<close>

text \<open>An engine that knows one forge and serves a result for every repository of it.\<close>

definition example_scan_engine :: scan_engine where
  "example_scan_engine = \<lparr>se_make_gitlab = (\<lambda>u. Inl (Sentinel ''not gitlab'')),
     se_make_github = (\<lambda>u. if prefix ''github.com/'' u then Inr \<lparr>sp_uri = u, sp_type = ''GitHub'', sp_metadata = []\<rparr>
                          else Inl (Sentinel ''not github'')),
     se_get_enabled = (\<lambda>c t. Inr [''SAST'', ''CI-Tests'']),
     se_run = (\<lambda>repo sha checks f. (example_result, None)),
     se_docs = example_docs, se_info_level = ''INFO''\<rparr>"

definition example_env :: "mem_storage object_store \<Rightarrow> string \<Rightarrow> mem_storage worker_env" where
  "example_env B raw = \<lparr>we_storage = B, we_engine = example_scan_engine, we_blacklisted_checks = [''SAST''],
     we_raw_bucket = raw, we_api_bucket = ''mem://api'', we_ignore_runtime_errors = False,
     we_provenance = provenance_engine (Some [\<lparr>bm_path = engine_path, bm_version = ''v5'', bm_replace = None\<rparr>]) ''beef'',
     we_new_request = (\<lambda>u. None), we_network = (\<lambda>sent r. Inl (Sentinel ''offline'')), we_purge_client = NoOpClient\<rparr>"

definition example_world :: "mem_storage \<Rightarrow> mem_storage world" where
  "example_world s = \<lparr>wd_token = None, wd_sent = [], wd_store = s\<rparr>"

definition scan_request :: batch_request where
  "scan_request = \<lparr>bt_job_time = wtime, bt_shard_num = 1,
     bt_repos = [\<lparr>br_url = ''github.com/a/b'', br_commit = ''HEAD'', br_metadata = []\<rparr>,
                 \<lparr>br_url = ''example.com/x'', br_commit = ''HEAD'', br_metadata = []\<rparr>]\<rparr>"

lemma example_store:
  "ms_closed s = [] \<Longrightarrow> store_object (example_env mem_bucket raw) what (example_world s) u k d =
     (None, example_world (s\<lparr>ms_objects := ((u, k), d) # ms_objects s\<rparr>))"
  by (simp add: store_object_def write_to_blob_store_def example_env_def example_world_def in_world_def
      mem_bucket_def mem_store_def)

lemma example_purge: "purge_path (example_env B raw) w path = w"
  by (simp add: purge_path_def example_env_def)

definition example_stamped :: scan_result where
  "example_stamped = example_result\<lparr>sr_version := ''v5'', sr_engine_sha := ''beef'', sr_date := wtime\<rparr>"

definition example_doc :: json where
  "example_doc = (case json_result_v2 example_docs example_stamped True ''INFO'' of Inr v \<Rightarrow> v | Inl e \<Rightarrow> JNull)"

lemma example_json:
  "json_result_v2 example_docs example_stamped True ''INFO'' = Inr example_doc"
  by (simp add: example_doc_def example_docs_def example_stamped_def example_result_def json_result_v2_def)

lemma example_stamped:
  "stamped (example_env B raw) wtime example_result = example_stamped"
  by (simp add: stamped_def example_env_def example_stamped_def provenance_engine_def engine_version_from_def)

lemma example_scan:
  "scan_and_store (example_env B raw) wtime r repo forge checks w =
     (case export_results (example_env B raw) w (sp_uri repo) ''c0ffee'' (encode_json example_doc)
             (encode_json (json_raw_result example_stamped)) of
        (Some e, w1) \<Rightarrow> Failed e w1
      | (None, w1) \<Rightarrow> Stored (encode_json example_doc) (encode_json (json_raw_result example_stamped)) w1)"
proof -
  let ?E = "example_env B raw"
  have e: "se_run (we_engine ?E) rp c cs fg = (example_result, None)" "se_docs (we_engine ?E) = example_docs"
    "se_info_level (we_engine ?E) = ''INFO''" for rp c cs fg
    by (simp_all add: example_env_def example_scan_engine_def)
  have "runtime_error ?E example_result = None" "sr_repo_sha example_stamped = ''c0ffee''"
    by (simp_all add: runtime_error_def example_result_def example_stamped_def)
  then show ?thesis
    using example_stamped [of B raw] example_json
    by (simp add: scan_and_store_def e stamped_def as_json2_def as_raw_json_def Let_def)
qed

lemma example_export:
  "ms_closed s = [] \<Longrightarrow> \<exists>os. export_results (example_env mem_bucket raw) (example_world s) uri sha json rw =
     (None, example_world (s\<lparr>ms_objects := os\<rparr>))"
  by (simp add: export_results_def Let_def example_store example_purge) blast

lemma example_choice:
  "choose_repo (example_env B raw) ''github.com/a/b'' =
     Some (\<lparr>sp_uri = ''github.com/a/b'', sp_type = ''GitHub'', sp_metadata = []\<rparr>, Github, [''SAST''])"
  "choose_repo (example_env B raw) ''example.com/x'' = None"
  "se_get_enabled (we_engine (example_env B raw)) c ty = Inr [''SAST'', ''CI-Tests'']"
  by (simp_all add: choose_repo_def example_env_def example_scan_engine_def)

lemma example_repos:
  assumes "ms_closed s = []"
  shows "\<exists>os. process_repos (example_env mem_bucket raw) wtime (bt_repos scan_request) (example_world s) b rb =
     (Inr (b @ encode_json example_doc, rb @ encode_json (json_raw_result example_stamped)), example_world (s\<lparr>ms_objects := os\<rparr>))"
  using example_export [OF assms, of raw "''github.com/a/b''" "''c0ffee''" "encode_json example_doc" "encode_json (json_raw_result example_stamped)"]
  by (auto simp: scan_request_def process_repo_def example_choice example_scan)

lemma example_processed:
  assumes "ms_closed s = []"
  shows "\<exists>w'. process_batch (example_env mem_bucket raw) scan_request url (example_world s) = (None, w')"
proof -
  have t: "bt_job_time scan_request = wtime" by (simp add: scan_request_def)
  from example_repos [OF assms, of raw "[]" "[]"] show ?thesis
    by (auto simp: process_batch_def t example_store assms Let_def)
qed

lemma example_document:
  "documents_of (example_env B raw) wtime \<lparr>br_url = ''github.com/a/b'', br_commit = c, br_metadata = md\<rparr> =
     Some (example_doc, json_raw_result example_stamped)"
  "documents_of (example_env B raw) wtime \<lparr>br_url = ''example.com/x'', br_commit = c, br_metadata = md\<rparr> = None"
proof -
  let ?E = "example_env B raw"
  have e: "se_run (we_engine ?E) rp c cs fg = (example_result, None)" "se_docs (we_engine ?E) = example_docs"
    "se_info_level (we_engine ?E) = ''INFO''" for rp c cs fg
    by (simp_all add: example_env_def example_scan_engine_def)
  show "documents_of ?E wtime \<lparr>br_url = ''github.com/a/b'', br_commit = c, br_metadata = md\<rparr> =
      Some (example_doc, json_raw_result example_stamped)"
    by (simp add: documents_of_def example_choice e example_stamped example_json)
  show "documents_of ?E wtime \<lparr>br_url = ''example.com/x'', br_commit = c, br_metadata = md\<rparr> = None"
    by (simp add: documents_of_def example_choice)
qed

lemma example_documents:
  "List.map_filter (documents_of (example_env B raw) wtime) (bt_repos scan_request) =
     [(example_doc, json_raw_result example_stamped)]"
  by (simp add: scan_request_def map_filter_simps example_document)

interpretation cron_worker: worker_contract "scorecard_worker (E\<lparr>we_storage := mem_bucket\<rparr>)"
  "\<lambda>w. map_of (ms_objects (wd_store w))" for E
  by (rule scorecard_worker_contract [OF mem_bucket.bucket_model_axioms]) simp


lemma scan_request_filename: "result_filename scan_request = get_blob_filename ''shard-0000001'' wtime"
  by (simp add: result_filename_def scan_request_def shard_name_def pad0_def itoa_step digit_char_def
      eval_nat_numeral)

lemma scan_request_lookup:
  "has_metadata_file (in_world mem_bucket) (example_world example_bucket) scan_request example_url = Inr True"
  "result_exists (in_world mem_bucket) (example_world example_bucket) scan_request example_url = Inr False"
  unfolding has_metadata_file_def result_exists_def scan_request_filename
  by (simp_all add: blob_exists_def mem_bucket_def mem_store_def example_bucket_def example_world_def in_world_def
      scan_request_def get_blob_filename_def get_shard_metadata_filename_def ShardMetadataFilename_def)

lemma scan_request_pending:
  assumes "process_batch (example_env mem_bucket raw) scan_request example_url (example_world example_bucket) = (None, w')"
  shows "handle_request (scorecard_worker (example_env mem_bucket raw)) example_url (example_world example_bucket)
     scan_request = (True, w')"
proof -
  have "we_storage (example_env mem_bucket raw) = mem_bucket" by (simp add: example_env_def)
  then show ?thesis using scan_request_lookup assms by (simp add: handle_request_def scorecard_worker_def)
qed

lemma acked_results_stored_witness:
  "\<exists>w' tr. run_loop list_subscriber (scorecard_worker (example_env mem_bucket ''mem://raw'')) example_url [scan_request]
      (example_world example_bucket) [] = Some (Returns None, w', tr) \<and>
     map_of (ms_objects (wd_store w')) (example_url, result_filename scan_request) \<noteq> None"
proof -
  have "ms_closed example_bucket = []" by (simp add: example_bucket_def)
  from example_processed [OF this] obtain w' where p:
    "process_batch (example_env mem_bucket ''mem://raw'') scan_request example_url (example_world example_bucket) = (None, w')"
    by blast
  have run: "run_loop list_subscriber (scorecard_worker (example_env mem_bucket ''mem://raw'')) example_url [scan_request]
      (example_world example_bucket) [] = Some (Returns None, w', [Pulled scan_request, Acked, Closed])"
    using scan_request_pending [OF p]
    by (simp add: run_loop.simps [where u = "[scan_request]"] run_loop.simps [where u = "[]"] list_subscriber_def)
  have e: "we_storage (example_env mem_bucket ''mem://raw'') = mem_bucket" by (simp add: example_env_def)
  from acked_results_stored [OF mem_bucket.bucket_model_axioms e run, of "[]" scan_request "[Closed]"] run
  show ?thesis by simp
qed

lemma raw_bucket_required_witness:
  "fst (wk_process (scorecard_worker (example_env
      (mem_bucket\<lparr>os_open := (\<lambda>s u. if u = [] then Some (Sentinel ''no scheme in URL'') else None)\<rparr>) []))
      scan_request example_url (example_world example_bucket)) \<noteq> None"
  by (rule raw_bucket_required) (simp add: example_env_def)

end
