(* ===== verification/BqTransfer.thy ===== *)
theory BqTransfer
  imports BucketSummary
begin

text \<open>
  \<open>cron/internal/bq\<close>: the job that loads complete runs into BigQuery.  The BigQuery client and
  \<open>http.Post\<close> are parameters, functions of what happened before; what the job does is a list
  of events beside the storage.
\<close>

section \<open>Load jobs\<close>

record bq_load =
  bl_source :: string
  bl_project :: string
  bl_dataset :: string
  bl_table :: string

datatype bq_event = JobCreated bq_load | JobSucceeded bq_load | Marked civil | Posted string string

record 's bq_world =
  bw_store :: 's
  bw_events :: "bq_event list"

record 's bq_env =
  be_store :: "'s object_store"
  be_new_client :: "string \<Rightarrow> err option"
  be_run :: "bq_event list \<Rightarrow> bq_load \<Rightarrow> err option"
  be_wait :: "bq_event list \<Rightarrow> bq_load \<Rightarrow> err option"
  be_status :: "bq_event list \<Rightarrow> bq_load \<Rightarrow> err option"
  be_post :: "bq_event list \<Rightarrow> string \<Rightarrow> string \<Rightarrow> string res res" \<comment> \<open>the response, its body read\<close>

definition log_event :: "bq_event \<Rightarrow> 's bq_world \<Rightarrow> 's bq_world" where
  "log_event e w = w\<lparr>bw_events := bw_events w @ [e]\<rparr>"

definition create_gcs_ref :: "string \<Rightarrow> string \<Rightarrow> string" where
  "create_gcs_ref bucketURL fileURI = bucketURL @ ''/'' @ fileURI"

text \<open>\<open>partitionDate.Format("20060102")\<close>.\<close>

definition format_partition :: "civil \<Rightarrow> string" where
  "format_partition t = fmt_year t @ two (month t) @ two (day t)"

definition create_bq_loader ::
  "'s bq_env \<Rightarrow> string \<Rightarrow> string \<Rightarrow> string \<Rightarrow> civil \<Rightarrow> string \<Rightarrow> bq_load res" where
  "create_bq_loader E projectID datasetName tableName partitionDate gcsRef =
     (case be_new_client E projectID of
        Some e \<Rightarrow> Inl (errorf [L ''failed to create bigquery client: '', W e])
      | None \<Rightarrow> Inr \<lparr>bl_source = gcsRef, bl_project = projectID, bl_dataset = datasetName,
          bl_table = tableName @ ''$'' @ format_partition partitionDate\<rparr>)"

definition start_data_transfer_job ::
  "'s bq_env \<Rightarrow> 's bq_world \<Rightarrow> string \<Rightarrow> string \<Rightarrow> string \<Rightarrow> string \<Rightarrow> string \<Rightarrow> civil \<Rightarrow> err option \<times> 's bq_world" where
  "start_data_transfer_job E w bucketURL fileURI projectID datasetName tableName partitionDate =
     (case create_bq_loader E projectID datasetName tableName partitionDate (create_gcs_ref bucketURL fileURI) of
        Inl e \<Rightarrow> (Some (errorf [L ''error creating BQ loader: '', W e]), w)
      | Inr loader \<Rightarrow>
      case be_run E (bw_events w) loader of
        Some e \<Rightarrow> (Some (errorf [L ''failed to create load job: '', W e]), w)
      | None \<Rightarrow>
          let w1 = log_event (JobCreated loader) w in
      case be_wait E (bw_events w1) loader of
        Some e \<Rightarrow> (Some (errorf [L ''error during job.Wait: '', W e]), w1)
      | None \<Rightarrow>
      case be_status E (bw_events w1) loader of
        Some e \<Rightarrow> (Some (errorf [L ''job returned error status: '', W e]), w1)
      | None \<Rightarrow> (None, log_event (JobSucceeded loader) w1))"

section \<open>The transfer\<close>

record bq_config =
  bc_bucket :: string
  bc_project :: string
  bc_dataset :: string
  bc_table :: string
  bc_threshold :: float64
  bc_webhook :: string

definition post_webhook :: "'s bq_env \<Rightarrow> bq_config \<Rightarrow> 's bq_world \<Rightarrow> shard_summary \<Rightarrow> err option \<times> 's bq_world" where
  "post_webhook E c w s =
     (if bc_webhook c = [] then (None, w)
      else (case be_post E (bw_events w) (bc_webhook c) (ss_shard_metadata s) of
          Inl e \<Rightarrow> (Some (errorf [L ''error during http.Post to '', L (bc_webhook c), L '': '', W e]), w)
        | Inr body \<Rightarrow>
            let w1 = log_event (Posted (bc_webhook c) (ss_shard_metadata s)) w
            in (case body of
                  Inl e \<Rightarrow> (Some (errorf [L ''error reading resp.Body: '', W e]), w1)
                | Inr b \<Rightarrow> (None, w1))))"

definition transfer_shard :: "'s bq_env \<Rightarrow> bq_config \<Rightarrow> 's bq_world \<Rightarrow> shard_summary \<Rightarrow> err option \<times> 's bq_world" where
  "transfer_shard E c w s =
     (if is_transferred s \<or> \<not> is_completed s (bc_threshold c) then (None, w)
      else (case start_data_transfer_job E w (bc_bucket c) (get_blob_filename ''shard-*'' (ss_creation_time s))
            (bc_project c) (bc_dataset c) (bc_table c) (ss_creation_time s) of
          (Some e, w1) \<Rightarrow> (Some (errorf [L ''error during StartDataTransferJob: '', W e]), w1)
        | (None, w1) \<Rightarrow>
            (case mark_transferred (be_store E) (bw_store w1) (bc_bucket c) s of
               (Some e, st) \<Rightarrow> (Some (errorf [L ''error during MarkTransferred: '', W e]), w1\<lparr>bw_store := st\<rparr>)
             | (None, st) \<Rightarrow> post_webhook E c (log_event (Marked (ss_creation_time s)) (w1\<lparr>bw_store := st\<rparr>)) s)))"

fun transfer_data_to_bq ::
  "'s bq_env \<Rightarrow> bq_config \<Rightarrow> 's bq_world \<Rightarrow> shard_summary list \<Rightarrow> err option \<times> 's bq_world" where
  "transfer_data_to_bq E c w [] = (None, w)"
| "transfer_data_to_bq E c w (s # ss) =
     (case transfer_shard E c w s of
        (Some e, w1) \<Rightarrow> (Some e, w1)
      | (None, w1) \<Rightarrow> transfer_data_to_bq E c w1 ss)"

text \<open>The program after its configuration is read; an error is a panic of it.\<close>

definition bq_main ::
  "'s bq_env \<Rightarrow> (string \<Rightarrow> shard_metadata res) \<Rightarrow> (shard_summary list \<Rightarrow> shard_summary list) \<Rightarrow> bq_config \<Rightarrow>
   's bq_world \<Rightarrow> err option \<times> 's bq_world" where
  "bq_main E unmarshal order c w =
     (case get_bucket_summary (be_store E) unmarshal (bw_store w) (bc_bucket c) of
        Inl e \<Rightarrow> (Some e, w)
      | Inr summary \<Rightarrow> transfer_data_to_bq E c w (shards order summary))"

section \<open>What a transfer does\<close>

definition eligible :: "bq_config \<Rightarrow> shard_summary \<Rightarrow> bool" where
  "eligible c s \<longleftrightarrow> \<not> is_transferred s \<and> is_completed s (bc_threshold c)"

definition load_of :: "bq_config \<Rightarrow> shard_summary \<Rightarrow> bq_load" where
  "load_of c s = \<lparr>bl_source = bc_bucket c @ ''/'' @ get_blob_filename ''shard-*'' (ss_creation_time s),
     bl_project = bc_project c, bl_dataset = bc_dataset c,
     bl_table = bc_table c @ ''$'' @ format_partition (ss_creation_time s)\<rparr>"

text \<open>The events of one run, in order.\<close>

definition plan :: "bq_config \<Rightarrow> shard_summary \<Rightarrow> bq_event list" where
  "plan c s = [JobCreated (load_of c s), JobSucceeded (load_of c s), Marked (ss_creation_time s)] @
     (if bc_webhook c = [] then [] else [Posted (bc_webhook c) (ss_shard_metadata s)])"

lemma transfer_shard_events:
  "transfer_shard E c w s = (r, w') \<Longrightarrow> \<not> eligible c s \<Longrightarrow> r = None \<and> w' = w"
  by (auto simp: transfer_shard_def eligible_def)

lemma transfer_shard_plan:
  assumes "transfer_shard E c w s = (r, w')" "eligible c s"
  shows "\<exists>es. bw_events w' = bw_events w @ es \<and> prefix es (plan c s) \<and> (r = None \<longrightarrow> es = plan c s)"
  using assms
  by (auto simp: transfer_shard_def eligible_def start_data_transfer_job_def create_bq_loader_def Let_def log_event_def
      post_webhook_def plan_def load_of_def create_gcs_ref_def split: sum.splits option.splits prod.splits if_splits)

lemma transfer_events:
  "transfer_data_to_bq E c w ss = (r, w') \<Longrightarrow>
   \<exists>es. bw_events w' = bw_events w @ es \<and> prefix es (concat (map (plan c) (filter (eligible c) ss))) \<and>
     (r = None \<longrightarrow> es = concat (map (plan c) (filter (eligible c) ss)))"
proof (induction ss arbitrary: w)
  case (Cons s ss)
  obtain r1 w1 where s: "transfer_shard E c w s = (r1, w1)" by fastforce
  show ?case
  proof (cases "eligible c s")
    case False
    then show ?thesis using Cons s transfer_shard_events [OF s] by simp
  next
    case True
    from transfer_shard_plan [OF s this] obtain es where es: "bw_events w1 = bw_events w @ es" "prefix es (plan c s)"
      "r1 = None \<longrightarrow> es = plan c s" by blast
    show ?thesis
    proof (cases r1)
      case None
      then have "transfer_data_to_bq E c w1 ss = (r, w')" using Cons.prems s by simp
      from Cons.IH [OF this] es None True show ?thesis by auto
    next
      case (Some e)
      then show ?thesis using Cons.prems s es True by (auto simp: prefix_def)
    qed
  qed
qed simp

text \<open>
  C31.  The transfer keeps to a plan: for each run of the summary that is complete and not
  marked, in the order of the list, a load of exactly that run's shards into its partition,
  then, once the load has succeeded, the mark, then the webhook.  An error stops the transfer
  somewhere along the plan; without one the whole plan has happened, and nothing else ever does.
\<close>

theorem transfer_follows_plan:
  "transfer_data_to_bq E c w ss = (r, w') \<Longrightarrow>
   \<exists>es. bw_events w' = bw_events w @ es \<and> prefix es (concat (map (plan c) (filter (eligible c) ss))) \<and>
     (r = None \<longrightarrow> es = concat (map (plan c) (filter (eligible c) ss)))"
  by (rule transfer_events)

section \<open>A run is loaded once\<close>

definition mark_of :: "bq_config \<Rightarrow> shard_summary \<Rightarrow> string \<times> string" where
  "mark_of c s = (bc_bucket c, get_transfer_status_filename (ss_creation_time s))"

lemma transfer_shard_store:
  "transfer_shard E c w s = (None, w') \<Longrightarrow> eligible c s \<Longrightarrow>
   write_to_blob_store (be_store E) (bw_store w) (bc_bucket c)
     (get_transfer_status_filename (ss_creation_time s)) [] = (None, bw_store w')"
  by (auto simp: transfer_shard_def eligible_def start_data_transfer_job_def Let_def log_event_def
      post_webhook_def mark_transferred_def split: sum.splits option.splits prod.splits if_splits)

context bucket_model
begin

lemma transfer_shard_objects:
  assumes "transfer_shard E c w s = (None, w')" "be_store E = B"
  shows "objs (bw_store w') =
    (if eligible c s then (objs (bw_store w))(mark_of c s \<mapsto> []) else objs (bw_store w))"
proof (cases "eligible c s")
  case True
  with transfer_shard_store [OF assms(1)] assms(2) written show ?thesis by (simp add: mark_of_def)
qed (use transfer_shard_events [OF assms(1)] in simp)

lemma transfer_objects:
  "transfer_data_to_bq E c w ss = (None, w') \<Longrightarrow> be_store E = B \<Longrightarrow>
   objs (bw_store w') = (\<lambda>k. if k \<in> mark_of c ` {s \<in> set ss. eligible c s} then Some [] else objs (bw_store w) k)"
proof (induction ss arbitrary: w)
  case (Cons s ss)
  then obtain w1 where s: "transfer_shard E c w s = (None, w1)" "transfer_data_to_bq E c w1 ss = (None, w')"
    by (auto split: prod.splits option.splits)
  from Cons.IH [OF s(2) Cons.prems(2)] transfer_shard_objects [OF s(1) Cons.prems(2)]
  show ?case by (auto simp: fun_eq_iff)
qed simp

end

lemma names_at_set: "set (names_at ks t) = {f. job_time t \<and> get_blob_filename f t \<in> set ks}"
proof -
  have "f \<in> set (names_at ks t) \<longleftrightarrow> (\<exists>k \<in> set ks. parse_blob_filename k = Inr (t, f))" for f
    by (force simp: names_at_def split: sum.splits if_splits)
  then show ?thesis by (force simp: parse_blob_filename_get dest: parse_blob_filename_Inr)
qed

lemma names_at_distinct: "distinct ks \<Longrightarrow> distinct (names_at ks t)"
proof (induction ks)
  case (Cons k ks)
  have "f \<notin> set (names_at ks t)" if "parse_blob_filename k = Inr (t, f)" for f
    using parse_blob_filename_Inr [OF that] Cons.prems by (auto simp: names_at_set)
  then show ?case using Cons by (auto simp: names_at_def split: sum.split)
qed (simp add: names_at_def)

lemma mark_not_shard: "get_blob_filename f t = get_transfer_status_filename u \<Longrightarrow> job_time t \<Longrightarrow> job_time u \<Longrightarrow>
    f = TransferStatusFilename"
  using parse_blob_filename_get [of t f] parse_blob_filename_get [of u TransferStatusFilename]
  by (simp add: get_transfer_status_filename_def)

lemma spec_summary_Some:
  assumes "spec_summary md ks t = Some s"
  shows "job_time t" "ss_creation_time s = t" "is_transferred s \<longleftrightarrow> TransferStatusFilename \<in> set (names_at ks t)"
    "ss_shards_created s = length (filter (prefix ''shard-'') (names_at ks t))"
    "ss_shards_expected s =
       (if ShardMetadataFilename \<in> set (names_at ks t)
        then (case md (get_shard_metadata_filename t) of None \<Rightarrow> 0 | Some (d, n) \<Rightarrow> n) else 0)"
proof -
  have "names_at ks t \<noteq> []" using assms by (auto simp: spec_summary_def Let_def)
  then show "job_time t" using names_at_set [of ks t] by (cases "job_time t") auto
qed (use assms in \<open>auto simp: spec_summary_def is_transferred_def Let_def split: if_splits\<close>)

lemma spec_summary_None: "spec_summary md ks t = None \<longleftrightarrow> set (names_at ks t) = {}"
  by (simp add: spec_summary_def Let_def)

text \<open>Completion depends on the names of the job and its metadata alone.\<close>

lemma summary_agrees:
  assumes "spec_summary md ks t = Some s" "spec_summary md' ks' t = Some s'"
    and n: "set (names_at ks' t) = set (names_at ks t)" and d: "distinct ks" "distinct ks'"
    and m: "ShardMetadataFilename \<in> set (names_at ks t) \<Longrightarrow>
      md (get_shard_metadata_filename t) = md' (get_shard_metadata_filename t)"
  shows "is_completed s' h = is_completed s h \<and> is_transferred s' = is_transferred s"
proof -
  note S = spec_summary_Some [OF assms(1)] and S' = spec_summary_Some [OF assms(2)]
  have "set (filter (prefix ''shard-'') (names_at ks' t)) = set (filter (prefix ''shard-'') (names_at ks t))"
    by (simp add: n)
  then have "ss_shards_created s' = ss_shards_created s"
    unfolding S(4) S'(4) using names_at_distinct d by (metis distinct_card distinct_filter)
  moreover have "ss_shards_expected s' = ss_shards_expected s" unfolding S(5) S'(5) using n m by simp
  ultimately show ?thesis by (simp add: is_completed_def S(3) S'(3) n)
qed

text \<open>A bucket that could be summarised.\<close>

lemma summarized:
  assumes "bucket_model B objs" "get_bucket_summary B unmarshal st url = Inr S"
  obtains ks where "distinct ks" "set ks = {k. objs st (url, k) \<noteq> None}"
    "\<And>t. map_of S t = spec_summary (metadata_at B unmarshal st url) ks t" "distinct (map fst S)"
    "\<And>t. ShardMetadataFilename \<in> set (names_at ks t) \<Longrightarrow>
       \<exists>d m. objs st (url, get_shard_metadata_filename t) = Some d \<and> unmarshal d = Inr m \<and>
         metadata_at B unmarshal st url (get_shard_metadata_filename t) = Some (d, get_num_shard m)"
proof -
  obtain ks where ks: "get_blob_keys B st url = Inr ks"
    using assms(2) by (auto simp: get_bucket_summary_def split: sum.splits)
  have inv: "summary_inv (metadata_at B unmarshal st url) ks S"
    and known: "\<And>k. k \<in> set ks \<Longrightarrow> known_file (metadata_at B unmarshal st url) k"
    using get_bucket_summary_spec [OF ks, of unmarshal] assms(2) by simp_all
  have md: "\<exists>d m. objs st (url, get_shard_metadata_filename t) = Some d \<and> unmarshal d = Inr m \<and>
      metadata_at B unmarshal st url (get_shard_metadata_filename t) = Some (d, get_num_shard m)"
    if "ShardMetadataFilename \<in> set (names_at ks t)" for t
  proof -
    from that have "job_time t" "get_shard_metadata_filename t \<in> set ks"
      by (simp_all add: names_at_set get_shard_metadata_filename_def)
    then have "metadata_at B unmarshal st url (get_shard_metadata_filename t) \<noteq> None"
      using known by (force simp: known_file_def get_shard_metadata_filename_def parse_blob_filename_get)
    then show ?thesis
      by (auto simp: metadata_at_def dest: bucket_model.content [OF assms(1)] split: sum.splits)
  qed
  show ?thesis
    by (rule that [of ks]) (use inv md bucket_model.keys [OF assms(1) ks] in \<open>auto simp: summary_inv_def\<close>)
qed

text \<open>After a transfer no run of the bucket is left to transfer.\<close>

lemma none_eligible:
  assumes laws: "bucket_model (be_store E) objs"
    and S: "get_bucket_summary (be_store E) unmarshal (bw_store w) (bc_bucket c) = Inr S"
    and tr: "transfer_data_to_bq E c w ss = (None, w1)" "set ss = snd ` set S"
    and S2: "get_bucket_summary (be_store E) unmarshal (bw_store w2) (bc_bucket c) = Inr S2"
    and between: "objs (bw_store w2) = objs (bw_store w1)"
    and s2: "(t, s2) \<in> set S2"
  shows "\<not> eligible c s2"
proof
  assume e2: "eligible c s2"
  let ?b = "bc_bucket c"
  from summarized [OF laws S] obtain ks where ks: "distinct ks" "set ks = {k. objs (bw_store w) (?b, k) \<noteq> None}"
    "\<And>t. map_of S t = spec_summary (metadata_at (be_store E) unmarshal (bw_store w) ?b) ks t" "distinct (map fst S)"
    "\<And>t. ShardMetadataFilename \<in> set (names_at ks t) \<Longrightarrow>
       \<exists>d m. objs (bw_store w) (?b, get_shard_metadata_filename t) = Some d \<and> unmarshal d = Inr m \<and>
         metadata_at (be_store E) unmarshal (bw_store w) ?b (get_shard_metadata_filename t) = Some (d, get_num_shard m)"
    by blast
  from summarized [OF laws S2] obtain ks2 where ks2: "distinct ks2"
    "set ks2 = {k. objs (bw_store w2) (?b, k) \<noteq> None}"
    "\<And>t. map_of S2 t = spec_summary (metadata_at (be_store E) unmarshal (bw_store w2) ?b) ks2 t" "distinct (map fst S2)"
    "\<And>t. ShardMetadataFilename \<in> set (names_at ks2 t) \<Longrightarrow>
       \<exists>d m. objs (bw_store w2) (?b, get_shard_metadata_filename t) = Some d \<and> unmarshal d = Inr m \<and>
         metadata_at (be_store E) unmarshal (bw_store w2) ?b (get_shard_metadata_filename t) = Some (d, get_num_shard m)"
    by blast
  let ?marks = "mark_of c ` {s \<in> set ss. eligible c s}"
  have o: "objs (bw_store w2) k = (if k \<in> ?marks then Some [] else objs (bw_store w) k)" for k
    using bucket_model.transfer_objects [OF laws tr(1) refl] between by simp
  have sp2: "spec_summary (metadata_at (be_store E) unmarshal (bw_store w2) ?b) ks2 t = Some s2"
    using s2 ks2(3,4) by (metis map_of_is_SomeI)
  note t = spec_summary_Some [OF sp2]
  have times: "job_time (ss_creation_time s) \<and> map_of S (ss_creation_time s) = Some s" if "s \<in> set ss" for s
  proof -
    from that tr(2) obtain u where u: "(u, s) \<in> set S" by auto
    then have m: "map_of S u = Some s" using ks(4) by simp
    with ks(3) [of u] spec_summary_Some(1,2) show ?thesis by metis
  qed
  have unmarked: "TransferStatusFilename \<notin> set (names_at ks2 t)" using e2 t(3) by (simp add: eligible_def)
  have notmark: "(?b, get_blob_filename f t) \<notin> ?marks" for f
  proof
    assume "(?b, get_blob_filename f t) \<in> ?marks"
    then obtain s where s: "s \<in> set ss" "eligible c s"
      "get_blob_filename f t = get_blob_filename TransferStatusFilename (ss_creation_time s)"
      by (auto simp: mark_of_def get_transfer_status_filename_def)
    have "f = TransferStatusFilename"
      using parse_blob_filename_get [OF t(1), of f] parse_blob_filename_get [of "ss_creation_time s" TransferStatusFilename]
        times [OF s(1)] s(3) by simp
    moreover have "get_blob_filename f t \<in> set ks2"
      using s unfolding ks2(2) o by (auto simp: mark_of_def get_transfer_status_filename_def)
    ultimately show False using unmarked t(1) by (simp add: names_at_set)
  qed
  then have names: "set (names_at ks2 t) = set (names_at ks t)" by (simp add: names_at_set ks(2) ks2(2) o)
  then obtain s1 where sp1: "spec_summary (metadata_at (be_store E) unmarshal (bw_store w) ?b) ks t = Some s1"
    using sp2 spec_summary_None by (metis not_None_eq option.distinct(1))
  have "is_completed s2 (bc_threshold c) = is_completed s1 (bc_threshold c) \<and> is_transferred s2 = is_transferred s1"
  proof (rule summary_agrees [OF sp1 sp2 names ks(1) ks2(1)])
    assume i: "ShardMetadataFilename \<in> set (names_at ks t)"
    have "objs (bw_store w2) (?b, get_shard_metadata_filename t) = objs (bw_store w) (?b, get_shard_metadata_filename t)"
      using notmark by (simp add: o get_shard_metadata_filename_def)
    with ks(5) [OF i] ks2(5) [of t] i names
    show "metadata_at (be_store E) unmarshal (bw_store w) ?b (get_shard_metadata_filename t) =
        metadata_at (be_store E) unmarshal (bw_store w2) ?b (get_shard_metadata_filename t)" by auto
  qed
  then have "eligible c s1" using e2 by (simp add: eligible_def)
  moreover have "(t, s1) \<in> set S" using sp1 ks(3) by (metis map_of_SomeD)
  then have "s1 \<in> set ss" using tr(2) by force
  ultimately have "mark_of c s1 \<in> ?marks" by blast
  then show False
    using notmark [of TransferStatusFilename] spec_summary_Some(2) [OF sp1]
    by (simp add: mark_of_def get_transfer_status_filename_def)
qed

lemma nothing_to_transfer: "\<forall>s \<in> set ss. \<not> eligible c s \<Longrightarrow> transfer_data_to_bq E c w ss = (None, w)"
  by (induction ss) (auto simp: transfer_shard_def eligible_def)

text \<open>
  C8.  A run is loaded once.  When the job has ended without an error, doing it again (the
  same configuration, the objects of the bucket as the first left them, the map ranged over
  in any order) creates no load job, marks nothing and posts nothing.
\<close>

theorem transferred_once:
  assumes laws: "bucket_model (be_store E) objs"
    and first: "bq_main E unmarshal order c w = (None, w1)"
    and rerun: "bq_main E unmarshal order' c w2 = (r, w3)"
    and between: "objs (bw_store w2) = objs (bw_store w1)"
    and orders: "\<And>xs. set (order xs) = set xs" "\<And>xs. set (order' xs) = set xs"
  shows "w3 = w2"
proof (cases "get_bucket_summary (be_store E) unmarshal (bw_store w2) (bc_bucket c)")
  case (Inr S2)
  obtain S where S: "get_bucket_summary (be_store E) unmarshal (bw_store w) (bc_bucket c) = Inr S"
    and tr: "transfer_data_to_bq E c w (shards order S) = (None, w1)"
    using first by (auto simp: bq_main_def split: sum.splits)
  have "set (shards order S) = snd ` set S" by (simp add: shards_def orders)
  from none_eligible [OF laws S tr this Inr between] have "\<forall>s \<in> set (shards order' S2). \<not> eligible c s"
    by (auto simp: shards_def orders)
  from nothing_to_transfer [OF this, of E w2] rerun Inr show ?thesis by (simp add: bq_main_def)
qed (use rerun in \<open>simp add: bq_main_def\<close>)

text \<open>The example bucket, with a threshold of one half and a webhook.\<close>

definition example_bq_env :: "mem_storage bq_env" where
  "example_bq_env = \<lparr>be_store = mem_bucket, be_new_client = (\<lambda>p. None), be_run = (\<lambda>es l. None),
     be_wait = (\<lambda>es l. None), be_status = (\<lambda>es l. None), be_post = (\<lambda>es u b. Inr (Inr ''ok''))\<rparr>"

definition example_bq_config :: bq_config where
  "example_bq_config = \<lparr>bc_bucket = example_url, bc_project = ''openssf'', bc_dataset = ''scorecardcron'',
     bc_table = ''scorecard-v2'', bc_threshold = (2 ^ 52, 53), bc_webhook = ''https://hook''\<rparr>"

definition example_bq_world :: "mem_storage bq_world" where
  "example_bq_world = \<lparr>bw_store = example_bucket, bw_events = []\<rparr>"

definition example_summary :: shard_summary where
  "example_summary = \<lparr>ss_creation_time = wtime, ss_shard_metadata = ''2'', ss_shards_expected = 2,
     ss_shards_created = 1, ss_is_transferred = False\<rparr>"

lemma example_summarized:
  "get_bucket_summary mem_bucket example_unmarshal example_bucket example_url = Inr [(wtime, example_summary)]"
proof -
  obtain d m where m: "get_blob_content mem_bucket example_bucket example_url (get_shard_metadata_filename wtime) = Inr d"
    "example_unmarshal d = Inr m" "d = ''2''" "get_num_shard m = 2"
    using example_metadata by (auto simp: metadata_at_def split: sum.splits)
  have "parse_blob_filename (get_shard_metadata_filename wtime) = Inr (wtime, ShardMetadataFilename)"
    by (simp add: get_shard_metadata_filename_def parse_blob_filename_get)
  then show ?thesis
    using m by (simp add: get_bucket_summary_def example_keys summarize_key_def parse_blob_filename_get
        on_summary_def get_or_create_def new_summary_def example_summary_def)
qed

lemma example_eligible: "eligible example_bq_config example_summary"
proof -
  have "float_div 1 2 = (2 ^ 52, 53)" by (simp add: float_div_def places_def bit_count.simps round_div_def)
  then show ?thesis
    by (simp add: eligible_def is_transferred_def is_completed_def example_summary_def example_bq_config_def float_le_def)
qed

lemma example_env_simps:
  "be_store example_bq_env = mem_bucket" "be_new_client example_bq_env p = None" "be_run example_bq_env es l = None"
  "be_wait example_bq_env es l = None" "be_status example_bq_env es l = None"
  "be_post example_bq_env es u b = Inr (Inr ''ok'')"
  by (simp_all add: example_bq_env_def)

definition example_marked :: "mem_storage bq_world" where
  "example_marked = \<lparr>bw_store = example_bucket\<lparr>ms_objects :=
       ((example_url, get_transfer_status_filename wtime), []) # ms_objects example_bucket\<rparr>,
     bw_events = plan example_bq_config example_summary\<rparr>"

lemma example_transfer:
  "transfer_data_to_bq example_bq_env example_bq_config example_bq_world [example_summary] = (None, example_marked)"
proof -
  have "ms_closed example_bucket = []" by (simp add: example_bucket_def)
  note wr = mem_bucket_write [OF this]
  have "bc_bucket example_bq_config = example_url" "bc_webhook example_bq_config \<noteq> []"
    by (simp_all add: example_bq_config_def)
  moreover have "ss_creation_time example_summary = wtime" by (simp add: example_summary_def)
  ultimately show ?thesis
    using example_eligible
    by (simp add: transfer_shard_def eligible_def start_data_transfer_job_def create_bq_loader_def Let_def log_event_def
        post_webhook_def mark_transferred_def wr example_env_simps example_bq_world_def example_marked_def plan_def
        load_of_def create_gcs_ref_def)
qed

lemma transfer_follows_plan_witness:
  "\<exists>es. bw_events example_marked = bw_events example_bq_world @ es \<and>
     es = plan example_bq_config example_summary"
  using transfer_follows_plan [OF example_transfer] example_eligible by auto

lemma transferred_once_witness:
  "bq_main example_bq_env example_unmarshal (\<lambda>xs. xs) example_bq_config example_bq_world = (None, example_marked) \<and>
   snd (bq_main example_bq_env example_unmarshal rev example_bq_config example_marked) = example_marked"
proof
  have "bc_bucket example_bq_config = example_url" "bw_store example_bq_world = example_bucket"
    by (simp_all add: example_bq_config_def example_bq_world_def)
  then show first: "bq_main example_bq_env example_unmarshal (\<lambda>xs. xs) example_bq_config example_bq_world =
      (None, example_marked)"
    by (simp add: bq_main_def example_env_simps example_summarized shards_def example_transfer del: transfer_data_to_bq.simps)
  obtain r w3 where "bq_main example_bq_env example_unmarshal rev example_bq_config example_marked = (r, w3)" by fastforce
  from transferred_once [OF _ first this, of "\<lambda>s. map_of (ms_objects s)"] this
  show "snd (bq_main example_bq_env example_unmarshal rev example_bq_config example_marked) = example_marked"
    by (simp add: example_env_simps mem_bucket.bucket_model_axioms)
qed

end
