(* ===== verification/Monitoring.thy ===== *)
theory Monitoring
  imports WorkLoop
begin

text \<open>
  \<open>cron/monitoring\<close>: the exporters of metrics, and \<open>cron/internal/githubserver\<close>, the program that
  hands GitHub tokens to the workers.  Stackdriver, the token pool and the network are parameters.
\<close>

section \<open>Choosing an exporter\<close>

datatype exporter = Stackdriver string string | Printer

definition unsupported_exporter :: "string \<Rightarrow> err" where
  "unsupported_exporter e = Typed ''unsupportedExporterError'' (''unsupported exporterType: '' @ e) []"

text \<open>\<open>new_client\<close> is the error of \<open>stackdriver.NewExporter\<close>.\<close>

definition new_stackdriver_exporter :: "(string \<Rightarrow> string \<Rightarrow> err option) \<Rightarrow> settings \<Rightarrow> exporter res" where
  "new_stackdriver_exporter new_client S =
     (case get_project_id S of
        Inl e \<Rightarrow> Inl (errorf [L ''error getting ProjectID: '', W e])
      | Inr projectID \<Rightarrow>
      case get_metric_stackdriver_prefix S of
        Inl e \<Rightarrow> Inl (errorf [L ''error getting stackdriver prefix: '', W e])
      | Inr pfx \<Rightarrow>
      case new_client projectID pfx of
        Some e \<Rightarrow> Inl (errorf [L ''error during stackdriver.NewExporter: '', W e])
      | None \<Rightarrow> Inr (Stackdriver projectID pfx))"

definition get_exporter :: "(string \<Rightarrow> string \<Rightarrow> err option) \<Rightarrow> settings \<Rightarrow> exporter res" where
  "get_exporter new_client S =
     (case get_metric_exporter S of
        Inl e \<Rightarrow> Inl (errorf [L ''error during GetMetricExporter: '', W e])
      | Inr exporter \<Rightarrow>
          if exporter = ''stackdriver'' then new_stackdriver_exporter new_client S
          else if exporter = ''printer'' then Inr Printer
          else Inl (unsupported_exporter exporter))"

section \<open>The printing exporter\<close>

text \<open>
  The calls of the interface \<open>Exporter\<close> that may fail or leave a trace.  Starting a client of
  Stackdriver is \<open>start_client\<close>; the printing exporter has nothing to start, stop or flush.
\<close>

definition exporter_start :: "(string \<Rightarrow> string \<Rightarrow> err option) \<Rightarrow> exporter \<Rightarrow> err option" where
  "exporter_start start_client ex =
     (case ex of Stackdriver projectID pfx \<Rightarrow> start_client projectID pfx | Printer \<Rightarrow> None)"

text \<open>A view's data: its name, the two times with their zones, and the text of each row.\<close>

record view_data =
  vw_name :: string
  vw_start :: "civil \<times> string"
  vw_end :: "civil \<times> string"
  vw_rows :: "string list"

text \<open>\<open>t.Format(time.UnixDate)\<close>: \<open>Mon Jan _2 15:04:05 MST 2006\<close>.\<close>

definition weekday :: "civil \<Rightarrow> nat" where
  "weekday c = nat ((days_from_civil (year c) (month c) (day c) + 4) mod 7)"

definition unix_date :: "civil \<times> string \<Rightarrow> string" where
  "unix_date t =
     (case t of (c, zone) \<Rightarrow>
        [''Sun'', ''Mon'', ''Tue'', ''Wed'', ''Thu'', ''Fri'', ''Sat''] ! weekday c @ '' '' @
        [''Jan'', ''Feb'', ''Mar'', ''Apr'', ''May'', ''Jun'', ''Jul'', ''Aug'', ''Sep'', ''Oct'', ''Nov'', ''Dec''] !
          (month c - 1) @ '' '' @
        (if day c < 10 then '' '' else []) @ itoa_nat (day c) @ '' '' @
        two (hour c) @ '':'' @ two (minute c) @ '':'' @ two (second c) @ '' '' @ zone @ '' '' @ fmt_year c)"

definition newline :: string where "newline = [CHR 0x0A]"

definition printer_export_view :: "view_data \<Rightarrow> string list" where
  "printer_export_view v =
     [''Printing viewData for view: '' @ vw_name v @ newline,
      ''StartTime: '' @ unix_date (vw_start v) @ '', EndTime: '' @ unix_date (vw_end v)] @
     map (\<lambda>(i, row). ''Row: '' @ itoa_nat i @ newline @ row @ newline) (enumerate 0 (vw_rows v))"

lemma weekday_range: "weekday c < 7"
  by (simp add: weekday_def nat_less_iff)

text \<open>Monday the 6th of May 2024, and the leap day before it, a Thursday.\<close>

lemma unix_date_examples:
  "unix_date (\<lparr>year = 2024, month = 5, day = 6, hour = 7, minute = 8, second = 9, nanos = 0\<rparr>, ''UTC'') =
     ''Mon May  6 07:08:09 UTC 2024''"
  "unix_date (\<lparr>year = 2024, month = 2, day = 29, hour = 23, minute = 59, second = 0, nanos = 0\<rparr>, ''UTC'') =
     ''Thu Feb 29 23:59:00 UTC 2024''"
  by code_simp+

lemma printed_rows:
  "i < length (vw_rows v) \<Longrightarrow>
   printer_export_view v ! (i + 2) = ''Row: '' @ itoa_nat i @ newline @ vw_rows v ! i @ newline"
  by (simp add: printer_export_view_def nth_enumerate_eq)

section \<open>The token server\<close>

text \<open>
  \<open>main\<close>: \<open>has_accessor\<close> tells whether there are tokens, \<open>register\<close> is the error of
  \<open>rpc.Register\<close>, \<open>listen\<close> that of \<open>net.Listen\<close> on an address, \<open>serve\<close> what becomes of
  \<open>http.Serve\<close>.
\<close>

definition token_server_main ::
  "bool \<Rightarrow> err option \<Rightarrow> (string \<Rightarrow> 'l res) \<Rightarrow> ('l \<Rightarrow> err option effect) \<Rightarrow> unit effect" where
  "token_server_main has_accessor register listen serve =
     (if \<not> has_accessor then Crash []
      else case register of
        Some e \<Rightarrow> Crash (err_text e)
      | None \<Rightarrow>
      case listen '':8080'' of
        Inl e \<Rightarrow> Crash (err_text e)
      | Inr l \<Rightarrow>
      case serve l of
        Returns (Some e) \<Rightarrow> Crash (err_text e)
      | Returns None \<Rightarrow> Returns ()
      | Fatal m \<Rightarrow> Fatal m
      | Crash m \<Rightarrow> Crash m
      | Blocked \<Rightarrow> Blocked)"

text \<open>\<open>http.Serve\<close> returns an error whenever it returns: then the program never ends well.\<close>

lemma token_server_never_returns:
  "(\<And>l. serve l \<noteq> Returns None) \<Longrightarrow> token_server_main has_accessor register listen serve \<noteq> Returns ()"
  by (auto simp: token_server_main_def split: option.splits sum.splits effect.splits)

end
