(* ===== verification/CronPrograms.thy ===== *)
theory CronPrograms
  imports CronWorker BqTransfer Monitoring
begin

text \<open>
  The programs of the batch plane around their loops: how the worker is made and started
  (\<open>cron/internal/worker/main.go\<close>) and shut down, and how the transfer job reads its configuration
  (\<open>cron/internal/bq/main.go\<close>).
\<close>

section \<open>The worker\<close>

text \<open>
  What the worker is made of: the errors of the calls that may fail, and the parts of a
  \<open>worker_env\<close> that no configuration decides, the clients of the forges and of the vulnerability
  database among them.  A client of Stackdriver is started by \<open>wp_start\<close>, the views of the metrics
  registered by \<open>wp_register\<close>.  The server of runtime profiles that the worker starts on the side
  is left out.
\<close>

record 's worker_parts =
  wp_base :: "'s worker_env"
  wp_getenv :: "string \<Rightarrow> string"
  wp_docs_read :: "err option"
  wp_gitlab_client :: "err option"
  wp_ossfuzz_client :: "err option"
  wp_new_exporter :: "string \<Rightarrow> string \<Rightarrow> err option"
  wp_start :: "string \<Rightarrow> string \<Rightarrow> err option"
  wp_register :: "err option"

definition start_metrics_exporter :: "'s worker_parts \<Rightarrow> settings \<Rightarrow> exporter res" where
  "start_metrics_exporter P S =
     (case get_exporter (wp_new_exporter P) S of
        Inl e \<Rightarrow> Inl (errorf [L ''error during monitoring.GetExporter: '', W e])
      | Inr exporter \<Rightarrow>
      case exporter_start (wp_start P) exporter of
        Some e \<Rightarrow> Inl (errorf [L ''error in StartMetricsExporter: '', W e])
      | None \<Rightarrow>
      case wp_register P of
        Some e \<Rightarrow> Inl (errorf [L ''error during view.Register: '', W e])
      | None \<Rightarrow> Inr exporter)"

definition new_scorecard_worker :: "'s worker_parts \<Rightarrow> settings \<Rightarrow> ('s worker_env \<times> exporter) res" where
  "new_scorecard_worker P S =
     (case wp_docs_read P of Some e \<Rightarrow> Inl (errorf [L ''docs.Read: '', W e])
      | None \<Rightarrow>
      case get_raw_result_data_bucket_url S of Inl e \<Rightarrow> Inl (errorf [L ''docs.GetRawResultDataBucketURL: '', W e])
      | Inr rawBucketURL \<Rightarrow>
      case get_blacklisted_checks S of Inl e \<Rightarrow> Inl (errorf [L ''config.GetBlacklistedChecks: '', W e])
      | Inr blacklistedChecks \<Rightarrow>
      case get_cii_data_bucket_url S of Inl e \<Rightarrow> Inl (errorf [L ''config.GetCIIDataBucketURL: '', W e])
      | Inr ciiDataBucketURL \<Rightarrow>
      case get_api_results_bucket_url S of Inl e \<Rightarrow> Inl (errorf [L ''config.GetAPIResultsBucketURL: '', W e])
      | Inr apiBucketURL \<Rightarrow>
      case wp_gitlab_client P of Some e \<Rightarrow> Inl (errorf [L ''gitlabrepo.CreateGitlabClient: '', W e])
      | None \<Rightarrow>
      case wp_ossfuzz_client P of Some e \<Rightarrow> Inl (errorf [L ''ossfuzz.CreateOSSFuzzClientEager: '', W e])
      | None \<Rightarrow>
      let apiBaseURL = (case get_api_base_url S of Inl e \<Rightarrow> [] | Inr u \<Rightarrow> u) in
      case start_metrics_exporter P S of Inl e \<Rightarrow> Inl (errorf [L ''startMetricsExporter: '', W e])
      | Inr exporter \<Rightarrow>
          Inr ((wp_base P)\<lparr>we_raw_bucket := rawBucketURL, we_blacklisted_checks := blacklistedChecks,
            we_api_bucket := apiBucketURL, we_purge_client := cron_get_purger (wp_getenv P) apiBaseURL\<rparr>, exporter))"

text \<open>The calls of \<open>Close\<close>, which is deferred: it runs when \<open>main\<close> returns or panics.\<close>

datatype close_call = StopMetricsExporter exporter | CloseOSSFuzzClient

definition worker_close :: "exporter \<Rightarrow> close_call list" where
  "worker_close exporter = [StopMetricsExporter exporter, CloseOSSFuzzClient]"

definition deferred :: "'c list \<Rightarrow> 'a effect \<Rightarrow> 'c list" where
  "deferred calls r = (case r of Returns x \<Rightarrow> calls | Crash m \<Rightarrow> calls | Fatal m \<Rightarrow> [] | Blocked \<Rightarrow> [])"

text \<open>\<open>main\<close>; an error is a panic.  \<open>None\<close> if the loop never ends.\<close>

definition worker_main ::
  "'s worker_parts \<Rightarrow> (string \<Rightarrow> string \<times> err option) \<Rightarrow> string \<Rightarrow> (string \<Rightarrow> 'u res) \<Rightarrow> 'u subscriber \<Rightarrow> settings \<Rightarrow>
   's world \<Rightarrow> (unit effect \<times> 's world \<times> loop_event list \<times> close_call list) option" where
  "worker_main P read_file config_file create S st w =
     (case read_config read_file config_file st of
        (Some e, st1) \<Rightarrow> Some (Crash (err_text e), w, [], [])
      | (None, st1) \<Rightarrow>
      case new_scorecard_worker P st1 of
        Inl e \<Rightarrow> Some (Crash (err_text e), w, [], [])
      | Inr (E, exporter) \<Rightarrow>
          map_option (\<lambda>(r, w', tr).
              (case r of Returns None \<Rightarrow> Returns ()
                | Returns (Some e) \<Rightarrow> Crash (err_text e)
                | Fatal m \<Rightarrow> Fatal m | Crash m \<Rightarrow> Crash m | Blocked \<Rightarrow> Blocked, w', tr, deferred (worker_close exporter) r))
            (run_worker read_file config_file create S (scorecard_worker E) st1 w))"

section \<open>The transfer job\<close>

definition get_bq_config :: "settings \<Rightarrow> (string \<times> string \<times> string) res" where
  "get_bq_config S =
     (case get_project_id S of
        Inl e \<Rightarrow> Inl (errorf [L ''error getting ProjectId: '', W e])
      | Inr projectID \<Rightarrow>
      case get_big_query_dataset S of
        Inl e \<Rightarrow> Inl (errorf [L ''error getting BigQuery dataset: '', W e])
      | Inr datasetName \<Rightarrow>
      case get_big_query_table S of
        Inl e \<Rightarrow> Inl (errorf [L ''error getting BigQuery table: '', W e])
      | Inr tableName \<Rightarrow> Inr (projectID, datasetName, tableName))"

definition bq_setup :: "settings \<Rightarrow> bq_config res" where
  "bq_setup S =
     bind_res (get_result_data_bucket_url S) (\<lambda>bucketURL.
     bind_res (get_webhook_url S) (\<lambda>webhookURL.
     bind_res (get_bq_config S) (\<lambda>(projectID, datasetName, tableName).
     bind_res (get_completion_threshold S) (\<lambda>completionThreshold.
       Inr \<lparr>bc_bucket = bucketURL, bc_project = projectID, bc_dataset = datasetName, bc_table = tableName,
         bc_threshold = completionThreshold, bc_webhook = webhookURL\<rparr>))))"

definition bq_program ::
  "'s bq_env \<Rightarrow> (string \<Rightarrow> shard_metadata res) \<Rightarrow> (shard_summary list \<Rightarrow> shard_summary list) \<Rightarrow>
   (string \<Rightarrow> string \<times> err option) \<Rightarrow> string \<Rightarrow> settings \<Rightarrow> 's bq_world \<Rightarrow> unit outcome \<times> 's bq_world" where
  "bq_program E unmarshal order read_file config_file S0 w =
     (case read_config read_file config_file S0 of
        (Some e, S) \<Rightarrow> (Panic (err_text e), w)
      | (None, S) \<Rightarrow>
      case bq_setup S of
        Inl e \<Rightarrow> (Panic (err_text e), w)
      | Inr c \<Rightarrow>
          (case bq_main E unmarshal order c w of
             (Some e, w1) \<Rightarrow> (Panic (err_text e), w1)
           | (None, w1) \<Rightarrow> (Ret (), w1)))"

text \<open>
  A worker is made only when its whole configuration can be read, and nothing is pulled or
  scanned before it is; the raw bucket it is made with is the configured one, be it empty.
\<close>

theorem worker_needs_configuration:
  assumes "new_scorecard_worker P S = Inr (E, exporter)"
  shows "we_storage E = we_storage (wp_base P) \<and> get_raw_result_data_bucket_url S = Inr (we_raw_bucket E) \<and>
    get_api_results_bucket_url S = Inr (we_api_bucket E) \<and> get_blacklisted_checks S = Inr (we_blacklisted_checks E) \<and>
    (\<exists>x. get_metric_exporter S = Inr x \<and> x \<in> {''stackdriver'', ''printer''})"
  using assms
  by (auto simp: new_scorecard_worker_def start_metrics_exporter_def get_exporter_def Let_def
      split: option.splits sum.splits if_splits)

lemma unmade_worker_is_idle:
  assumes "read_config read_file config_file st = (None, st1)" "new_scorecard_worker P st1 = Inl e"
  shows "worker_main P read_file config_file create S st w = Some (Crash (err_text e), w, [], [])"
  using assms by (simp add: worker_main_def)

text \<open>
  A worker that was made is closed on every way out of \<open>main\<close> but \<open>log.Fatal\<close>, also when its loop
  fails; until then neither the metrics nor the client are touched.
\<close>

lemma made_worker_is_closed:
  assumes "read_config read_file config_file st = (None, st1)" "new_scorecard_worker P st1 = Inr (E, exporter)"
    and "worker_main P read_file config_file create S st w = Some (r, w', tr, calls)"
  shows "calls = (case r of Returns x \<Rightarrow> worker_close exporter | Crash m \<Rightarrow> worker_close exporter | _ \<Rightarrow> [])"
  using assms by (auto simp: worker_main_def deferred_def split: effect.splits option.splits)

end
