(* ===== verification/Fleet.thy ===== *)
theory Fleet
  imports CronWorker
begin

text \<open>
  Several batch workers at once.  \<open>processRequest\<close> is unfolded into the calls it makes to the
  storage and to the CDN, so that the steps of workers over one storage and one queue, which may
  deliver a message again, interleave; a worker may die at any moment.
\<close>

section \<open>Processing a request, call by call\<close>

datatype proc =
  Done "err option"
| Write string string string "err option \<Rightarrow> proc"
| Purge string proc

definition store_proc :: "string \<Rightarrow> string \<Rightarrow> string \<Rightarrow> string \<Rightarrow> proc \<Rightarrow> proc" where
  "store_proc what u k d p = Write u k d (\<lambda>r. case r of Some e \<Rightarrow> Done (Some (errorf [L what, W e])) | None \<Rightarrow> p)"

definition export_proc :: "'s worker_env \<Rightarrow> string \<Rightarrow> string \<Rightarrow> string \<Rightarrow> string \<Rightarrow> proc \<Rightarrow> proc" where
  "export_proc E uri sha json raw p =
     store_proc ''error during writing to exportBucketURL: '' (we_api_bucket E) (uri @ ''/results.json'') json
     (Purge (''/projects/'' @ uri)
     (store_proc ''error during exportBucketURL with commit SHA: '' (we_api_bucket E) (uri @ ''/'' @ sha @ ''/results.json'') json
     (Purge (''/projects/'' @ uri @ ''?commit='' @ sha)
     (store_proc ''error during writing to exportBucketURL for raw results: '' (we_api_bucket E) (uri @ ''/raw.json'') raw
     (store_proc ''error during exportBucketURL for raw results with commit SHA: '' (we_api_bucket E)
        (uri @ ''/'' @ sha @ ''/raw.json'') raw p)))))"

text \<open>One repository: \<open>p\<close> goes on with the buffers \<open>b\<close> and \<open>rb\<close>.\<close>

definition scan_proc ::
  "'s worker_env \<Rightarrow> civil \<Rightarrow> batch_repo \<Rightarrow> scan_repo \<Rightarrow> forge \<Rightarrow> string list \<Rightarrow> string \<Rightarrow> string \<Rightarrow> (string \<Rightarrow> string \<Rightarrow> proc) \<Rightarrow> proc" where
  "scan_proc E jobTime repoReq repo forge enabledChecks b rb p =
     (let commitSHA = (if br_commit repoReq \<noteq> head_sha then br_commit repoReq else head_sha) in
      case se_run (we_engine E) repo commitSHA enabledChecks forge of (result, err) \<Rightarrow>
      if (case err of None \<Rightarrow> False | Some e \<Rightarrow> errors_is ''repo unreachable'' e) then p b rb
      else if (case err of None \<Rightarrow> False | Some e \<Rightarrow> str_contains (err_text e) ''organization has an IP allow list'') then p b rb
      else case err of Some e \<Rightarrow> Done (Some (errorf [L ''error during scorecard.Run: '', W e]))
      | None \<Rightarrow>
      case runtime_error E result of Some e \<Rightarrow> Done (Some e)
      | None \<Rightarrow>
      let result = result\<lparr>sr_version := fst (we_provenance E), sr_engine_sha := snd (we_provenance E), sr_date := jobTime\<rparr> in
      case as_json2 (se_docs (we_engine E)) result True (se_info_level (we_engine E)) of
        Inl e \<Rightarrow> Done (Some (errorf [L ''error during result.AsJSON2: '', W e]))
      | Inr json \<Rightarrow>
      case as_raw_json result of
        Inl e \<Rightarrow> Done (Some (errorf [L ''error during result.AsRawJSON for export: '', W e]))
      | Inr raw \<Rightarrow> export_proc E (sp_uri repo) (sr_repo_sha result) json raw (p (b @ json) (rb @ raw)))"

definition repo_proc ::
  "'s worker_env \<Rightarrow> civil \<Rightarrow> batch_repo \<Rightarrow> string \<Rightarrow> string \<Rightarrow> (string \<Rightarrow> string \<Rightarrow> proc) \<Rightarrow> proc" where
  "repo_proc E jobTime repoReq b rb p =
     (case choose_repo E (br_url repoReq) of
        None \<Rightarrow> p b rb
      | Some (repo, forge, disabledChecks) \<Rightarrow>
          let repo = repo\<lparr>sp_metadata := sp_metadata repo @ br_metadata repoReq\<rparr>
          in (case se_get_enabled (we_engine E) (br_commit repoReq \<noteq> head_sha) (sp_type repo) of
                Inl e \<Rightarrow> Done (Some (errorf [L ''error during policy.GetEnabled: '', W e]))
              | Inr checksToRun \<Rightarrow>
                  scan_proc E jobTime repoReq repo forge (filter (\<lambda>c. c \<notin> set disabledChecks) checksToRun) b rb p))"

fun repos_proc ::
  "'s worker_env \<Rightarrow> civil \<Rightarrow> batch_repo list \<Rightarrow> string \<Rightarrow> string \<Rightarrow> (string \<Rightarrow> string \<Rightarrow> proc) \<Rightarrow> proc" where
  "repos_proc E jobTime [] b rb p = p b rb"
| "repos_proc E jobTime (r # rs) b rb p = repo_proc E jobTime r b rb (\<lambda>b rb. repos_proc E jobTime rs b rb p)"

definition batch_proc :: "'s worker_env \<Rightarrow> batch_request \<Rightarrow> string \<Rightarrow> proc" where
  "batch_proc E batchRequest bucketURL =
     repos_proc E (bt_job_time batchRequest) (bt_repos batchRequest) [] [] (\<lambda>buffer2 rawBuffer.
       store_proc ''error during WriteToBlobStore2: '' (we_raw_bucket E) (result_filename batchRequest) rawBuffer
       (store_proc ''error during WriteToBlobStore2: '' bucketURL (result_filename batchRequest) buffer2 (Done None)))"

text \<open>Without interleaving.\<close>

primrec run_proc :: "'s worker_env \<Rightarrow> proc \<Rightarrow> 's world \<Rightarrow> err option \<times> 's world" where
  "run_proc E (Done r) w = (r, w)"
| "run_proc E (Write u k d p) w =
     (case write_to_blob_store (in_world (we_storage E)) w u k d of (r, w1) \<Rightarrow> run_proc E (p r) w1)"
| "run_proc E (Purge path p) w = run_proc E p (purge_path E w path)"

lemma run_store_proc:
  "run_proc E (store_proc what u k d p) w =
     (case store_object E what w u k d of (Some e, w1) \<Rightarrow> (Some e, w1) | (None, w1) \<Rightarrow> run_proc E p w1)"
  by (simp add: store_proc_def store_object_def split: prod.split option.split)

lemma run_export_proc:
  "run_proc E (export_proc E uri sha json raw p) w =
     (case export_results E w uri sha json raw of (Some e, w1) \<Rightarrow> (Some e, w1) | (None, w1) \<Rightarrow> run_proc E p w1)"
  by (simp add: export_proc_def export_results_def run_store_proc Let_def split: prod.split option.split)

lemma run_repo_proc:
  "run_proc E (repo_proc E t r b rb p) w =
     (case process_repo E t w r of Skipped \<Rightarrow> run_proc E (p b rb) w | Failed e w1 \<Rightarrow> (Some e, w1)
      | Stored json raw w1 \<Rightarrow> run_proc E (p (b @ json) (rb @ raw)) w1)"
  by (simp add: repo_proc_def process_repo_def scan_proc_def scan_and_store_def run_export_proc Let_def
      split: prod.split option.split sum.split)

lemma run_repos_proc:
  "run_proc E (repos_proc E t rs b rb p) w =
     (case process_repos E t rs w b rb of (Inl e, w1) \<Rightarrow> (Some e, w1) | (Inr (b2, rb2), w1) \<Rightarrow> run_proc E (p b2 rb2) w1)"
  by (induction rs arbitrary: w b rb) (simp_all add: run_repo_proc split: scanned.split)

lemma run_batch_proc: "run_proc E (batch_proc E req url) w = process_batch E req url w"
  by (simp add: batch_proc_def process_batch_def run_repos_proc run_store_proc Let_def split: prod.split option.split sum.split)


section \<open>Workers\<close>

text \<open>What a worker is about to do.\<close>

datatype phase =
  Idle
| Asking batch_request \<comment> \<open>whether there is metadata\<close>
| Looking batch_request \<comment> \<open>whether there is a result\<close>
| Running batch_request proc
| Answering batch_request bool

record 's fleet =
  fl_world :: "'s world"
  fl_phase :: "nat \<Rightarrow> phase"
  fl_acked :: "batch_request list"

definition set_phase :: "nat \<Rightarrow> phase \<Rightarrow> 's fleet \<Rightarrow> 's fleet" where
  "set_phase i p s = s\<lparr>fl_phase := (fl_phase s)(i := p)\<rparr>"

text \<open>
  The steps over the published requests \<open>P\<close>.  A message may be delivered to anyone at any time,
  acked or not; a worker that dies forgets its message.
\<close>

inductive fleet_step :: "'s worker_env \<Rightarrow> string \<Rightarrow> batch_request set \<Rightarrow> 's fleet \<Rightarrow> 's fleet \<Rightarrow> bool"
  for E :: "'s worker_env" and url :: string and P :: "batch_request set" where
  pulled: "fl_phase s i = Idle \<Longrightarrow> req \<in> P \<Longrightarrow> fleet_step E url P s (set_phase i (Asking req) s)"
| asked: "fl_phase s i = Asking req \<Longrightarrow>
    fleet_step E url P s (set_phase i
      (if has_metadata_file (in_world (we_storage E)) (fl_world s) req url = Inr True then Looking req else Answering req False) s)"
| looked: "fl_phase s i = Looking req \<Longrightarrow>
    fleet_step E url P s (set_phase i
      (case result_exists (in_world (we_storage E)) (fl_world s) req url of
         Inl e \<Rightarrow> Answering req False
       | Inr exists \<Rightarrow> if exists then Answering req True else Running req (batch_proc E req url)) s)"
| wrote: "fl_phase s i = Running req (Write u k d p) \<Longrightarrow>
    write_to_blob_store (in_world (we_storage E)) (fl_world s) u k d = (r, w1) \<Longrightarrow>
    fleet_step E url P s (set_phase i (Running req (p r)) (s\<lparr>fl_world := w1\<rparr>))"
| purged: "fl_phase s i = Running req (Purge path p) \<Longrightarrow>
    fleet_step E url P s (set_phase i (Running req p) (s\<lparr>fl_world := purge_path E (fl_world s) path\<rparr>))"
| processed: "fl_phase s i = Running req (Done r) \<Longrightarrow> fleet_step E url P s (set_phase i (Answering req (r = None)) s)"
| answered: "fl_phase s i = Answering req a \<Longrightarrow>
    fleet_step E url P s (set_phase i Idle (s\<lparr>fl_acked := (if a then req # fl_acked s else fl_acked s)\<rparr>))"
| died: "fleet_step E url P s (set_phase i Idle s)"

definition fleet_start :: "'s world \<Rightarrow> 's fleet" where
  "fleet_start w = \<lparr>fl_world = w, fl_phase = (\<lambda>i. Idle), fl_acked = []\<rparr>"

lemma set_phase_simps [simp]:
  "fl_phase (set_phase i p s) j = (if j = i then p else fl_phase s j)"
  "fl_world (set_phase i p s) = fl_world s" "fl_acked (set_phase i p s) = fl_acked s"
  by (simp_all add: set_phase_def)

section \<open>What the calls of a request promise\<close>

text \<open>The calls only end without an error once the object \<open>uk\<close> was written.\<close>

primrec must_store :: "string \<times> string \<Rightarrow> proc \<Rightarrow> bool" where
  "must_store uk (Done r) \<longleftrightarrow> r \<noteq> None"
| "must_store uk (Write u k d p) \<longleftrightarrow> (\<forall>r. r = None \<and> (u, k) = uk \<or> must_store uk (p r))"
| "must_store uk (Purge path p) \<longleftrightarrow> must_store uk p"

text \<open>
  In the bucket \<open>url\<close> the calls write only what \<open>C\<close> allows, and an object only after the one
  of its name in the bucket \<open>raw\<close>; those of the names \<open>D\<close> are there already.
\<close>

primrec guarded :: "string \<Rightarrow> string \<Rightarrow> (string \<Rightarrow> string \<Rightarrow> bool) \<Rightarrow> proc \<Rightarrow> string set \<Rightarrow> bool" where
  "guarded url raw C (Done r) D \<longleftrightarrow> True"
| "guarded url raw C (Write u k d p) D \<longleftrightarrow> (u = url \<longrightarrow> C k d \<and> k \<in> D) \<and>
     (\<forall>r. guarded url raw C (p r) (if r = None \<and> u = raw then insert k D else D))"
| "guarded url raw C (Purge path p) D \<longleftrightarrow> guarded url raw C p D"

lemma guarded_mono: "guarded url raw C p D \<Longrightarrow> D \<subseteq> D' \<Longrightarrow> guarded url raw C p D'"
proof (induction p arbitrary: D D')
  case (Write u k d p)
  have "guarded url raw C (p r) (if r = None \<and> u = raw then insert k D' else D')" for r
  proof (rule Write.IH [OF rangeI])
    show "guarded url raw C (p r) (if r = None \<and> u = raw then insert k D else D)" using Write.prems(1) by simp
  qed (use Write.prems(2) in auto)
  then show ?case using Write.prems by auto
qed simp_all

lemma must_store_proc [simp]:
  "must_store uk (store_proc what u k d p) \<longleftrightarrow> (u, k) = uk \<or> must_store uk p"
  by (auto simp: store_proc_def split: option.split)

lemma guarded_store_proc [simp]:
  "guarded url raw C (store_proc what u k d p) D \<longleftrightarrow>
     (u = url \<longrightarrow> C k d \<and> k \<in> D) \<and> guarded url raw C p (if u = raw then insert k D else D)"
  by (auto simp: store_proc_def split: option.split)

lemma must_store_repos: "(\<And>b rb. must_store uk (p b rb)) \<Longrightarrow> must_store uk (repos_proc E t rs b rb p)"
  by (induction rs arbitrary: b rb)
    (auto simp: repo_proc_def scan_proc_def export_proc_def Let_def split: prod.split option.split sum.split)

lemma must_store_batch: "must_store (url, result_filename req) (batch_proc E req url)"
  by (auto simp: batch_proc_def intro!: must_store_repos)

text \<open>The text of the results file of a request.\<close>

definition file_of :: "'s worker_env \<Rightarrow> batch_request \<Rightarrow> string" where
  "file_of E req = concat (map (\<lambda>d. encode_json (fst d))
     (List.map_filter (documents_of E (bt_job_time req)) (bt_repos req)))"

lemma guarded_export:
  "we_api_bucket E \<noteq> url \<Longrightarrow> (\<And>D. guarded url raw C p D) \<Longrightarrow> guarded url raw C (export_proc E uri sha json rw p) D"
  by (simp add: export_proc_def)

definition text_of :: "'s worker_env \<Rightarrow> civil \<Rightarrow> batch_repo \<Rightarrow> string" where
  "text_of E t r = (case documents_of E t r of None \<Rightarrow> [] | Some d \<Rightarrow> encode_json (fst d))"

lemma guarded_repo:
  assumes api: "we_api_bucket E \<noteq> url" and p: "\<And>rb D. guarded url raw C (p (b @ text_of E t r) rb) D"
  shows "guarded url raw C (repo_proc E t r b rb p) D"
proof (cases "choose_repo E (br_url r)")
  case None
  then show ?thesis using p by (simp add: repo_proc_def text_of_def documents_of_def)
next
  case (Some c)
  obtain repo forge disabled where c: "c = (repo, forge, disabled)" by (cases c)
  show ?thesis
  proof (cases "se_get_enabled (we_engine E) (br_commit r \<noteq> head_sha) (sp_type repo)")
    case (Inl e)
    then show ?thesis using Some c by (simp add: repo_proc_def)
  next
    case (Inr checks)
    let ?repo = "repo\<lparr>sp_metadata := sp_metadata repo @ br_metadata r\<rparr>"
    let ?checks = "filter (\<lambda>c. c \<notin> set disabled) checks"
    obtain result err where run: "se_run (we_engine E) ?repo (br_commit r) ?checks forge = (result, err)" by fastforce
    have sha: "(if br_commit r \<noteq> head_sha then br_commit r else head_sha) = br_commit r" by simp
    have docs: "text_of E t r = (case err of Some e \<Rightarrow> [] | None \<Rightarrow>
        (case json_result_v2 (se_docs (we_engine E)) (stamped E t result) True (se_info_level (we_engine E)) of
           Inl e \<Rightarrow> [] | Inr doc \<Rightarrow> encode_json doc))"
      using Some c Inr run by (simp add: text_of_def documents_of_def split: option.split sum.split)
    have "guarded url raw C (scan_proc E t r ?repo forge ?checks b rb p) D"
    proof (cases err)
      case None
      show ?thesis
      proof (cases "json_result_v2 (se_docs (we_engine E)) (stamped E t result) True (se_info_level (we_engine E))")
        case (Inr doc)
        then have "\<And>rb D. guarded url raw C (p (b @ encode_json doc) rb) D" using p docs None by simp
        then show ?thesis
          using Inr None
          by (simp add: scan_proc_def sha run as_json2_def as_raw_json_def stamped_def [symmetric] Let_def
              guarded_export [OF api] split: option.split)
      qed (simp add: scan_proc_def sha run None as_json2_def stamped_def [symmetric] Let_def split: option.split)
    next
      case (Some e)
      then have "\<And>rb D. guarded url raw C (p b rb) D" using p docs by simp
      then show ?thesis by (simp add: scan_proc_def sha run Some Let_def)
    qed
    then show ?thesis using Some c Inr by (simp add: repo_proc_def Let_def)
  qed
qed

lemma guarded_repos:
  "we_api_bucket E \<noteq> url \<Longrightarrow> (\<And>rb D. guarded url raw C (p (b @ concat (map (text_of E t) rs)) rb) D) \<Longrightarrow>
   guarded url raw C (repos_proc E t rs b rb p) D"
proof (induction rs arbitrary: b rb D)
  case (Cons r rs)
  show ?case
    unfolding repos_proc.simps
    by (rule guarded_repo [OF Cons.prems(1)]) (rule Cons.IH [OF Cons.prems(1)], use Cons.prems(2) in simp)
qed simp

lemma file_of_texts: "file_of E req = concat (map (text_of E (bt_job_time req)) (bt_repos req))"
proof -
  have "concat (map (\<lambda>d. encode_json (fst d)) (List.map_filter (documents_of E t) rs)) = concat (map (text_of E t) rs)" for t rs
    by (induction rs) (auto simp: map_filter_simps text_of_def split: option.split)
  then show ?thesis by (simp add: file_of_def)
qed

lemma guarded_batch:
  assumes "we_api_bucket E \<noteq> url" "we_raw_bucket E \<noteq> url" "C (result_filename req) (file_of E req)"
  shows "guarded url (we_raw_bucket E) C (batch_proc E req url) D"
  unfolding batch_proc_def
  by (rule guarded_repos [OF assms(1)]) (use assms(2,3) in \<open>simp add: file_of_texts\<close>)

section \<open>The invariant of the fleet\<close>

text \<open>A write that fails has written the object or nothing: objects appear as a whole.\<close>

locale atomic_bucket = bucket_model +
  assumes failed_whole: "os_finish B s u k d = (Some e, s') \<Longrightarrow> objs s' = objs s \<or> objs s' = (objs s)((u, k) \<mapsto> d)"
begin

lemma world_write:
  assumes "write_to_blob_store (in_world B) w u k d = (r, w1)"
  shows "objs (wd_store w1) = objs (wd_store w) \<and> r \<noteq> None \<or> objs (wd_store w1) = (objs (wd_store w))((u, k) \<mapsto> d)"
  using assms
  by (auto simp: write_to_blob_store_def in_world_def split: option.splits prod.splits dest: finished failed_whole)

lemma world_exists:
  "result_exists (in_world B) w req url = Inr b \<Longrightarrow> b \<longleftrightarrow> objs (wd_store w) (url, result_filename req) \<noteq> None"
  using bucket_model.present [OF in_world_model [OF bucket_model_axioms], of w url "result_filename req"]
  by (auto simp: result_exists_def split: sum.splits)

end

definition complete_file :: "'s worker_env \<Rightarrow> batch_request set \<Rightarrow> string \<Rightarrow> string \<Rightarrow> bool" where
  "complete_file E P k f \<longleftrightarrow> (\<exists>req \<in> P. k = result_filename req \<and> f = file_of E req)"

text \<open>What a phase says of the objects \<open>m\<close>.\<close>

definition phase_ok ::
  "'s worker_env \<Rightarrow> string \<Rightarrow> batch_request set \<Rightarrow> (string \<times> string \<rightharpoonup> string) \<Rightarrow> phase \<Rightarrow> bool" where
  "phase_ok E url P m p \<longleftrightarrow> (case p of
     Idle \<Rightarrow> True
   | Asking req \<Rightarrow> req \<in> P
   | Looking req \<Rightarrow> req \<in> P
   | Running req q \<Rightarrow> req \<in> P \<and> (m (url, result_filename req) \<noteq> None \<or> must_store (url, result_filename req) q) \<and>
       guarded url (we_raw_bucket E) (complete_file E P) q {k. m (we_raw_bucket E, k) \<noteq> None}
   | Answering req a \<Rightarrow> a \<longrightarrow> m (url, result_filename req) \<noteq> None)"

definition fleet_inv ::
  "'s worker_env \<Rightarrow> string \<Rightarrow> batch_request set \<Rightarrow> ('s \<Rightarrow> string \<times> string \<rightharpoonup> string) \<Rightarrow> 's world \<Rightarrow> 's fleet \<Rightarrow> bool" where
  "fleet_inv E url P objs w0 s \<longleftrightarrow>
     (let m = objs (wd_store (fl_world s)) in
      (\<forall>req \<in> set (fl_acked s). m (url, result_filename req) \<noteq> None) \<and>
      (\<forall>i. phase_ok E url P m (fl_phase s i)) \<and>
      (\<forall>uk. objs (wd_store w0) uk \<noteq> None \<longrightarrow> m uk \<noteq> None) \<and>
      (\<forall>k f. m (url, k) = Some f \<longrightarrow> objs (wd_store w0) (url, k) = Some f \<or>
        complete_file E P k f \<and> m (we_raw_bucket E, k) \<noteq> None))"

lemma phase_ok_mono:
  assumes "phase_ok E url P m p" "\<And>uk. m uk \<noteq> None \<Longrightarrow> m' uk \<noteq> None"
  shows "phase_ok E url P m' p"
proof -
  have "{k. m (we_raw_bucket E, k) \<noteq> None} \<subseteq> {k. m' (we_raw_bucket E, k) \<noteq> None}" using assms(2) by auto
  then show ?thesis
    using assms guarded_mono by (auto simp: phase_ok_def split: phase.splits)
qed

text \<open>A step that leaves the storage alone and changes one phase.\<close>

lemma fleet_inv_phase:
  "fleet_inv E url P objs w0 s \<Longrightarrow> phase_ok E url P (objs (wd_store (fl_world s))) p \<Longrightarrow>
   fleet_inv E url P objs w0 (set_phase i p s)"
  by (simp add: fleet_inv_def Let_def)

lemma fleet_inv_acked:
  "fleet_inv E url P objs w0 s \<Longrightarrow> objs (wd_store (fl_world s)) (url, result_filename req) \<noteq> None \<Longrightarrow>
   fleet_inv E url P objs w0 (s\<lparr>fl_acked := req # fl_acked s\<rparr>)"
  by (simp add: fleet_inv_def Let_def)

lemma fleet_inv_world:
  assumes "fleet_inv E url P objs w0 s" "\<And>uk. objs (wd_store (fl_world s)) uk \<noteq> None \<Longrightarrow> objs (wd_store w1) uk \<noteq> None"
    and "\<And>k f. objs (wd_store w1) (url, k) = Some f \<Longrightarrow> objs (wd_store w0) (url, k) = Some f \<or>
        complete_file E P k f \<and> objs (wd_store w1) (we_raw_bucket E, k) \<noteq> None"
  shows "fleet_inv E url P objs w0 (s\<lparr>fl_world := w1\<rparr>)"
  using assms phase_ok_mono [of E url P "objs (wd_store (fl_world s))" _ "objs (wd_store w1)"]
  by (simp add: fleet_inv_def Let_def)

context atomic_bucket
begin

lemma fleet_inv_start: "fleet_inv E url P objs w (fleet_start w)"
  by (simp add: fleet_inv_def fleet_start_def phase_ok_def Let_def)

lemma fleet_inv_wrote:
  assumes inv: "fleet_inv E url P objs w0 s" and B: "we_storage E = B"
    and run: "fl_phase s i = Running req (Write u k d p)"
    and wr: "write_to_blob_store (in_world (we_storage E)) (fl_world s) u k d = (r, w1)"
  shows "fleet_inv E url P objs w0 (set_phase i (Running req (p r)) (s\<lparr>fl_world := w1\<rparr>))"
proof -
  let ?m = "objs (wd_store (fl_world s))" and ?m1 = "objs (wd_store w1)"
  have ok: "phase_ok E url P ?m (Running req (Write u k d p))"
    using inv run by (metis fleet_inv_def)
  have w: "?m1 = ?m \<and> r \<noteq> None \<or> ?m1 = ?m((u, k) \<mapsto> d)" using world_write wr B by simp
  have mono: "?m uk \<noteq> None \<Longrightarrow> ?m1 uk \<noteq> None" for uk using w by auto
  have files: "?m1 (url, k') = Some f \<Longrightarrow> objs (wd_store w0) (url, k') = Some f \<or>
      complete_file E P k' f \<and> ?m1 (we_raw_bucket E, k') \<noteq> None" for k' f
  proof (cases "?m (url, k') = Some f")
    case True
    then have "objs (wd_store w0) (url, k') = Some f \<or> complete_file E P k' f \<and> ?m (we_raw_bucket E, k') \<noteq> None"
      using inv by (simp add: fleet_inv_def Let_def)
    then show "objs (wd_store w0) (url, k') = Some f \<or> complete_file E P k' f \<and> ?m1 (we_raw_bucket E, k') \<noteq> None"
      using mono [of "(we_raw_bucket E, k')"] by argo
  next
    case False
    assume "?m1 (url, k') = Some f"
    with False w have "u = url" "k = k'" "d = f" by (auto split: if_splits)
    then show ?thesis using ok mono by (auto simp: phase_ok_def)
  qed
  have raw: "(if r = None \<and> u = we_raw_bucket E then insert k {k. ?m (we_raw_bucket E, k) \<noteq> None}
      else {k. ?m (we_raw_bucket E, k) \<noteq> None}) \<subseteq> {k. ?m1 (we_raw_bucket E, k) \<noteq> None}"
    using w by auto
  have "guarded url (we_raw_bucket E) (complete_file E P) (p r) {k. ?m1 (we_raw_bucket E, k) \<noteq> None}"
  proof (rule guarded_mono [OF _ raw])
    show "guarded url (we_raw_bucket E) (complete_file E P) (p r)
      (if r = None \<and> u = we_raw_bucket E then insert k {k. ?m (we_raw_bucket E, k) \<noteq> None}
       else {k. ?m (we_raw_bucket E, k) \<noteq> None})"
      using ok unfolding phase_ok_def phase.case guarded.simps by blast
  qed
  moreover have "?m1 (url, result_filename req) \<noteq> None \<or> must_store (url, result_filename req) (p r)"
  proof (cases "?m (url, result_filename req)")
    case None
    then have "r = None \<and> (u, k) = (url, result_filename req) \<or> must_store (url, result_filename req) (p r)"
      using ok by (simp add: phase_ok_def)
    then show ?thesis using w by auto
  qed (use mono [of "(url, result_filename req)"] in simp)
  ultimately have "phase_ok E url P ?m1 (Running req (p r))" using ok by (simp add: phase_ok_def)
  with fleet_inv_phase [OF fleet_inv_world [OF inv mono files], of "Running req (p r)" i] show ?thesis by simp
qed

lemma fleet_inv_step:
  assumes inv: "fleet_inv E url P objs w0 s" and "fleet_step E url P s s'"
    and B: "we_storage E = B" and buckets: "we_api_bucket E \<noteq> url" "we_raw_bucket E \<noteq> url"
  shows "fleet_inv E url P objs w0 s'"
proof -
  let ?m = "objs (wd_store (fl_world s))"
  have ok: "phase_ok E url P ?m (fl_phase s i)" for i using inv by (metis fleet_inv_def)
  show ?thesis
    using assms(2)
  proof (cases rule: fleet_step.cases)
    case (pulled i req)
    then show ?thesis using fleet_inv_phase [OF inv] by (simp add: phase_ok_def)
  next
    case (asked i req)
    then show ?thesis using fleet_inv_phase [OF inv] ok [of i] by (simp add: phase_ok_def)
  next
    case (looked i req)
    have "guarded url (we_raw_bucket E) (complete_file E P) (batch_proc E req url) D" for D
      using ok [of i] looked(2) by (intro guarded_batch [OF buckets]) (auto simp: phase_ok_def complete_file_def)
    then show ?thesis
      using looked ok [of i] world_exists [of "fl_world s" req url] B
      by (auto intro!: fleet_inv_phase [OF inv] simp: phase_ok_def must_store_batch split: sum.split)
  next
    case (wrote i req u k d p r w1)
    then show ?thesis using fleet_inv_wrote [OF inv B] by blast
  next
    case (purged i req path p)
    have "fleet_inv E url P objs w0 (s\<lparr>fl_world := purge_path E (fl_world s) path\<rparr>)"
      by (rule fleet_inv_world [OF inv]) (use inv in \<open>simp_all add: purge_path_store fleet_inv_def Let_def\<close>)
    from fleet_inv_phase [OF this, of "Running req p" i] ok [of i] purged show ?thesis
      by (simp add: phase_ok_def purge_path_store)
  next
    case (processed i req r)
    then show ?thesis using fleet_inv_phase [OF inv] ok [of i] by (auto simp: phase_ok_def)
  next
    case (answered i req a)
    then show ?thesis
      using ok [of i] by (auto intro!: fleet_inv_phase fleet_inv_acked inv simp: phase_ok_def)
  next
    case (died i)
    then show ?thesis using fleet_inv_phase [OF inv] by (simp add: phase_ok_def)
  qed
qed

lemma fleet_reachable:
  assumes "(fleet_step E url P)\<^sup>*\<^sup>* (fleet_start w) s" "we_storage E = B" "we_api_bucket E \<noteq> url" "we_raw_bucket E \<noteq> url"
  shows "fleet_inv E url P objs w s"
  using assms by (induction rule: rtranclp_induct) (auto intro: fleet_inv_start fleet_inv_step)

end


section \<open>A worker alone\<close>

lemma set_phase_idem [simp]: "set_phase i p (set_phase i q s) = set_phase i p s"
  by (simp add: set_phase_def)

lemma set_phase_same: "fl_phase s i = p \<Longrightarrow> set_phase i p s = s"
  by (auto simp: set_phase_def)

lemma set_phase_commute [simp]:
  "fl_world_update f (set_phase i p s) = set_phase i p (fl_world_update f s)"
  "fl_acked_update g (set_phase i p s) = set_phase i p (fl_acked_update g s)"
  by (simp_all add: set_phase_def)

lemma run_proc_steps:
  "run_proc E p (fl_world s) = (r, w') \<Longrightarrow>
   (fleet_step E url P)\<^sup>*\<^sup>* (set_phase i (Running req p) s) (set_phase i (Running req (Done r)) (s\<lparr>fl_world := w'\<rparr>))"
proof (induction p arbitrary: s)
  case (Write u k d p)
  obtain e w1 where wr: "write_to_blob_store (in_world (we_storage E)) (fl_world s) u k d = (e, w1)" by fastforce
  have "fleet_step E url P (set_phase i (Running req (Write u k d p)) s) (set_phase i (Running req (p e)) (s\<lparr>fl_world := w1\<rparr>))"
    using fleet_step.wrote [of "set_phase i (Running req (Write u k d p)) s" i req u k d p E e w1 url P] wr by simp
  moreover have "(fleet_step E url P)\<^sup>*\<^sup>* (set_phase i (Running req (p e)) (s\<lparr>fl_world := w1\<rparr>))
      (set_phase i (Running req (Done r)) (s\<lparr>fl_world := w'\<rparr>))"
    using Write.IH [OF rangeI, of e "s\<lparr>fl_world := w1\<rparr>"] Write.prems wr by simp
  ultimately show ?case by (rule converse_rtranclp_into_rtranclp)
next
  case (Purge path p)
  have "fleet_step E url P (set_phase i (Running req (Purge path p)) s)
      (set_phase i (Running req p) (s\<lparr>fl_world := purge_path E (fl_world s) path\<rparr>))"
    using fleet_step.purged [of "set_phase i (Running req (Purge path p)) s" i req path p E url P] by simp
  moreover have "(fleet_step E url P)\<^sup>*\<^sup>* (set_phase i (Running req p) (s\<lparr>fl_world := purge_path E (fl_world s) path\<rparr>))
      (set_phase i (Running req (Done r)) (s\<lparr>fl_world := w'\<rparr>))"
    using Purge.IH [of "s\<lparr>fl_world := purge_path E (fl_world s) path\<rparr>"] Purge.prems by simp
  ultimately show ?case by (rule converse_rtranclp_into_rtranclp)
next
  case (Done x)
  then show ?case by (cases s) simp
qed

lemma answer_step:
  assumes "fl_phase s i = Idle"
  shows "fleet_step E url P (set_phase i (Answering req a) s)
    (s\<lparr>fl_acked := (if a then req # fl_acked s else fl_acked s)\<rparr>)"
  using fleet_step.answered [of "set_phase i (Answering req a) s" i req a E url P] assms
  by (cases a) (simp_all add: set_phase_same)

lemma handled_steps:
  assumes h: "handle_request (scorecard_worker E) url (fl_world s) req = (a, w')"
    and idle: "fl_phase s i = Idle" and req: "req \<in> P"
  shows "(fleet_step E url P)\<^sup>*\<^sup>* s (s\<lparr>fl_world := w', fl_acked := (if a then req # fl_acked s else fl_acked s)\<rparr>)"
proof -
  let ?B = "in_world (we_storage E)" and ?go = "\<lambda>p. set_phase i p s" and ?steps = "(fleet_step E url P)\<^sup>*\<^sup>*"
  let ?md = "has_metadata_file ?B (fl_world s) req url" and ?re = "result_exists ?B (fl_world s) req url"
  have pull: "?steps s (?go (Asking req))" using fleet_step.pulled [OF idle req] by blast
  have ask: "fleet_step E url P (?go (Asking req)) (?go (if ?md = Inr True then Looking req else Answering req False))"
    using fleet_step.asked [of "?go (Asking req)" i req E url P] by simp
  have answer: "?steps (set_phase i (Answering req b) (s\<lparr>fl_world := v\<rparr>))
      (s\<lparr>fl_world := v, fl_acked := (if b then req # fl_acked s else fl_acked s)\<rparr>)" for b v
    using answer_step [of "s\<lparr>fl_world := v\<rparr>" i E url P req b] idle by auto
  have same: "s\<lparr>fl_world := fl_world s\<rparr> = s" by (cases s) simp
  show ?thesis
  proof (cases "?md = Inr True")
    case False
    then have "a = False" "w' = fl_world s"
      using h by (auto simp: handle_request_def scorecard_worker_def split: sum.splits)
    then show ?thesis
      using rtranclp.rtrancl_into_rtrancl [OF pull ask] answer [of False "fl_world s"] False same by simp
  next
    case True
    then have look: "?steps s (?go (Looking req))" using rtranclp.rtrancl_into_rtrancl [OF pull ask] by simp
    have step: "fleet_step E url P (?go (Looking req)) (?go (case ?re of Inl e \<Rightarrow> Answering req False
        | Inr exists \<Rightarrow> if exists then Answering req True else Running req (batch_proc E req url)))"
      using fleet_step.looked [of "?go (Looking req)" i req E url P] by simp
    note looked = rtranclp.rtrancl_into_rtrancl [OF look step]
    show ?thesis
    proof (cases "?re = Inr False")
      case False
      then have "w' = fl_world s" "a \<longleftrightarrow> ?re = Inr True"
        using h True by (auto simp: handle_request_def scorecard_worker_def split: sum.splits)
      then show ?thesis
        using looked False answer [of a "fl_world s"] same by (auto split: sum.splits)
    next
      case found: True
      obtain r w1 where p: "process_batch E req url (fl_world s) = (r, w1)" by fastforce
      then have aw: "w' = w1" "a \<longleftrightarrow> r = None"
        using h True found by (auto simp: handle_request_def scorecard_worker_def split: option.splits)
      have "?steps s (?go (Running req (batch_proc E req url)))" using looked found by simp
      also have "?steps \<dots> (set_phase i (Running req (Done r)) (s\<lparr>fl_world := w1\<rparr>))"
        by (rule run_proc_steps) (simp add: run_batch_proc p)
      also have "?steps \<dots> (set_phase i (Answering req (r = None)) (s\<lparr>fl_world := w1\<rparr>))"
        using fleet_step.processed [of "set_phase i (Running req (Done r)) (s\<lparr>fl_world := w1\<rparr>)" i req r E url P] by auto
      also have "?steps \<dots> (s\<lparr>fl_world := w1, fl_acked := (if r = None then req # fl_acked s else fl_acked s)\<rparr>)"
        by (rule answer)
      finally show ?thesis using aw by simp
    qed
  qed
qed

lemma all_handled_steps:
  "handle_all (scorecard_worker E) url (fl_world s) reqs = (as, w') \<Longrightarrow> fl_phase s i = Idle \<Longrightarrow> set reqs \<subseteq> P \<Longrightarrow>
   \<exists>s'. (fleet_step E url P)\<^sup>*\<^sup>* s s' \<and> fl_world s' = w' \<and> fl_phase s' = fl_phase s \<and>
     set (fl_acked s') = set (fl_acked s) \<union> {req. (req, True) \<in> set (zip reqs as)}"
proof (induction reqs arbitrary: s as)
  case (Cons req reqs)
  obtain a w1 where h: "handle_request (scorecard_worker E) url (fl_world s) req = (a, w1)" by fastforce
  obtain as' where t: "handle_all (scorecard_worker E) url w1 reqs = (as', w')" "as = a # as'"
    using Cons.prems(1) h by (auto split: prod.splits)
  let ?s1 = "s\<lparr>fl_world := w1, fl_acked := (if a then req # fl_acked s else fl_acked s)\<rparr>"
  have "(fleet_step E url P)\<^sup>*\<^sup>* s ?s1" using Cons.prems by (intro handled_steps [OF h]) auto
  moreover obtain s' where "(fleet_step E url P)\<^sup>*\<^sup>* ?s1 s'" "fl_world s' = w'" "fl_phase s' = fl_phase s"
      "set (fl_acked s') = set (fl_acked ?s1) \<union> {req. (req, True) \<in> set (zip reqs as')}"
    using Cons.IH [of ?s1 as'] Cons.prems t by auto
  ultimately show ?case
    using t(2) by (intro exI [of _ s'] conjI) (auto intro: rtranclp_trans)
next
  case Nil
  then show ?case by (intro exI [of _ s]) simp
qed

text \<open>
  C23.  A run of the work loop is a run of the fleet: over the same storage and with the requests
  it acked, whatever the subscriber; so what holds of every fleet holds of workers that run one
  after the other too.
\<close>

theorem worker_run_in_fleet:
  assumes "run_loop S (scorecard_worker E) url u w [] = Some (r, w', tr)"
    and "\<And>req. Pulled req \<in> set tr \<Longrightarrow> req \<in> P"
  shows "\<exists>s. (fleet_step E url P)\<^sup>*\<^sup>* (fleet_start w) s \<and> fl_world s = w' \<and>
    (\<forall>pre req post. tr = pre @ [Pulled req, Acked] @ post \<longrightarrow> req \<in> set (fl_acked s))"
proof -
  obtain reqs where run: "run_of (scorecard_worker E) url w reqs (r, w', tr)"
    using run_loop_trace [OF assms(1)] by auto
  obtain as where all: "handle_all (scorecard_worker E) url w reqs = (as, w')"
    using run by (auto simp: run_of_def split: prod.splits)
  have "set reqs \<subseteq> P" using run_of_pulled [OF run] assms(2) by blast
  then obtain s where s: "(fleet_step E url P)\<^sup>*\<^sup>* (fleet_start w) s" "fl_world s = w'"
    "set (fl_acked s) = {req. (req, True) \<in> set (zip reqs as)}"
    using all_handled_steps [of E url "fleet_start w" reqs as w' 0 P] all by (auto simp: fleet_start_def)
  have "req \<in> set (fl_acked s)" if "tr = pre @ [Pulled req, Acked] @ post" for pre req post
    using run_of_acked [OF run that] all s(3) by auto
  then show ?thesis using s by blast
qed

section \<open>An example fleet\<close>

interpretation mem_atomic: atomic_bucket mem_bucket "\<lambda>s. map_of (ms_objects s)"
  by unfold_locales (auto simp: mem_bucket_def mem_store_def split: if_splits)

text \<open>The requests of two shards of one run.\<close>

definition shard_request :: "nat \<Rightarrow> batch_request" where
  "shard_request i = scan_request\<lparr>bt_shard_num := int i\<rparr>"

lemma shard_request_simps [simp]:
  "bt_job_time (shard_request i) = wtime" "bt_shard_num (shard_request i) = int i"
  "bt_repos (shard_request i) = bt_repos scan_request"
  by (simp_all add: shard_request_def scan_request_def)

lemma shard_processed:
  assumes "ms_closed s = []"
  shows "\<exists>os. process_batch (example_env mem_bucket raw) (shard_request i) url (example_world s) =
     (None, example_world (s\<lparr>ms_objects := os\<rparr>))"
  using example_repos [OF assms, of raw "[]" "[]"]
  by (auto simp: process_batch_def example_store assms Let_def)

lemma shard_handled:
  assumes "ms_closed s = []" "map_of (ms_objects s) (example_url, get_shard_metadata_filename wtime) \<noteq> None"
  shows "\<exists>os. handle_request (scorecard_worker (example_env mem_bucket raw)) example_url (example_world s) (shard_request i) =
     (True, example_world (s\<lparr>ms_objects := os\<rparr>)) \<and> map_of os (example_url, get_shard_metadata_filename wtime) \<noteq> None"
proof -
  have e: "we_storage (example_env mem_bucket raw) = mem_bucket" by (simp add: example_env_def)
  have there: "blob_exists (in_world mem_bucket) (example_world s) u k = Inr (map_of (ms_objects s) (u, k) \<noteq> None)" for u k
    using assms(1) by (simp add: blob_exists_def mem_bucket_def mem_store_def in_world_def example_world_def)
  obtain os where os: "process_batch (example_env mem_bucket raw) (shard_request i) example_url (example_world s) =
     (None, example_world (s\<lparr>ms_objects := os\<rparr>))" using shard_processed [OF assms(1)] by blast
  have "keeps (\<lambda>s. map_of (ms_objects s)) (example_world s) (example_world (s\<lparr>ms_objects := os\<rparr>))"
    by (rule mem_bucket.process_batch_keeps [OF e os])
  then have kept: "map_of os (example_url, get_shard_metadata_filename wtime) \<noteq> None"
    using assms(2) by (simp add: keeps_def example_world_def)
  have same: "s\<lparr>ms_objects := ms_objects s\<rparr> = s" by (cases s) simp
  show ?thesis
  proof (cases "map_of (ms_objects s) (example_url, result_filename (shard_request i))")
    case None
    then show ?thesis
      using os kept assms(2)
      by (intro exI [of _ os]) (simp add: handle_request_def scorecard_worker_def e has_metadata_file_def result_exists_def there)
  next
    case (Some f)
    then show ?thesis
      using assms(2) same
      by (intro exI [of _ "ms_objects s"])
        (simp add: handle_request_def scorecard_worker_def e has_metadata_file_def result_exists_def there)
  qed
qed

text \<open>From a bucket with metadata the fleet gets both shards done.\<close>

lemma shards_acked:
  assumes "ms_closed s0 = []" "map_of (ms_objects s0) (example_url, get_shard_metadata_filename wtime) \<noteq> None"
  shows "\<exists>s os. (fleet_step (example_env mem_bucket raw) example_url {shard_request 0, shard_request 1})\<^sup>*\<^sup>*
      (fleet_start (example_world s0)) s \<and> fl_world s = example_world (s0\<lparr>ms_objects := os\<rparr>) \<and>
    set (fl_acked s) = {shard_request 0, shard_request 1}"
proof -
  let ?K = "scorecard_worker (example_env mem_bucket raw)"
  obtain os where h0: "handle_request ?K example_url (example_world s0) (shard_request 0) =
      (True, example_world (s0\<lparr>ms_objects := os\<rparr>))" "map_of os (example_url, get_shard_metadata_filename wtime) \<noteq> None"
    using shard_handled [OF assms] by blast
  obtain os1 where h1: "handle_request ?K example_url (example_world (s0\<lparr>ms_objects := os\<rparr>)) (shard_request 1) =
      (True, example_world (s0\<lparr>ms_objects := os1\<rparr>))"
    using shard_handled [of "s0\<lparr>ms_objects := os\<rparr>" raw 1] assms(1) h0(2) by auto
  have all: "handle_all ?K example_url (fl_world (fleet_start (example_world s0))) [shard_request 0, shard_request 1] =
      ([True, True], example_world (s0\<lparr>ms_objects := os1\<rparr>))"
    using h0(1) h1 by (simp add: fleet_start_def)
  have "fl_phase (fleet_start (example_world s0)) 0 = Idle" "fl_acked (fleet_start (example_world s0)) = []"
    by (simp_all add: fleet_start_def)
  with all_handled_steps [OF all, of 0 "{shard_request 0, shard_request 1}"] show ?thesis by auto
qed


lemma worker_run_in_fleet_witness:
  "\<exists>s. (fleet_step (example_env mem_bucket ''mem://raw'') example_url {scan_request})\<^sup>*\<^sup>*
      (fleet_start (example_world example_bucket)) s \<and> scan_request \<in> set (fl_acked s)"
proof -
  have "ms_closed example_bucket = []" by (simp add: example_bucket_def)
  from example_processed [OF this] obtain w' where p:
    "process_batch (example_env mem_bucket ''mem://raw'') scan_request example_url (example_world example_bucket) = (None, w')"
    by blast
  have run: "run_loop list_subscriber (scorecard_worker (example_env mem_bucket ''mem://raw'')) example_url [scan_request]
      (example_world example_bucket) [] = Some (Returns None, w', [Pulled scan_request, Acked, Closed])"
    using scan_request_pending [OF p]
    by (simp add: run_loop.simps [where u = "[scan_request]"] run_loop.simps [where u = "[]"] list_subscriber_def)
  from worker_run_in_fleet [OF run, of "{scan_request}"] obtain s where
    "(fleet_step (example_env mem_bucket ''mem://raw'') example_url {scan_request})\<^sup>*\<^sup>* (fleet_start (example_world example_bucket)) s"
    "\<forall>pre req post. [Pulled scan_request, Acked, Closed] = pre @ [Pulled req, Acked] @ post \<longrightarrow> req \<in> set (fl_acked s)"
    by auto
  then show ?thesis by (metis append_Cons append_Nil)
qed

end
