(* ===== verification/Pipeline.thy ===== *)
theory Pipeline
  imports CronPrograms Fleet
begin

text \<open>
  The batch plane as a whole: what the controller, the workers and the transfer job, each by
  its own contract with the storage they share, make of a run.
\<close>

section \<open>Shards and summaries\<close>

lemma shard_name_of_nat: "shard_name (int i) = ''shard-'' @ pad0 7 (itoa_nat i)"
  by (simp add: shard_name_def)

lemma shard_name_inject: "shard_name (int i) = shard_name (int j) \<longleftrightarrow> i = j"
proof
  assume "shard_name (int i) = shard_name (int j)"
  then have "dec_val (pad0 7 (itoa_nat i)) = dec_val (pad0 7 (itoa_nat j))" by (simp add: shard_name_of_nat)
  then show "i = j" by simp
qed simp

text \<open>A run all of whose shards are there is complete, if the threshold is at most 1.\<close>

lemma all_shards_complete:
  assumes s: "spec_summary md ks t = Some s" and d: "distinct ks" "length ks < 2 ^ 53"
    and n: "0 < n" "ss_shards_expected s = int n"
    and there: "\<And>i. i < n \<Longrightarrow> get_blob_filename (shard_name (int i)) t \<in> set ks"
    and threshold: "float64_small threshold" "fst threshold \<le> 2 ^ snd threshold"
  shows "is_completed s threshold"
proof -
  note S = spec_summary_Some [OF s]
  let ?shards = "filter (prefix ''shard-'') (names_at ks t)"
  have "(\<lambda>i. shard_name (int i)) ` {..<n} \<subseteq> set ?shards"
    using there S(1) by (auto simp: names_at_set shard_name_of_nat)
  moreover have "inj_on (\<lambda>i. shard_name (int i)) {..<n}" by (rule inj_onI) (simp add: shard_name_inject)
  ultimately have "n \<le> card (set ?shards)"
    by (metis card_image card_lessThan card_mono finite_set)
  then have ge: "n \<le> ss_shards_created s"
    unfolding S(4) using card_length le_trans by blast
  have "(\<lambda>f. get_blob_filename f t) ` set (names_at ks t) \<subseteq> set ks" by (auto simp: names_at_set)
  moreover have "inj_on (\<lambda>f. get_blob_filename f t) (set (names_at ks t))" by (rule inj_onI) simp
  ultimately have "card (set (names_at ks t)) \<le> card (set ks)"
    by (metis card_image card_mono finite_set)
  then have "length (names_at ks t) \<le> length ks"
    using names_at_distinct [OF d(1)] d(1) by (simp add: distinct_card)
  then have "ss_shards_created s < 2 ^ 53"
    unfolding S(4) using d(2) length_filter_le [of "prefix ''shard-''" "names_at ks t"] by linarith
  moreover have "reaches (ss_shards_created s) n threshold"
    using ge threshold(2) mult_le_mono [OF threshold(2) ge] by (simp add: reaches_def mult.commute)
  ultimately show ?thesis
    using float_div_reaches [of n "ss_shards_created s" threshold] n threshold(1) by (simp add: is_completed_def)
qed

text \<open>The load of a run.\<close>

definition run_load :: "bq_config \<Rightarrow> civil \<Rightarrow> bq_load" where
  "run_load c t = \<lparr>bl_source = create_gcs_ref (bc_bucket c) (get_blob_filename ''shard-*'' t),
     bl_project = bc_project c, bl_dataset = bc_dataset c, bl_table = bc_table c @ ''$'' @ format_partition t\<rparr>"

lemma complete_run_loaded:
  assumes laws: "bucket_model (be_store E) objs" and t: "job_time t"
    and md: "objs (bw_store w) (bc_bucket c, get_shard_metadata_filename t) = Some d"
      "unmarshal d = Inr m" "get_num_shard m = int n" "0 < n"
    and there: "\<And>i. i < n \<Longrightarrow> objs (bw_store w) (bc_bucket c, get_blob_filename (shard_name (int i)) t) \<noteq> None"
    and fits: "card {k. objs (bw_store w) (bc_bucket c, k) \<noteq> None} < 2 ^ 53"
    and threshold: "float64_small (bc_threshold c)" "fst (bc_threshold c) \<le> 2 ^ snd (bc_threshold c)"
    and main: "bq_main E unmarshal order c w = (None, w1)" "\<And>xs. set (order xs) = set xs"
  shows "objs (bw_store w1) (bc_bucket c, get_transfer_status_filename t) \<noteq> None \<and>
    (objs (bw_store w) (bc_bucket c, get_transfer_status_filename t) = None \<longrightarrow>
       JobSucceeded (run_load c t) \<in> set (bw_events w1))"
proof -
  let ?b = "bc_bucket c" and ?md = "metadata_at (be_store E) unmarshal (bw_store w) (bc_bucket c)"
  obtain S where S: "get_bucket_summary (be_store E) unmarshal (bw_store w) ?b = Inr S"
    and tr: "transfer_data_to_bq E c w (shards order S) = (None, w1)"
    using main(1) by (auto simp: bq_main_def split: sum.splits)
  from summarized [OF laws S] obtain ks where ks: "distinct ks" "set ks = {k. objs (bw_store w) (?b, k) \<noteq> None}"
    "\<And>t. map_of S t = spec_summary ?md ks t" "distinct (map fst S)"
    "\<And>t. ShardMetadataFilename \<in> set (names_at ks t) \<Longrightarrow>
       \<exists>d m. objs (bw_store w) (?b, get_shard_metadata_filename t) = Some d \<and> unmarshal d = Inr m \<and>
         ?md (get_shard_metadata_filename t) = Some (d, get_num_shard m)" by blast
  have in_ks: "f \<in> set (names_at ks t) \<longleftrightarrow> objs (bw_store w) (?b, get_blob_filename f t) \<noteq> None" for f
    using t by (simp add: names_at_set ks(2))
  have named: "ShardMetadataFilename \<in> set (names_at ks t)"
    using md(1) by (simp add: in_ks get_shard_metadata_filename_def)
  then obtain s where s: "spec_summary ?md ks t = Some s"
    using spec_summary_None [of ?md ks t] by (cases "spec_summary ?md ks t") auto
  note s_simps = spec_summary_Some [OF s]
  have "ss_shards_expected s = int n"
    using ks(5) [OF named] md named by (auto simp: s_simps(5))
  then have complete: "is_completed s (bc_threshold c)"
    using all_shards_complete [OF s ks(1) _ md(4) _ _ threshold] there fits ks(1)
    by (simp add: ks(2) flip: distinct_card)
  have "(t, s) \<in> set S" using s ks(3) by (metis map_of_SomeD)
  then have in_shards: "s \<in> set (shards order S)" by (force simp: shards_def main(2))
  have objects: "objs (bw_store w1) = (\<lambda>k. if k \<in> mark_of c ` {s \<in> set (shards order S). eligible c s} then Some []
      else objs (bw_store w) k)"
    by (rule bucket_model.transfer_objects [OF laws tr refl])
  show ?thesis
  proof (cases "objs (bw_store w) (?b, get_transfer_status_filename t)")
    case None
    then have "eligible c s" using complete by (simp add: eligible_def s_simps(3) in_ks get_transfer_status_filename_def)
    then have "mark_of c s \<in> mark_of c ` {s \<in> set (shards order S). eligible c s}"
      and "s \<in> set (filter (eligible c) (shards order S))" using in_shards by auto
    moreover have "mark_of c s = (?b, get_transfer_status_filename t)" by (simp add: mark_of_def s_simps(2))
    moreover have "JobSucceeded (run_load c t) \<in> set (plan c s)"
      by (simp add: plan_def load_of_def run_load_def create_gcs_ref_def s_simps(2))
    ultimately show ?thesis using transfer_events [OF tr] by (auto simp: objects)
  qed (simp add: objects)
qed

section \<open>From the controller to BigQuery\<close>

lemma metadata_not_shard:
  assumes "job_time t" "job_time (bt_job_time req)"
  shows "get_shard_metadata_filename t \<noteq> result_filename req"
proof
  assume "get_shard_metadata_filename t = result_filename req"
  then have "parse_blob_filename (get_blob_filename ShardMetadataFilename t) =
      parse_blob_filename (get_blob_filename (shard_name (bt_shard_num req)) (bt_job_time req))"
    by (simp add: get_shard_metadata_filename_def result_filename_def)
  then show False using assms by (simp add: parse_blob_filename_get shard_name_def ShardMetadataFilename_def)
qed


section \<open>An example run\<close>

text \<open>A transfer job whose calls succeed does not fail.\<close>

lemma example_transfer_ends:
  "ms_closed (bw_store w) = [] \<Longrightarrow> \<exists>w1. transfer_data_to_bq example_bq_env c w ss = (None, w1)"
proof (induction ss arbitrary: w)
  case (Cons s ss)
  have "\<exists>w1. transfer_shard example_bq_env c w s = (None, w1) \<and> ms_closed (bw_store w1) = []"
    using Cons.prems
    by (auto simp: transfer_shard_def start_data_transfer_job_def create_bq_loader_def Let_def log_event_def
        post_webhook_def mark_transferred_def mem_bucket_write example_env_simps)
  then show ?case using Cons.IH by fastforce
qed simp

abbreviation example_workers :: "mem_storage worker_env" where
  "example_workers \<equiv> example_env mem_bucket ''mem://raw''"

lemma example_buckets: "we_storage example_workers = mem_bucket"
    "we_api_bucket example_workers \<noteq> example_url" "we_raw_bucket example_workers \<noteq> example_url"
  by (simp_all add: example_env_def example_url_def)

text \<open>What the workers leave, and that it can be summarised.\<close>

lemma example_fleet_files:
  assumes reach: "(fleet_step example_workers example_url {shard_request 0, shard_request 1})\<^sup>*\<^sup>*
      (fleet_start (example_world example_recorded)) s"
    and there: "map_of (ms_objects (wd_store (fl_world s))) (example_url, k) = Some f"
  shows "k = get_shard_metadata_filename wtime \<and> f = itoa 2 \<or>
    k \<in> {get_blob_filename (shard_name (int 0)) wtime, get_blob_filename (shard_name (int 1)) wtime}"
proof -
  have "map_of (ms_objects example_recorded) (example_url, k) = Some f \<or>
      complete_file example_workers {shard_request 0, shard_request 1} k f"
    using mem_atomic.fleet_reachable [OF reach example_buckets] there
    by (auto simp: fleet_inv_def Let_def example_world_def)
  then show ?thesis
    by (auto simp: example_recorded_def complete_file_def result_filename_def split: if_splits)
qed

lemma example_fleet_summarized:
  assumes reach: "(fleet_step example_workers example_url {shard_request 0, shard_request 1})\<^sup>*\<^sup>*
      (fleet_start (example_world example_recorded)) s"
    and world: "fl_world s = example_world st" and open_store: "ms_closed st = []"
  shows "\<exists>S. get_bucket_summary mem_bucket example_unmarshal st example_url = Inr S"
proof -
  let ?md = "get_shard_metadata_filename wtime"
  have store: "wd_store (fl_world s) = st" using world by (simp add: example_world_def)
  obtain ks where ks: "get_blob_keys mem_bucket st example_url = Inr ks"
    using open_store by (simp add: get_blob_keys_def get_blob_keys_with_prefix_def blob_keys_prefix_def mem_bucket_def mem_store_def)
  have "known_file (metadata_at mem_bucket example_unmarshal st example_url) k" if "k \<in> set ks" for k
  proof -
    from mem_bucket.keys [OF ks] that obtain f where f: "map_of (ms_objects st) (example_url, k) = Some f" by auto
    from example_fleet_files [OF reach, unfolded store, OF f] show ?thesis
    proof
      assume k: "k = ?md \<and> f = itoa 2"
      then have "get_blob_content mem_bucket st example_url ?md = Inr (itoa 2)"
        using f open_store by (simp add: get_blob_content_def mem_bucket_def mem_store_def)
      moreover have "atoi (itoa 2) = Some 2" by (rule atoi_itoa) (simp add: is_i64_def)
      ultimately show ?thesis
        using k by (simp add: known_file_def get_shard_metadata_filename_def parse_blob_filename_get metadata_at_def
            example_unmarshal_def)
    next
      assume "k \<in> {get_blob_filename (shard_name (int 0)) wtime, get_blob_filename (shard_name (int 1)) wtime}"
      then show ?thesis by (auto simp: known_file_def parse_blob_filename_get shard_name_def)
    qed
  qed
  with get_bucket_summary_spec [OF ks, of example_unmarshal] show ?thesis by (auto split: sum.splits)
qed


end
