(* ===== verification/Webhook.thy ===== *)
theory Webhook
  imports BucketSummary
begin

text \<open>
  \<open>cron/internal/webhook\<close>: the server that marks the images of a finished job as stable.  The
  registry client, its credentials and the decoder of \<open>ShardMetadata\<close> are parameters; the tags
  that were set are the state.
\<close>

section \<open>The handler\<close>

definition images :: "string list" where
  "images = [''gcr.io/openssf/scorecard-batch-controller'', ''gcr.io/openssf/scorecard-batch-worker'',
     ''gcr.io/openssf/scorecard-cii-worker'', ''gcr.io/openssf/scorecard-bq-transfer'',
     ''gcr.io/openssf/scorecard-github-server'']"

definition stableTag :: string where "stableTag = ''stable''"

definition maxBodySize :: nat where "maxBodySize = 1024"

text \<open>A request: its method and its body, with the error that reading it ends in.\<close>

record hook_request =
  hq_method :: string
  hq_body :: string
  hq_body_error :: "err option"

record hook_response =
  hp_status :: nat
  hp_body :: string

text \<open>The images that were tagged, as they were referred to, and their new tags.\<close>

type_synonym tags = "(string \<times> string) list"

record hook_env =
  he_unmarshal :: "string \<Rightarrow> shard_metadata res"
  he_authenticator :: "err option"
  he_tag :: "tags \<Rightarrow> string \<Rightarrow> string \<Rightarrow> err option" \<comment> \<open>the error of \<open>crane.Tag\<close>\<close>
  he_write :: "err option"

text \<open>\<open>io.ReadAll\<close> of a \<open>http.MaxBytesReader\<close>.\<close>

definition read_max :: "nat \<Rightarrow> hook_request \<Rightarrow> string res" where
  "read_max n r =
     (if n < length (hq_body r) then Inl (Typed ''*http.MaxBytesError'' ''http: request body too large'' [])
      else case hq_body_error r of Some e \<Rightarrow> Inl e | None \<Rightarrow> Inr (hq_body r))"

text \<open>\<open>http.Error\<close>, which ends its text with a line feed.\<close>

definition http_error :: "string \<Rightarrow> nat \<Rightarrow> hook_response" where
  "http_error msg status = \<lparr>hp_status = status, hp_body = msg @ [CHR 0x0A]\<rparr>"

definition get_commit_sha :: "shard_metadata \<Rightarrow> string" where
  "get_commit_sha m = (case sm_commit_sha m of None \<Rightarrow> [] | Some c \<Rightarrow> c)"

fun tag_images :: "hook_env \<Rightarrow> string \<Rightarrow> string list \<Rightarrow> tags \<Rightarrow> err option \<times> tags" where
  "tag_images H sha [] ts = (None, ts)"
| "tag_images H sha (i # is) ts =
     (case he_tag H ts (i @ '':'' @ sha) stableTag of
        Some e \<Rightarrow> (Some e, ts)
      | None \<Rightarrow> tag_images H sha is (ts @ [(i @ '':'' @ sha, stableTag)]))"

definition script_handler :: "hook_env \<Rightarrow> hook_request \<Rightarrow> tags \<Rightarrow> hook_response outcome \<times> tags" where
  "script_handler H r ts =
     (if hq_method r \<noteq> ''POST'' then (Ret (http_error ''only POST method is allowed'' 405), ts)
      else case read_max maxBodySize r of
        Inl e \<Rightarrow> (Ret (http_error (''unable to read request body: '' @ err_text e) 500), ts)
      | Inr jsonBytes \<Rightarrow>
      case he_unmarshal H jsonBytes of
        Inl e \<Rightarrow> (Ret (http_error (''unable to parse request as ShardMetadata proto: '' @ err_text e) 400), ts)
      | Inr metadata \<Rightarrow>
      case he_authenticator H of
        Some e \<Rightarrow> (Ret (http_error (''error in NewEnvAuthenticator: '' @ err_text e) 500), ts)
      | None \<Rightarrow>
      case tag_images H (get_commit_sha metadata) images ts of
        (Some e, ts') \<Rightarrow> (Ret (http_error (''crane.Tag: '' @ err_text e) 500), ts')
      | (None, ts') \<Rightarrow>
      case he_write H of
        Some e \<Rightarrow> (Panic (''error during Write: '' @ err_text e), ts')
      | None \<Rightarrow> (Ret \<lparr>hp_status = 200, hp_body = ''successfully tagged images'' @ [CHR 0x0A]\<rparr>, ts'))"

section \<open>What a call does\<close>

definition tags_of :: "string \<Rightarrow> tags" where
  "tags_of sha = map (\<lambda>i. (i @ '':'' @ sha, stableTag)) images"

lemma tag_images_outcome:
  "tag_images H sha is ts = (e, ts') \<Longrightarrow>
   \<exists>n. ts' = ts @ take n (map (\<lambda>i. (i @ '':'' @ sha, stableTag)) is) \<and> (if e = None then length is \<le> n else n < length is)"
proof (induction "is" arbitrary: ts)
  case (Cons i "is")
  show ?case
  proof (cases "he_tag H ts (i @ '':'' @ sha) stableTag")
    case None
    then obtain n where "ts' = (ts @ [(i @ '':'' @ sha, stableTag)]) @ take n (map (\<lambda>i. (i @ '':'' @ sha, stableTag)) is)"
      "if e = None then length is \<le> n else n < length is"
      using Cons by force
    then show ?thesis by (intro exI [of _ "Suc n"]) (auto split: if_splits)
  next
    case (Some x)
    then have "e = Some x" "ts' = ts" using Cons.prems by simp_all
    then show ?thesis by (intro exI [of _ 0]) auto
  qed
qed auto


text \<open>The tags are not set together: after a failure the images of one release are stable at two commits.\<close>

definition failing_hook :: hook_env where
  "failing_hook = \<lparr>he_unmarshal = (\<lambda>b. Inr \<lparr>sm_shard_loc = None, sm_num_shard = Some 1, sm_commit_sha = Some b\<rparr>),
     he_authenticator = None, he_tag = (\<lambda>ts i t. if ts = [] then None else Some (Sentinel ''unavailable'')), he_write = None\<rparr>"


end
