(* ===== verification/CiiMirror.thy ===== *)
theory CiiMirror
  imports BucketSummary CronConfig GoJson
begin

text \<open>
  \<open>cron/internal/cii\<close>: the program that mirrors the badges of \<open>bestpractices.dev\<close> into a bucket,
  page by page.  The HTTP client, the decoder of a page and \<open>BadgeResponse.AsJSON\<close> are parameters;
  the state is the storage, and a log of the requests and of the ticks waited for.
\<close>

section \<open>The mirror\<close>

definition ciiBaseURL :: string where "ciiBaseURL = ''https://www.bestpractices.dev/projects.json''"

record cii_page_resp =
  cp_repo_url :: string
  cp_badge_level :: string

datatype cii_event = Asked string | Tick

record 's cii_world =
  cw_store :: 's
  cw_log :: "cii_event list"

record 's cii_env =
  ci_store :: "'s object_store"
  ci_as_json :: "string \<Rightarrow> string res" \<comment> \<open>\<open>clients.BadgeResponse{BadgeLevel: l}.AsJSON()\<close>\<close>
  ci_new_request :: "string \<Rightarrow> err option"
  ci_do :: "string \<Rightarrow> string res res" \<comment> \<open>the response, its body read\<close>
  ci_unmarshal :: "string \<Rightarrow> cii_page_resp list res"

definition log_cii :: "cii_event \<Rightarrow> 's cii_world \<Rightarrow> 's cii_world" where
  "log_cii e w = w\<lparr>cw_log := cw_log w @ [e]\<rparr>"

definition project_url :: "string \<Rightarrow> string" where
  "project_url u = trim_prefix ''http://'' (trim_prefix ''https://'' u)"

definition badge_file :: "string \<Rightarrow> string" where
  "badge_file projectURL = projectURL @ ''/result.json''"

fun write_to_cii_data_bucket ::
  "'s cii_env \<Rightarrow> cii_page_resp list \<Rightarrow> string \<Rightarrow> 's \<Rightarrow> err option \<times> 's" where
  "write_to_cii_data_bucket E [] bucketURL s = (None, s)"
| "write_to_cii_data_bucket E (project # pageResp) bucketURL s =
     (if project_url (cp_repo_url project) = [] then write_to_cii_data_bucket E pageResp bucketURL s
      else case ci_as_json E (cp_badge_level project) of
        Inl e \<Rightarrow> (Some (errorf [L ''error during AsJSON: '', W e]), s)
      | Inr jsonData \<Rightarrow>
      case write_to_blob_store (ci_store E) s bucketURL (badge_file (project_url (cp_repo_url project))) jsonData of
        (Some e, s1) \<Rightarrow> (Some (errorf [L ''error during data.WriteToBlobStore: '', W e]), s1)
      | (None, s1) \<Rightarrow> write_to_cii_data_bucket E pageResp bucketURL s1)"

definition page_url :: "nat \<Rightarrow> string" where
  "page_url pageNum = ciiBaseURL @ ''?page='' @ itoa_nat pageNum"

definition get_page :: "'s cii_env \<Rightarrow> nat \<Rightarrow> 's cii_world \<Rightarrow> cii_page_resp list res \<times> 's cii_world" where
  "get_page E pageNum w =
     (let url = page_url pageNum in
      case ci_new_request E url of
        Some e \<Rightarrow> (Inl (errorf [L ''error during http.NewRequestWithContext: '', W e]), w)
      | None \<Rightarrow>
      let w1 = log_cii (Asked url) w in
      case ci_do E url of
        Inl e \<Rightarrow> (Inl (errorf [L ''error during http.DefaultClient.Do: '', W e]), w1)
      | Inr (Inl e) \<Rightarrow> (Inl (errorf [L ''error during io.ReadAll: '', W e]), w1)
      | Inr (Inr respContent) \<Rightarrow>
          (case ci_unmarshal E respContent of
             Inl e \<Rightarrow> (Inl (errorf [L ''error during json.Unmarshal: '', W e]), w1)
           | Inr ciiResponse \<Rightarrow> (Inr ciiResponse, w1)))"

text \<open>The loop of \<open>main\<close>; \<open>None\<close> if it never ends.\<close>

partial_function (option) mirror_loop ::
  "'s cii_env \<Rightarrow> string \<Rightarrow> nat \<Rightarrow> cii_page_resp list res \<Rightarrow> 's cii_world \<Rightarrow> (unit outcome \<times> 's cii_world) option" where
  "mirror_loop E bucketURL pageNum page w =
     (case page of
        Inl e \<Rightarrow> Some (Panic (err_text e), w)
      | Inr pageResp \<Rightarrow>
          if pageResp = [] then Some (Ret (), w)
          else let w1 = log_cii Tick w in
            case write_to_cii_data_bucket E pageResp bucketURL (cw_store w1) of
              (Some e, s) \<Rightarrow> Some (Panic (err_text e), w1\<lparr>cw_store := s\<rparr>)
            | (None, s) \<Rightarrow>
                (case get_page E (pageNum + 1) (w1\<lparr>cw_store := s\<rparr>) of
                   (page', w2) \<Rightarrow> mirror_loop E bucketURL (pageNum + 1) page' w2))"

definition cii_main ::
  "'s cii_env \<Rightarrow> (string \<Rightarrow> string \<times> err option) \<Rightarrow> string \<Rightarrow> settings \<Rightarrow> 's cii_world \<Rightarrow>
   (unit outcome \<times> 's cii_world) option" where
  "cii_main E read_file config_file S0 w =
     (case read_config read_file config_file S0 of
        (Some e, S) \<Rightarrow> Some (Panic (err_text e), w)
      | (None, S) \<Rightarrow>
      case get_cii_data_bucket_url S of
        Inl e \<Rightarrow> Some (Panic (err_text e), w)
      | Inr ciiDataBucket \<Rightarrow>
          (case get_page E 1 w of (page, w1) \<Rightarrow> mirror_loop E ciiDataBucket 1 page w1))"

section \<open>Pages and entries\<close>

text \<open>What a page is, apart from the log.\<close>

definition page_of :: "'s cii_env \<Rightarrow> nat \<Rightarrow> cii_page_resp list res" where
  "page_of E n = fst (get_page E n \<lparr>cw_store = undefined, cw_log = []\<rparr>)"

definition asked :: "'s cii_env \<Rightarrow> nat \<Rightarrow> cii_event list" where
  "asked E n = (if ci_new_request E (page_url n) = None then [Asked (page_url n)] else [])"

lemma get_page_split:
  "get_page E n w = (page_of E n, w\<lparr>cw_log := cw_log w @ asked E n\<rparr>)"
  by (auto simp: page_of_def get_page_def asked_def Let_def log_cii_def split: option.split sum.split)

lemma page_of_asked: "page_of E n = Inr ps \<Longrightarrow> asked E n = [Asked (page_url n)]"
  by (auto simp: page_of_def get_page_def asked_def Let_def split: option.splits)

fun entries :: "'s cii_env \<Rightarrow> string \<Rightarrow> cii_page_resp list \<Rightarrow> ((string \<times> string) \<times> string) list" where
  "entries E b [] = []"
| "entries E b (p # ps) =
     (case ci_as_json E (cp_badge_level p) of
        Inr d \<Rightarrow> (if project_url (cp_repo_url p) = [] then [] else [((b, badge_file (project_url (cp_repo_url p))), d)])
      | Inl e \<Rightarrow> []) @ entries E b ps"

definition page_entries :: "'s cii_env \<Rightarrow> string \<Rightarrow> nat \<Rightarrow> ((string \<times> string) \<times> string) list" where
  "page_entries E b n = (case page_of E n of Inr ps \<Rightarrow> entries E b ps | Inl e \<Rightarrow> [])"

context bucket_model
begin

lemma mirror_page:
  assumes "ci_store E = B"
  shows "write_to_cii_data_bucket E ps b s = (None, s') \<Longrightarrow> objs s' = objs s ++ map_of (rev (entries E b ps))"
proof (induction ps arbitrary: s)
  case (Cons p ps)
  then show ?case
    by (auto dest!: written [folded assms] simp: map_add_assoc split: if_splits sum.splits prod.splits option.splits)
qed simp

lemma mirror_pages:
  assumes B: "ci_store E = B"
    and "mirror_loop E b n page w = Some x" "x = (Ret (), w')" "page = page_of E n"
  shows "\<exists>k \<ge> n. (\<forall>i \<in> {n..<k}. \<exists>p ps. page_of E i = Inr (p # ps)) \<and> page_of E k = Inr [] \<and>
    objs (cw_store w') = objs (cw_store w) ++ map_of (rev (concat (map (page_entries E b) [n..<k]))) \<and>
    cw_log w' = cw_log w @ concat (map (\<lambda>i. [Tick, Asked (page_url (Suc i))]) [n..<k])"
proof (rule mirror_loop.raw_induct [where P = "\<lambda>E b n page w x. ci_store E = B \<longrightarrow> x = (Ret (), w') \<longrightarrow> page = page_of E n \<longrightarrow>
    (\<exists>k \<ge> n. (\<forall>i \<in> {n..<k}. \<exists>p ps. page_of E i = Inr (p # ps)) \<and> page_of E k = Inr [] \<and>
    objs (cw_store w') = objs (cw_store w) ++ map_of (rev (concat (map (page_entries E b) [n..<k]))) \<and>
    cw_log w' = cw_log w @ concat (map (\<lambda>i. [Tick, Asked (page_url (Suc i))]) [n..<k]))",
    OF _ assms(2), rule_format, OF _ assms(1,3,4)], goal_cases)
  case (1 f E b n page w x)
  then obtain ps where ps: "page = Inr ps" by (auto split: sum.splits)
  show ?case
  proof (cases ps)
    case Nil
    then have "x = (Ret (), w)" using 1(2) ps by simp
    then show ?thesis using Nil ps 1(4) 1(5) [symmetric] by (intro exI [of _ n]) simp
  next
    case (Cons p qs)
    obtain r s where wr: "write_to_cii_data_bucket E ps b (cw_store w) = (r, s)" by fastforce
    have ne: "ps \<noteq> []" using Cons by simp
    have r: "r = None" using 1(2,4) ps ne wr by (auto simp: log_cii_def Let_def split: option.splits)
    let ?w2 = "(log_cii Tick w)\<lparr>cw_store := s, cw_log := cw_log w @ [Tick] @ asked E (Suc n)\<rparr>"
    have "f E b (Suc n) (page_of E (Suc n)) ?w2 = Some x"
      using 1(2) ps ne wr r by (simp add: log_cii_def Let_def get_page_split)
    from 1(1) [OF this, rule_format, OF 1(3,4) refl] obtain k where
      k: "Suc n \<le> k" "\<forall>i \<in> {Suc n..<k}. \<exists>p ps. page_of E i = Inr (p # ps)" "page_of E k = Inr []"
      "objs (cw_store w') = objs s ++ map_of (rev (concat (map (page_entries E b) [Suc n..<k])))"
      "cw_log w' = cw_log w @ [Tick] @ asked E (Suc n) @ concat (map (\<lambda>i. [Tick, Asked (page_url (Suc i))]) [Suc n..<k])"
      by (auto simp: log_cii_def)
    have "\<exists>ps. page_of E (Suc n) = Inr ps"
      using k(1-3) by (cases "Suc n = k") auto
    then have a: "asked E (Suc n) = [Asked (page_url (Suc n))]" using page_of_asked by blast
    have "page_entries E b n = entries E b ps" using 1(5) [symmetric] ps by (simp add: page_entries_def)
    then have "objs s = objs (cw_store w) ++ map_of (rev (page_entries E b n))"
      using mirror_page [OF 1(3)] wr r by simp
    moreover have "\<exists>p ps. page_of E i = Inr (p # ps)" if "i \<in> {n..<k}" for i
      using that k(2) 1(5) [symmetric] ps Cons by (cases "i = n") auto
    ultimately show ?thesis
      using k a by (intro exI [of _ k]) (simp add: upt_conv_Cons map_add_assoc)
  qed
qed

end

section \<open>The program ends, and what it leaves\<close>


lemma mirror_loop_ends:
  assumes "\<And>ps. page_of E k \<noteq> Inr ps \<or> ps = []"
  shows "n \<le> k \<Longrightarrow> \<exists>r w'. mirror_loop E b n (page_of E n) w = Some (r, w') \<and>
    length (filter (\<lambda>e. e = Tick) (cw_log w')) \<le> length (filter (\<lambda>e. e = Tick) (cw_log w)) + (k - n)"
proof (induction "k - n" arbitrary: n w)
  case 0
  then show ?case using assms by (subst mirror_loop.simps) (auto split: sum.split)
next
  case (Suc d)
  show ?case
  proof (cases "\<exists>p ps. page_of E n = Inr (p # ps)")
    case False
    then show ?thesis by (subst mirror_loop.simps) (auto split: sum.split simp: neq_Nil_conv)
  next
    case True
    then obtain ps where ps: "page_of E n = Inr ps" "ps \<noteq> []" by auto
    obtain r s where wr: "write_to_cii_data_bucket E ps b (cw_store w) = (r, s)" by fastforce
    have n: "Suc n \<le> k" "d = k - Suc n" using Suc.hyps(2) by simp_all
    let ?w2 = "(log_cii Tick w)\<lparr>cw_store := s, cw_log := cw_log w @ [Tick] @ asked E (Suc n)\<rparr>"
    have "length (filter (\<lambda>e. e = Tick) (asked E (Suc n))) = 0" by (simp add: asked_def)
    with Suc.hyps(1) [OF n(2,1), of ?w2] ps wr show ?thesis
      by (subst mirror_loop.simps) (auto simp: log_cii_def Let_def get_page_split n(2) [symmetric] Suc.hyps(2) [symmetric]
          split: option.split)
  qed
qed

text \<open>
  C38.  The program ends if some page is empty or cannot be had, whatever the storage does: it
  waits for a tick at most once for each page before.
\<close>

theorem mirror_ends:
  assumes "1 \<le> k" and "\<And>ps. page_of E k \<noteq> Inr ps \<or> ps = []"
  shows "\<exists>r w'. cii_main E read_file config_file S0 w = Some (r, w') \<and>
    length (filter (\<lambda>e. e = Tick) (cw_log w')) < length (filter (\<lambda>e. e = Tick) (cw_log w)) + k"
proof -
  have "length (filter (\<lambda>e. e = Tick) (asked E 1)) = 0" by (simp add: asked_def)
  with mirror_loop_ends [OF assms(2) assms(1), of _ "w\<lparr>cw_log := cw_log w @ asked E 1\<rparr>"] assms(1)
  show ?thesis
    by (fastforce simp: cii_main_def get_page_split split: prod.split option.split sum.split)
qed

section \<open>An example site\<close>

text \<open>A decoder of pages, for objects of the two fields.\<close>

definition read_badge :: "json \<Rightarrow> cii_page_resp option" where
  "read_badge v = (case v of
     JObject ms \<Rightarrow> (case (map_of ms ''repo_url'', map_of ms ''badge_level'') of
        (Some (JString u), Some (JString l)) \<Rightarrow> Some \<lparr>cp_repo_url = u, cp_badge_level = l\<rparr>
      | _ \<Rightarrow> None)
   | _ \<Rightarrow> None)"

definition read_badges :: "string \<Rightarrow> cii_page_resp list res" where
  "read_badges s = (case parse_json s of
     Some (JArray vs) \<Rightarrow> (if None \<in> set (map read_badge vs) then Inl (Sentinel ''json'') else Inr (map (the \<circ> read_badge) vs))
   | _ \<Rightarrow> Inl (Sentinel ''json''))"

definition badge :: "string \<Rightarrow> string \<Rightarrow> json" where
  "badge u l = JObject [(''repo_url'', JString u), (''badge_level'', JString l)]"

text \<open>One page, where a project is listed twice and one has no URL, and an empty page.\<close>

definition example_page :: json where
  "example_page = JArray [badge ''https://github.com/a/b'' ''passing'', badge [] ''gold'', badge ''http://github.com/a/b'' ''silver'']"

definition example_site :: "mem_storage cii_env" where
  "example_site = \<lparr>ci_store = mem_bucket, ci_as_json = Inr, ci_new_request = (\<lambda>u. None),
     ci_do = (\<lambda>u. Inr (Inr (json_text (if u = page_url 1 then example_page else JArray [])))), ci_unmarshal = read_badges\<rparr>"

definition mirror_settings :: settings where
  "mirror_settings = \<lparr>st_lookup_env = (\<lambda>k. None), st_config_yaml = [],
     st_unmarshal = (\<lambda>y. Inr \<lparr>cf_project_id = [], cf_result_data_bucket_url = [], cf_request_topic_url = [],
       cf_request_subscription_url = [], cf_bigquery_dataset = [], cf_bigquery_table = [],
       cf_completion_threshold = (0, 0), cf_webhook_url = [], cf_metric_exporter = [], cf_metric_stackdriver_prefix = [],
       cf_shard_size = 10, cf_input_bucket_url = [], cf_input_bucket_prefix = [],
       cf_additional_params = [''scorecard'' \<mapsto> [''cii-data-bucket-url'' \<mapsto> ''gs://cii'']]\<rparr>),
     st_parse_float = (\<lambda>s. Inr (0, 0))\<rparr>"

definition example_start :: "mem_storage cii_world" where
  "example_start = \<lparr>cw_store = empty_storage, cw_log = []\<rparr>"

lemma mirror_settings_read:
  "read_config rf [] mirror_settings = (None, mirror_settings)" "get_cii_data_bucket_url mirror_settings = Inr ''gs://cii''"
  by (simp_all add: read_config_def get_cii_data_bucket_url_def get_scorecard_param_def get_scorecard_values_def
      get_additional_params_def get_map_config_value_def get_reflected_value_def get_parsed_config_def config_field_def
      map_index_def mirror_settings_def)

lemma example_texts:
  "well_formed ''repo_url'' = ''repo_url''" "well_formed ''badge_level'' = ''badge_level''"
  "well_formed ''https://github.com/a/b'' = ''https://github.com/a/b''"
  "well_formed ''http://github.com/a/b'' = ''http://github.com/a/b''"
  "well_formed ''passing'' = ''passing''" "well_formed ''gold'' = ''gold''" "well_formed ''silver'' = ''silver''"
  by (rule well_formed_ascii; code_simp)+

lemma example_page_read:
  "read_badges (json_text example_page) = Inr [\<lparr>cp_repo_url = ''https://github.com/a/b'', cp_badge_level = ''passing''\<rparr>,
     \<lparr>cp_repo_url = [], cp_badge_level = ''gold''\<rparr>, \<lparr>cp_repo_url = ''http://github.com/a/b'', cp_badge_level = ''silver''\<rparr>]"
  "read_badges (json_text (JArray [])) = Inr []"
  unfolding read_badges_def
  by (simp_all del: json_text.simps add: parse_json_text example_page_def badge_def example_texts read_badge_def)

lemma itoa_2: "itoa_nat 2 = ''2''" "itoa_nat 1 = ''1''" "itoa_nat (Suc 0) = ''1''"
  by (simp_all add: itoa_nat.simps digit_char_def)

lemma example_pages:
  "page_of example_site 1 = Inr [\<lparr>cp_repo_url = ''https://github.com/a/b'', cp_badge_level = ''passing''\<rparr>,
     \<lparr>cp_repo_url = [], cp_badge_level = ''gold''\<rparr>, \<lparr>cp_repo_url = ''http://github.com/a/b'', cp_badge_level = ''silver''\<rparr>]"
  "page_of example_site 2 = Inr []"
  by (simp_all add: page_of_def get_page_def example_site_def example_page_read page_url_def itoa_2 del: json_text.simps)

lemma mirror_ends_witness:
  "\<exists>r w'. cii_main example_site (\<lambda>f. ([], None)) [] mirror_settings example_start = Some (r, w') \<and>
     length (filter (\<lambda>e. e = Tick) (cw_log w')) < 2"
  using mirror_ends [of 2 example_site "\<lambda>f. ([], None)" "[]" mirror_settings example_start] example_pages(2)
  by (simp add: example_start_def del: numeral_2_eq_2 add_2_eq_Suc add_2_eq_Suc')


end
