(* ===== verification/SchemaGen.thy ===== *)
theory SchemaGen
  imports GoJson
begin

text \<open>
  \<open>cron/internal/format/schema_gen.go\<close>: the BigQuery schema of a Go type, as JSON.  The
  inference of a schema (\<open>bigquery.InferSchema\<close>) is a parameter.
\<close>

section \<open>Schemas\<close>

text \<open>A \<open>bigquery.FieldSchema\<close>: its description, name and type, whether it is repeated and required, its own fields.\<close>

datatype schema_field = SchemaField (sf_description: string) (sf_name: string) (sf_type: string)
  (sf_repeated: bool) (sf_required: bool) (sf_schema: "schema_field list")

datatype bq_json_field = BqJsonField (bq_description: string) (bq_mode: string) (bq_name: string) (bq_type: string)
  (bq_fields: "bq_json_field list")

fun generate_schema :: "schema_field list \<Rightarrow> bq_json_field list" where
  "generate_schema [] = []"
| "generate_schema (SchemaField d n t repeated required sub # schema) =
     BqJsonField d (if repeated then ''REPEATED'' else ''NULLABLE'') n t (generate_schema sub) # generate_schema schema"

text \<open>\<open>json.Marshal\<close> of a field, by its tags, and of a slice of fields, which is \<open>nil\<close> when it is empty.\<close>

fun field_json :: "bq_json_field \<Rightarrow> json" where
  "field_json (BqJsonField d m n t fs) = JObject ([(''description'', JString d), (''mode'', JString m),
     (''name'', JString n), (''type'', JString t)] @ (if fs = [] then [] else [(''fields'', JArray (map field_json fs))]))"

definition fields_json :: "bq_json_field list \<Rightarrow> json" where
  "fields_json fs = (if fs = [] then JNull else JArray (map field_json fs))"

definition generate_bq_schema :: "('t \<Rightarrow> schema_field list res) \<Rightarrow> 't \<Rightarrow> string res" where
  "generate_bq_schema infer_schema t =
     (case infer_schema t of
        Inl e \<Rightarrow> Inl (errorf [L ''bigquery.InferSchema: '', W e])
      | Inr schema \<Rightarrow> Inr (json_text (fields_json (generate_schema schema))))"

text \<open>
  \<open>GenerateJSONSchema\<close>: \<open>doc_read\<close> and \<open>doc_string\<close> are the methods of the library's document, and
  \<open>zero\<close> its value before anything is read.
\<close>

definition generate_json_schema :: "'d \<Rightarrow> ('t \<Rightarrow> 'd \<Rightarrow> 'd) \<Rightarrow> ('d \<Rightarrow> string) \<Rightarrow> 't \<Rightarrow> string" where
  "generate_json_schema zero doc_read doc_string t = (let s = zero; s = doc_read t s in doc_string s)"

section \<open>What is lost\<close>

text \<open>The schema that a schema in JSON describes: no field of it is required.\<close>

fun relaxed :: "schema_field list \<Rightarrow> schema_field list" where
  "relaxed [] = []"
| "relaxed (SchemaField d n t repeated required sub # schema) =
     SchemaField d n t repeated False (relaxed sub) # relaxed schema"

fun read_field :: "nat \<Rightarrow> json \<Rightarrow> schema_field option" where
  "read_field (Suc k) (JObject ((_, JString d) # (_, JString m) # (_, JString n) # (_, JString t) # rest)) =
     (case rest of
        [] \<Rightarrow> Some (SchemaField d n t (m = ''REPEATED'') (m = ''REQUIRED'') [])
      | [(_, JArray vs)] \<Rightarrow> (let fs = map (read_field k) vs in
          if None \<in> set fs then None
          else Some (SchemaField d n t (m = ''REPEATED'') (m = ''REQUIRED'') (map the fs)))
      | _ \<Rightarrow> None)"
| "read_field _ _ = None"

definition read_schema :: "nat \<Rightarrow> json \<Rightarrow> schema_field option list" where
  "read_schema k v = (case v of JArray vs \<Rightarrow> map (read_field k) vs | _ \<Rightarrow> [])"

fun ascii_schema :: "schema_field list \<Rightarrow> bool" where
  "ascii_schema [] = True"
| "ascii_schema (SchemaField d n t repeated required sub # schema) \<longleftrightarrow>
     list_all is_ascii d \<and> list_all is_ascii n \<and> list_all is_ascii t \<and> ascii_schema sub \<and> ascii_schema schema"

lemma numbers_ok_schema: "list_all (\<lambda>f. numbers_ok (field_json f)) (generate_schema schema)"
  by (induction schema rule: generate_schema.induct) (auto simp: list.pred_map comp_def)

lemma mode_names: "well_formed ''REPEATED'' = ''REPEATED''" "well_formed ''NULLABLE'' = ''NULLABLE''"
  by (rule well_formed_ascii; code_simp)+

lemma read_generated:
  "ascii_schema schema \<Longrightarrow> size_list size schema \<le> k \<Longrightarrow>
   map (\<lambda>f. read_field k (well_formed_json (field_json f))) (generate_schema schema) = map Some (relaxed schema)"
proof (induction schema arbitrary: k rule: generate_schema.induct)
  case (2 d n t repeated required sub schema)
  then obtain j where k: "k = Suc j" by (cases k) auto
  have sub: "map (\<lambda>f. read_field j (well_formed_json (field_json f))) (generate_schema sub) = map Some (relaxed sub)"
    using 2 k by simp
  have set: "None \<notin> set (map (\<lambda>f. read_field j (well_formed_json (field_json f))) (generate_schema sub))"
    unfolding sub by auto
  have the: "map (the \<circ> (\<lambda>f. read_field j (well_formed_json (field_json f)))) (generate_schema sub) = relaxed sub"
    using arg_cong [OF sub, of "map the"] by (simp add: comp_def)
  have empty: "generate_schema sub = [] \<longleftrightarrow> relaxed sub = []" using arg_cong [OF sub, of length] by (simp flip: length_0_conv)
  have rest: "map (\<lambda>f. read_field k (well_formed_json (field_json f))) (generate_schema schema) = map Some (relaxed schema)"
    using 2 by simp
  show ?case
    using 2(3) set the empty rest k
    by (auto simp: well_formed_ascii mode_names Let_def comp_def)
qed simp

text \<open>
  The text of a schema reads back as the schema, however deeply it is nested, with the order
  and the repetition of its fields but none of them required.
\<close>

theorem schema_reads_back:
  assumes "infer_schema t = Inr schema" "ascii_schema schema" "generate_bq_schema infer_schema t = Inr s"
  shows "\<exists>v. parse_json s = Some v \<and> read_schema (size_list size schema) v = map Some (relaxed schema)"
proof -
  have s: "s = json_text (fields_json (generate_schema schema))" using assms(1,3) by (simp add: generate_bq_schema_def)
  have "numbers_ok (fields_json (generate_schema schema))"
    using numbers_ok_schema [of schema] by (simp add: fields_json_def list.pred_map comp_def)
  then show ?thesis
    using read_generated [OF assms(2) order_refl]
    by (auto simp: s parse_json_text fields_json_def read_schema_def comp_def)
qed

text \<open>A required record of one repeated field.\<close>

definition example_schema :: "schema_field list" where
  "example_schema = [SchemaField [] ''repo'' ''RECORD'' False True
     [SchemaField ''names'' ''name'' ''STRING'' True True []]]"

lemma schema_reads_back_witness:
  "\<exists>s v. generate_bq_schema (\<lambda>u. Inr example_schema) () = Inr s \<and> parse_json s = Some v \<and>
     read_schema (size_list size example_schema) v =
       [Some (SchemaField [] ''repo'' ''RECORD'' False False [SchemaField ''names'' ''name'' ''STRING'' True False []])]"
proof -
  have "ascii_schema example_schema" by code_simp
  from schema_reads_back [OF _ this, of "\<lambda>u. Inr example_schema" "()"] show ?thesis
    by (simp add: generate_bq_schema_def) (simp add: example_schema_def)
qed

end
