(* ===== verification/MockDocs.thy ===== *)
theory MockDocs
  imports CronFormat
begin

text \<open>
  \<open>cron/internal/format/mock_doc.go\<close>: a documentation of checks made from a map, an instance of the
  interface the format of scored records reads its documentation through.
\<close>

record mock_check =
  mc_name :: string
  mc_risk :: string
  mc_short :: string
  mc_description :: string
  mc_url :: string
  mc_tags :: "string list"
  mc_remediation :: "string list"
  mc_repos :: "string list"

text \<open>The value of a map at a key it does not have.\<close>

definition zero_check :: mock_check where
  "zero_check = \<lparr>mc_name = [], mc_risk = [], mc_short = [], mc_description = [], mc_url = [],
     mc_tags = [], mc_remediation = [], mc_repos = []\<rparr>"

definition mock_get_tags :: "mock_check \<Rightarrow> string list" where
  "mock_get_tags c = map trim_space (mc_tags c)"

definition mock_get_supported_repo_types :: "mock_check \<Rightarrow> string list" where
  "mock_get_supported_repo_types c = map trim_space (mc_repos c)"

definition mock_get_documentation_url :: "mock_check \<Rightarrow> string \<Rightarrow> string" where
  "mock_get_documentation_url c commitish = mc_url c"

type_synonym mock_doc = "string \<rightharpoonup> mock_check"

definition mock_get_check :: "mock_doc \<Rightarrow> string \<Rightarrow> mock_check res" where
  "mock_get_check d nm = Inr (case d nm of Some m \<Rightarrow> m | None \<Rightarrow> zero_check)"

definition mock_get_checks :: "mock_doc \<Rightarrow> mock_check list option" where
  "mock_get_checks d = None"

definition mock_check_exists :: "mock_doc \<Rightarrow> string \<Rightarrow> bool" where
  "mock_check_exists d nm \<longleftrightarrow> d nm \<noteq> None"

text \<open>As the documentation of \<open>AsJSON2\<close>; the score and the internal error are the library's.\<close>

definition mock_docs :: "mock_doc \<Rightarrow> (scan_result \<Rightarrow> score res) \<Rightarrow> (string \<Rightarrow> err) \<Rightarrow> check_docs" where
  "mock_docs d aggregate internal =
     \<lparr>dc_get_check = (\<lambda>nm. map_sum id (\<lambda>m. \<lparr>cd_url = mock_get_documentation_url m, cd_short = mc_short m\<rparr>)
        (mock_get_check d nm)),
      dc_aggregate = aggregate, dc_internal = internal\<rparr>"

text \<open>
  A check the mock does not know is documented by empty texts, not refused, so a record fails for
  its score alone.
\<close>

lemma mock_checks_documented: "\<exists>js. json_checks_v2 (mock_docs d aggregate internal) r showDetails logLevel cs = Inr js"
  by (induction cs) (auto simp: mock_docs_def mock_get_check_def)

theorem mock_fails_by_score_only:
  "as_json2 (mock_docs d aggregate internal) r showDetails logLevel = Inl e \<longleftrightarrow> aggregate r = Inl e"
proof -
  obtain js where "json_checks_v2 (mock_docs d aggregate internal) r showDetails logLevel (sr_checks r) = Inr js"
    using mock_checks_documented by blast
  moreover have "dc_aggregate (mock_docs d aggregate internal) = aggregate" by (simp add: mock_docs_def)
  ultimately show ?thesis by (auto simp: as_json2_def json_result_v2_def split: sum.splits)
qed

lemma unknown_check_exists_not:
  "\<not> mock_check_exists d nm \<Longrightarrow> mock_get_check d nm = Inr zero_check"
  by (simp add: mock_check_exists_def mock_get_check_def)

end
