(* ===== verification/Heartbeat.thy ===== *)
theory Heartbeat
  imports Prelude
begin

text \<open>
  The goroutines that keep a held message leased, \<open>extendVisibility\<close> of \<open>subscriber_sqs.go\<close> and
  \<open>extendAckDeadline\<close> of \<open>subscriber_gcs.go\<close>, interleaved with the goroutine that pulls and
  answers messages: one step relation for each.
\<close>

section \<open>What the provider sees\<close>

datatype lease_event = Delivered string | Renewed string | Settled string bool \<comment> \<open>acked or nacked\<close>

text \<open>
  The message held after a sequence of events in which only a held message is renewed or
  settled; \<open>None\<close> if the sequence is not of that kind.
\<close>

definition see :: "lease_event \<Rightarrow> string option \<Rightarrow> string option option" where
  "see e held =
     (case e of
        Delivered h \<Rightarrow> if held = None then Some (Some h) else None
      | Renewed h \<Rightarrow> if held = Some h then Some held else None
      | Settled h a \<Rightarrow> if held = Some h then Some None else None)"

fun replay :: "lease_event list \<Rightarrow> string option \<Rightarrow> string option option" where
  "replay [] held = Some held"
| "replay (e # es) held = (case see e held of None \<Rightarrow> None | Some held' \<Rightarrow> replay es held')"

lemma replay_append: "replay (es @ fs) held = (case replay es held of None \<Rightarrow> None | Some h \<Rightarrow> replay fs h)"
  by (induction es arbitrary: held) (auto split: option.split)

section \<open>SQS\<close>

text \<open>
  The main goroutine: between messages, holding one, or in \<open>stopHeartbeat\<close>, the stop channel
  closed, before \<open>wg.Wait\<close> has returned.  The heartbeat: in its \<open>select\<close>, or in the call.
\<close>

datatype sqs_main = Idle | Holding string | Stopping string bool

datatype beat = Selecting | Calling

record sqs_lease =
  sl_main :: sqs_main
  sl_stop_closed :: bool
  sl_cancelled :: bool
  sl_beat :: "(string \<times> beat) option" \<comment> \<open>with its receipt handle; \<open>None\<close> once \<open>wg.Done\<close> is called\<close>
  sl_events :: "lease_event list"

definition sqs_start :: sqs_lease where
  "sqs_start = \<lparr>sl_main = Idle, sl_stop_closed = False, sl_cancelled = False, sl_beat = None, sl_events = []\<rparr>"

inductive sqs_step :: "sqs_lease \<Rightarrow> sqs_lease \<Rightarrow> bool" where
  deliver: "sl_main s = Idle \<Longrightarrow>
    sqs_step s (s\<lparr>sl_main := Holding h, sl_stop_closed := False, sl_beat := Some (h, Selecting),
      sl_events := sl_events s @ [Delivered h]\<rparr>)"
| tick: "sl_beat s = Some (h, Selecting) \<Longrightarrow> sqs_step s (s\<lparr>sl_beat := Some (h, Calling)\<rparr>)"
| renewed: "sl_beat s = Some (h, Calling) \<Longrightarrow>
    sqs_step s (s\<lparr>sl_beat := Some (h, Selecting), sl_events := sl_events s @ [Renewed h]\<rparr>)"
| renewal_failed: "sl_beat s = Some (h, Calling) \<Longrightarrow> sqs_step s (s\<lparr>sl_beat := Some (h, Selecting)\<rparr>)"
| leave: "sl_beat s = Some (h, Selecting) \<Longrightarrow> sl_stop_closed s \<or> sl_cancelled s \<Longrightarrow> sqs_step s (s\<lparr>sl_beat := None\<rparr>)"
| cancel: "sqs_step s (s\<lparr>sl_cancelled := True\<rparr>)"
| stop: "sl_main s = Holding h \<Longrightarrow> sqs_step s (s\<lparr>sl_main := Stopping h a, sl_stop_closed := True\<rparr>)"
| answer: "sl_main s = Stopping h a \<Longrightarrow> sl_beat s = None \<Longrightarrow>
    sqs_step s (s\<lparr>sl_main := Idle, sl_events := sl_events s @ [Settled h a]\<rparr>)"

inductive sqs_reachable :: "sqs_lease \<Rightarrow> bool" where
  start: "sqs_reachable sqs_start"
| step: "sqs_reachable s \<Longrightarrow> sqs_step s s' \<Longrightarrow> sqs_reachable s'"

definition sqs_held :: "sqs_lease \<Rightarrow> string option" where
  "sqs_held s = (case sl_main s of Idle \<Rightarrow> None | Holding h \<Rightarrow> Some h | Stopping h a \<Rightarrow> Some h)"

definition sqs_lease_inv :: "sqs_lease \<Rightarrow> bool" where
  "sqs_lease_inv s \<longleftrightarrow> replay (sl_events s) None = Some (sqs_held s) \<and>
     (\<forall>h b. sl_beat s = Some (h, b) \<longrightarrow> sqs_held s = Some h) \<and>
     (\<forall>h a. sl_main s = Stopping h a \<longrightarrow> sl_stop_closed s)"

lemma sqs_step_inv: "sqs_step s s' \<Longrightarrow> sqs_lease_inv s \<Longrightarrow> sqs_lease_inv s'"
  by (induction rule: sqs_step.induct)
    (auto simp: sqs_lease_inv_def sqs_held_def replay_append see_def split: sqs_main.splits)

lemma sqs_reachable_inv: "sqs_reachable s \<Longrightarrow> sqs_lease_inv s"
proof (induction rule: sqs_reachable.induct)
  case (step s s')
  then show ?case using sqs_step_inv by blast
qed (simp add: sqs_lease_inv_def sqs_held_def sqs_start_def)

text \<open>
  C39.  However the heartbeat and the loop interleave, an SQS message is renewed only while it
  is held: no renewal lands after the message was acked or nacked, none is for another
  message, and no message is answered twice.
\<close>

theorem sqs_renews_held_messages:
  assumes "sqs_reachable s"
  shows "replay (sl_events s) None = Some (sqs_held s)"
  using sqs_reachable_inv [OF assms] by (simp add: sqs_lease_inv_def)

text \<open>Nor can the loop get stuck: from \<open>stopHeartbeat\<close> the heartbeat can always finish and the answer follow.\<close>

lemma stopping_answers:
  assumes "sqs_reachable s" "sl_main s = Stopping h a"
  shows "\<exists>s'. sqs_step\<^sup>*\<^sup>* s s' \<and> sl_main s' = Idle \<and> last (sl_events s') = Settled h a"
proof -
  have c: "sl_stop_closed s" using sqs_reachable_inv [OF assms(1)] assms(2) by (simp add: sqs_lease_inv_def)
  have fin: "\<exists>s'. sqs_step\<^sup>*\<^sup>* u s' \<and> sl_main s' = Idle \<and> last (sl_events s') = Settled h a"
    if "sl_main u = Stopping h a" "sl_beat u = None" for u
    using answer [OF that] by (intro exI [of _ "u\<lparr>sl_main := Idle, sl_events := sl_events u @ [Settled h a]\<rparr>"]) auto
  have sel: "\<exists>s'. sqs_step\<^sup>*\<^sup>* u s' \<and> sl_main s' = Idle \<and> last (sl_events s') = Settled h a"
    if "sl_main u = Stopping h a" "sl_beat u = Some (g, Selecting)" "sl_stop_closed u" for u g
  proof -
    have "sqs_step u (u\<lparr>sl_beat := None\<rparr>)" using that by (intro leave) simp_all
    with fin [of "u\<lparr>sl_beat := None\<rparr>"] that show ?thesis by (auto intro: converse_rtranclp_into_rtranclp)
  qed
  show ?thesis
  proof (cases "sl_beat s")
    case None
    then show ?thesis by (rule fin [OF assms(2)])
  next
    case (Some gb)
    obtain g b where gb: "gb = (g, b)" by fastforce
    show ?thesis
    proof (cases b)
      case Selecting
      then show ?thesis using sel [OF assms(2)] Some gb c by simp
    next
      case Calling
      then have "sqs_step s (s\<lparr>sl_beat := Some (g, Selecting)\<rparr>)" using Some gb by (intro renewal_failed) simp
      with sel [of "s\<lparr>sl_beat := Some (g, Selecting)\<rparr>" g] assms(2) c show ?thesis
        by (auto intro: converse_rtranclp_into_rtranclp)
    qed
  qed
qed

section \<open>Google Pub/Sub\<close>

text \<open>
  Each pull makes a new \<open>done\<close> channel, here a number; \<open>Ack\<close> calls the server and then closes
  it, \<open>Nack\<close> closes it.  A heartbeat reads \<open>subscriber.done\<close> and \<open>subscriber.recvdAckID\<close> anew
  every time round its loop: \<open>Looping\<close> before it evaluates its \<open>select\<close>, then waiting on a channel.
\<close>

datatype gcs_main = GIdle | GPulling | GHolding string | GAcked

datatype gcs_beat = Looping | Waiting nat | Extending string

record gcs_lease =
  gl_main :: gcs_main
  gl_done :: nat
  gl_closed :: "nat set"
  gl_recvd :: string
  gl_beats :: "gcs_beat list"
  gl_events :: "lease_event list"

definition gcs_start :: gcs_lease where
  "gcs_start = \<lparr>gl_main = GIdle, gl_done = 0, gl_closed = {}, gl_recvd = [], gl_beats = [], gl_events = []\<rparr>"

inductive gcs_step :: "gcs_lease \<Rightarrow> gcs_lease \<Rightarrow> bool" where
  gpull: "gl_main s = GIdle \<Longrightarrow> gcs_step s (s\<lparr>gl_main := GPulling, gl_done := Suc (gl_done s)\<rparr>)"
| gdeliver: "gl_main s = GPulling \<Longrightarrow>
    gcs_step s (s\<lparr>gl_main := GHolding h, gl_recvd := h, gl_beats := gl_beats s @ [Looping],
      gl_events := gl_events s @ [Delivered h]\<rparr>)"
| gselect: "gl_beats s = xs @ Looping # ys \<Longrightarrow> gcs_step s (s\<lparr>gl_beats := xs @ Waiting (gl_done s) # ys\<rparr>)"
| gtick: "gl_beats s = xs @ Waiting c # ys \<Longrightarrow> gcs_step s (s\<lparr>gl_beats := xs @ Extending (gl_recvd s) # ys\<rparr>)"
| gextended: "gl_beats s = xs @ Extending h # ys \<Longrightarrow>
    gcs_step s (s\<lparr>gl_beats := xs @ Looping # ys, gl_events := gl_events s @ [Renewed h]\<rparr>)"
| gleave: "gl_beats s = xs @ Waiting c # ys \<Longrightarrow> c \<in> gl_closed s \<Longrightarrow> gcs_step s (s\<lparr>gl_beats := xs @ ys\<rparr>)"
| gack: "gl_main s = GHolding h \<Longrightarrow>
    gcs_step s (s\<lparr>gl_main := GAcked, gl_events := gl_events s @ [Settled h True]\<rparr>)"
| gclose: "gl_main s = GAcked \<Longrightarrow> gcs_step s (s\<lparr>gl_main := GIdle, gl_closed := insert (gl_done s) (gl_closed s)\<rparr>)"
| gnack: "gl_main s = GHolding h \<Longrightarrow>
    gcs_step s (s\<lparr>gl_main := GIdle, gl_closed := insert (gl_done s) (gl_closed s),
      gl_events := gl_events s @ [Settled h False]\<rparr>)"

inductive gcs_reachable :: "gcs_lease \<Rightarrow> bool" where
  gstart: "gcs_reachable gcs_start"
| gstep: "gcs_reachable s \<Longrightarrow> gcs_step s s' \<Longrightarrow> gcs_reachable s'"

text \<open>
  C40.  The Google heartbeat is not bound to its message.  There is an interleaving in which a
  message is nacked while its heartbeat is in the call to the server: the call extends the
  lease of the nacked message, and then, the loop having made the next channel meanwhile, the
  heartbeat waits on that one, which nothing has closed, to extend the next message beside
  that message's own.
\<close>

theorem gcs_heartbeat_outlives_nack:
  "\<exists>s. gcs_reachable s \<and> replay (gl_events s) None = None \<and>
     gl_events s = [Delivered h, Settled h False, Renewed h, Delivered h'] \<and>
     gl_beats s = [Waiting (gl_done s), Looping] \<and> gl_done s \<notin> gl_closed s"
proof -
  have "gcs_reachable \<lparr>gl_main = GPulling, gl_done = 1, gl_closed = {}, gl_recvd = [], gl_beats = [], gl_events = []\<rparr>"
    using gstep [OF gstart gpull] by (simp add: gcs_start_def)
  from gstep [OF this gdeliver [where h = h]]
  have "gcs_reachable \<lparr>gl_main = GHolding h, gl_done = 1, gl_closed = {}, gl_recvd = h, gl_beats = [Looping],
      gl_events = [Delivered h]\<rparr>" by simp
  from gstep [OF this gselect [where xs = "[]" and ys = "[]"]]
  have "gcs_reachable \<lparr>gl_main = GHolding h, gl_done = 1, gl_closed = {}, gl_recvd = h, gl_beats = [Waiting 1],
      gl_events = [Delivered h]\<rparr>" by simp
  from gstep [OF this gtick [where xs = "[]" and ys = "[]" and c = 1]]
  have "gcs_reachable \<lparr>gl_main = GHolding h, gl_done = 1, gl_closed = {}, gl_recvd = h, gl_beats = [Extending h],
      gl_events = [Delivered h]\<rparr>" by simp
  from gstep [OF this gnack [where h = h]]
  have "gcs_reachable \<lparr>gl_main = GIdle, gl_done = 1, gl_closed = {1}, gl_recvd = h, gl_beats = [Extending h],
      gl_events = [Delivered h, Settled h False]\<rparr>" by simp
  from gstep [OF this gpull]
  have "gcs_reachable \<lparr>gl_main = GPulling, gl_done = 2, gl_closed = {1}, gl_recvd = h, gl_beats = [Extending h],
      gl_events = [Delivered h, Settled h False]\<rparr>" by (simp add: numeral_2_eq_2)
  from gstep [OF this gextended [where h = h and xs = "[]" and ys = "[]"]]
  have "gcs_reachable \<lparr>gl_main = GPulling, gl_done = 2, gl_closed = {1}, gl_recvd = h, gl_beats = [Looping],
      gl_events = [Delivered h, Settled h False, Renewed h]\<rparr>" by simp
  from gstep [OF this gselect [where xs = "[]" and ys = "[]"]]
  have "gcs_reachable \<lparr>gl_main = GPulling, gl_done = 2, gl_closed = {1}, gl_recvd = h, gl_beats = [Waiting 2],
      gl_events = [Delivered h, Settled h False, Renewed h]\<rparr>" by simp
  from gstep [OF this gdeliver [where h = h']]
  have "gcs_reachable \<lparr>gl_main = GHolding h', gl_done = 2, gl_closed = {1}, gl_recvd = h', gl_beats = [Waiting 2, Looping],
      gl_events = [Delivered h, Settled h False, Renewed h, Delivered h']\<rparr>" by simp
  then show ?thesis by (intro exI conjI, assumption) (simp_all add: see_def)
qed

lemma sqs_renews_held_messages_witness:
  "\<exists>s. sqs_reachable s \<and> sl_events s = [Delivered ''h'', Renewed ''h''] \<and> sqs_held s = Some ''h'' \<and>
     replay (sl_events s) None = Some (Some ''h'')"
proof -
  have "sqs_reachable \<lparr>sl_main = Holding ''h'', sl_stop_closed = False, sl_cancelled = False,
      sl_beat = Some (''h'', Selecting), sl_events = [Delivered ''h'']\<rparr>"
    using step [OF start deliver [of sqs_start "''h''"]] by (simp add: sqs_start_def)
  from step [OF this tick [where h = "''h''"]]
  have "sqs_reachable \<lparr>sl_main = Holding ''h'', sl_stop_closed = False, sl_cancelled = False,
      sl_beat = Some (''h'', Calling), sl_events = [Delivered ''h'']\<rparr>" by simp
  from step [OF this renewed [where h = "''h''"]]
  have r: "sqs_reachable \<lparr>sl_main = Holding ''h'', sl_stop_closed = False, sl_cancelled = False,
      sl_beat = Some (''h'', Selecting), sl_events = [Delivered ''h'', Renewed ''h'']\<rparr>" (is "sqs_reachable ?s") by simp
  from sqs_renews_held_messages [OF r] r show ?thesis by (intro exI [of _ ?s]) (simp add: sqs_held_def)
qed

end
