(* ===== verification/Spec2Isabelle.thy ===== *)
theory Spec2Isabelle
  imports ServerConfig Diagnostics PostProps SwaggerInit ApiProgram Pipeline Webhook CiiMirror SchemaGen MockDocs Heartbeat
begin

text \<open>
  Scorecard infrastructure (\<open>ossf/scorecard-infra\<close>): the services that produce, store
  and serve OpenSSF Scorecard results.  This development models their own code, Go and
  the one hand-written script of the API's documentation page, as HOL definitions that
  compute, and proves what makes each part correct.

  \<^bold>\<open>The program.\<close>
  \<^item> The on-demand server (\<open>cmd/scorecard-api\<close>, \<open>internal/\<close>): an HTTP API answers a
    request for a repository, and perhaps a commit, from the result store; when there is
    no fresh result it asks an upstream API or scans, once for all requests that want the
    same key, and answers 202 when the scan takes longer than the request may wait.
  \<^item> The public API (\<open>api/app/server\<close>): verifies and publishes results that the Scorecard
    GitHub action uploads, and serves results, badges and its version.
  \<^item> The batch plane (\<open>cron/\<close>): a controller splits the input repositories into shards on a
    queue, workers scan the shards, a transfer job loads complete jobs into BigQuery.

  \<^bold>\<open>Theories of the server.\<close>
  \<open>RepoRef\<close> (\<open>internal/model\<close>: references, commits, results, provenance), \<open>ResultStore\<close>
  (\<open>internal/store\<close>), \<open>Flags\<close> (\<open>internal/flags\<close>), \<open>Tokens\<close> (\<open>internal/tokens\<close>: token pool,
  host limiter, retries), \<open>ScanEngine\<close> (\<open>internal/scan\<close>: worker pool, engine),
  \<open>Fallback\<close> (\<open>internal/fallback\<close>), \<open>Orchestrator\<close> (\<open>internal/orchestrator\<close>, one request
  at a time), \<open>SingleFlight\<close> (the same with requests interleaved, as a step relation),
  \<open>HttpApi\<close> (\<open>internal/httpapi\<close>), \<open>ServerConfig\<close> (\<open>internal/config\<close> and
  \<open>cmd/scorecard-api/main.go\<close>).  The state of a request is the bucket, an abstract value
  the storage operations act on; the scanner, flags, decoder and clock are fields of the
  orchestrator record, as they are fields of the Go struct.

  \<^bold>\<open>Theories of the API.\<close>
  \<open>WorkflowVerify\<close> and \<open>Diagnostics\<close> (\<open>verify_workflow.go\<close>, \<open>verify_diagnostics.go\<close>),
  \<open>GithubVerifier\<close> (\<open>github_verifier.go\<close>), \<open>Cdn\<close> (\<open>internal/cdn\<close>, \<open>github_transport.go\<close>,
  with the process-wide HTTP client as state), \<open>CertCheck\<close> (log entries and certificates),
  \<open>PostResults\<close> and \<open>PostProps\<close> (\<open>post_results.go\<close>, \<open>config.go\<close>), \<open>GetResults\<close>
  (\<open>get_results.go\<close>, \<open>badge.go\<close>, \<open>version.go\<close>, \<open>serveStatic\<close>), \<open>ApiProgram\<close> (\<open>api/main.go\<close>),
  \<open>SwaggerInit\<close> (\<open>swagger-initializer.js\<close>).

  \<^bold>\<open>Theories of the batch plane.\<close>
  \<open>BlobNames\<close> (the object names of \<open>cron/data/blob.go\<close>), \<open>ObjectStore\<close> (its storage
  operations), \<open>RepoLists\<close> and \<open>RepoWriter\<close> (\<open>format.go\<close>, \<open>iterator.go\<close>, \<open>writer.go\<close> and the
  programs \<open>add\<close>, \<open>validate\<close>, \<open>shuffle\<close>), \<open>GoFloat\<close> and \<open>BucketSummary\<close> (\<open>summary.go\<close>),
  \<open>CronConfig\<close> (\<open>cron/config\<close>), \<open>Controller\<close> (\<open>cron/internal/controller\<close>, \<open>publisher.go\<close>),
  \<open>WorkLoop\<close> (\<open>cron/worker\<close>), \<open>Subscribers\<close> and \<open>Heartbeat\<close> (\<open>cron/internal/pubsub\<close>),
  \<open>GoJson\<close>, \<open>CronFormat\<close>, \<open>SchemaGen\<close> and \<open>MockDocs\<close> (\<open>cron/internal/format\<close>: what is written, down to the
  bytes), \<open>CronWorker\<close> (\<open>cron/internal/worker\<close>, \<open>provenance\<close>), \<open>BqTransfer\<close>
  (\<open>cron/internal/bq\<close>), \<open>Monitoring\<close> (\<open>cron/monitoring\<close>, \<open>cron/internal/githubserver\<close>),
  \<open>CronPrograms\<close> (how the worker and the transfer job are set up and shut down), \<open>Webhook\<close> (\<open>cron/internal/webhook\<close>), \<open>CiiMirror\<close>
  (\<open>cron/internal/cii\<close>), \<open>Fleet\<close> (several workers at once, as a step relation over the calls of
  \<open>processRequest\<close>), \<open>Pipeline\<close> (controller, workers and transfer job together).
  The storage is a parameter with the laws of the locale \<open>bucket_model\<close>, an abstraction of its
  state to a map; a queue client is the list of its answers, so a run that outlasts the list is
  \<open>Blocked\<close>.  Loops that only the environment ends are \<open>partial_function\<close>s whose termination
  is proved from the laws of an iterator (\<open>repo_iterator\<close>) or a subscriber
  (\<open>subscriber_contract\<close>), or from a page that is empty.

  \<^bold>\<open>What the lemmas show.\<close>
  \<^item> Server: a result that is served is fresh and of the requested key, one scan serves all
    requests for a key, requests do not see each other's keys, a scan is found again, keys are
    injective, retries and the pool keep their bounds.
  \<^item> API: what is published was signed in an accepted workflow run of the repository, the answer
    of an upload says what went wrong, and an upload is read back.
  \<^item> Batch plane: every repository of the input is in exactly one message, the metadata expects
    as many shards as there are messages, the files of a request hold the records of its
    repositories, and an acked request has its result stored however the calls of workers
    interleave; a summary counts what the keys say, a run is loaded once, and a run all of whose
    shards were acked is loaded (\<open>Pipeline\<close>).
  \<^item> Formats: records and schemas are read back from what was written, names of objects from
    their keys.
  Where the code does not do what it means to, the theorem states what it does, and its text says
  why that matters.

  \<^bold>\<open>Fuel.\<close>
  The JSON reader takes the length of its text as fuel, one unit for each nested value:
  \<open>read_json_text\<close> shows that this is enough for every text that is written.  Schemas are read
  back with their size as fuel.  No other definition has fuel.

  \<^bold>\<open>Shared theories.\<close>
  \<open>Prelude\<close> (Go errors with the chain of \<open>errors.Is\<close> and \<open>errors.As\<close>, fallible and panicking
  functions, 64-bit integers), \<open>GoStrings\<close> (\<open>strings\<close>, \<open>strconv\<close>, \<open>path\<close>), \<open>GoTime\<close>
  (calendar, RFC 3339).

  \<^bold>\<open>Parameters.\<close>
  Third-party packages are arguments of the definitions that use them: the Scorecard engine and
  its documentation, \<open>gocloud.dev\<close>, the queue, BigQuery, registry and GitHub clients, OpenFeature,
  \<open>protojson\<close>, YAML and the workflow linter, cryptography and X.509, and the network itself.  What
  is relied on is a hypothesis or a law of a locale, and every locale is interpreted, the storage
  by a memory bucket.

  \<^bold>\<open>Not modelled.\<close>
  Code generated by go-swagger and protoc, the bundles of Swagger UI, logging, signal handling, the
  parsing of flags and the server of runtime profiles a worker starts on the side; the Terraform,
  Kubernetes and shell files of \<open>deploy\<close>, \<open>cron/k8s\<close> and \<open>scripts\<close> have no program to model.
\<close>

end
